theory Spec2Isabelle
  imports Complex_Main
begin

section \<open>The grid-based partitioner of repa (src/grids/gridbased.cpp)\<close>

text \<open>
  A shallow embedding of \<^verbatim>\<open>GridBasedGrid\<close>. The program is SPMD: every rank runs the
  same code on its own object and meets the others in MPI collectives. A rank's object is
  the record \<open>grid_state\<close>; a collective operation is a function of the list of all
  ranks' objects, indexed by rank.

  Conventions of the embedding:
  \<^item> \<^verbatim>\<open>double\<close> is \<open>real\<close> (no rounding, no NaN); a theorem that depends on a
    quotient names the non-zero denominators it needs;
  \<^item> ranks are \<open>int\<close> (the code uses \<open>-1\<close> for "no destination"); cell indices, local
    indices and counters are \<open>nat\<close> (they are never negative in the code);
  \<^item> \<^verbatim>\<open>ENSURE\<close> and the other \<^verbatim>\<open>#ifdef GRID_DEBUG\<close> code is switched by the flag
    \<open>grid_debug\<close> of the configuration. A failed \<^verbatim>\<open>ENSURE\<close> prints a message and calls
    \<^verbatim>\<open>kill(0, SIGINT)\<close>: the job ends there when the signal terminates the processes (the
    flag \<open>sigint_terminates\<close>: the default disposition of SIGINT), and the statements after
    the macro run when the signal is handled, ignored or blocked. The end of the job and
    every \<^verbatim>\<open>throw\<close> are error values;
  \<^item> the collaborators that are not part of this file (the global cell box \<^verbatim>\<open>gbox\<close>, the
    \<^verbatim>\<open>tetra::Octagon\<close> predicate, \<^verbatim>\<open>map_position_node_array\<close>, \<^verbatim>\<open>my_right\<close>, \<^verbatim>\<open>box_l\<close>
    and the Cartesian communicator's dimensions) are fields of the record \<open>config\<close>.
\<close>

subsection \<open>Three-component arrays\<close>

type_synonym 'a vec3 = "'a \<times> 'a \<times> 'a"

fun nth3 :: "'a vec3 \<Rightarrow> nat \<Rightarrow> 'a" where
  "nth3 (x, y, z) d = (if d = 0 then x else if d = 1 then y else z)"

text \<open>The array a loop \<^verbatim>\<open>for (d = 0; d < 3; ++d) a[d] = f(d)\<close> writes.\<close>

definition tab3 :: "(nat \<Rightarrow> 'a) \<Rightarrow> 'a vec3" where
  "tab3 f = (f 0, f 1, f 2)"

subsection \<open>Errors, configuration and state\<close>

datatype error =
    EnsureFailed          \<comment> \<open>the SIGINT of a failed \<^verbatim>\<open>ENSURE\<close> has ended the job\<close>
  | PositionUnknown       \<comment> \<open>\<^verbatim>\<open>runtime_error("Position unknown...")\<close>\<close>
  | NotInLocalBox         \<comment> \<open>\<^verbatim>\<open>domain_error("Particle not in local box")\<close>\<close>
  | NotLocal              \<comment> \<open>\<^verbatim>\<open>runtime_error("... position_to_cell for ghost layer cell.")\<close>\<close>
  | KeyMissing            \<comment> \<open>\<^verbatim>\<open>std::out_of_range\<close> of \<^verbatim>\<open>global_to_local.at(i)\<close>\<close>
  | OutOfBounds           \<comment> \<open>an index beyond the end of a vector\<close>

record config =
  grid_debug :: bool
  sigint_terminates :: bool
  dims :: "int vec3"
  box_l :: "real vec3"
  my_right :: "int \<Rightarrow> real vec3"
  ncells :: nat
  midpoint :: "nat \<Rightarrow> real vec3"
  cell_at_pos :: "real vec3 \<Rightarrow> nat"
  full_shell_neigh_without_center :: "nat \<Rightarrow> nat list"
  gbox_cell_size :: "real vec3"
  contains :: "real vec3 list \<Rightarrow> real vec3 \<Rightarrow> bool"
  map_position_node_array :: "real vec3 \<Rightarrow> int"

text \<open>
  The macro \<^verbatim>\<open>ENSURE(cond)\<close> is empty without \<^verbatim>\<open>GRID_DEBUG\<close>. With it, a false \<open>cond\<close>
  runs \<^verbatim>\<open>fprintf(stderr, ...); kill(0, SIGINT);\<close> and nothing else: there is no
  \<^verbatim>\<open>abort\<close> and no \<^verbatim>\<open>return\<close>. So a failed \<^verbatim>\<open>ENSURE\<close> ends the job exactly in a build
  with \<^verbatim>\<open>GRID_DEBUG\<close> in which SIGINT terminates the processes; in every other case the
  statement after the macro is the next one to run.
\<close>

definition ensure_fatal :: "config \<Rightarrow> bool" where
  "ensure_fatal cfg \<longleftrightarrow> grid_debug cfg \<and> sigint_terminates cfg"

record GhostExchangeDesc =
  dest :: int
  recv :: "nat list"
  send :: "nat list"

definition empty_desc :: GhostExchangeDesc where
  "empty_desc = \<lparr>dest = - 1, recv = [], send = []\<rparr>"

text \<open>
  An octagon is kept as the array of its eight corners; \<open>contains cfg\<close> is the
  predicate of the tetra library on it. The graph communicator \<^verbatim>\<open>neighcomm\<close> is kept as
  the two adjacency lists it was created from.
\<close>

record grid_state =
  mu :: real
  is_regular_grid :: bool
  gridpoint :: "real vec3"
  gridpoints :: "real vec3 list"
  neighbor_ranks :: "int list"
  neighbor_idx :: "int \<rightharpoonup> nat"
  comm_sources :: "int list"
  comm_dests :: "int list"
  my_dom :: "real vec3 list"
  neighbor_doms :: "real vec3 list list"
  nlocalcells :: nat
  nghostcells :: nat
  cells :: "nat list"
  global_to_local :: "nat \<rightharpoonup> nat"
  exchange_vec :: "GhostExchangeDesc list"

text \<open>The object as the member initialisers leave it: \<^verbatim>\<open>mu(1.0), neighcomm(MPI_COMM_NULL)\<close>.\<close>

definition fresh_state :: grid_state where
  "fresh_state = \<lparr>mu = 1, is_regular_grid = False, gridpoint = (0, 0, 0), gridpoints = [],
     neighbor_ranks = [], neighbor_idx = Map.empty, comm_sources = [], comm_dests = [],
     my_dom = [], neighbor_doms = [], nlocalcells = 0, nghostcells = 0, cells = [],
     global_to_local = Map.empty, exchange_vec = []\<rparr>"

text \<open>\<^verbatim>\<open>m[k]\<close> on a \<^verbatim>\<open>std::map\<close> with integer values: a missing key reads as 0 and is inserted.\<close>

definition lookup0 :: "('k \<rightharpoonup> nat) \<Rightarrow> 'k \<Rightarrow> nat" where
  "lookup0 m k = (case m k of None \<Rightarrow> 0 | Some v \<Rightarrow> v)"

definition touch :: "('k \<rightharpoonup> nat) \<Rightarrow> 'k \<Rightarrow> ('k \<rightharpoonup> nat)" where
  "touch m k = m(k \<mapsto> lookup0 m k)"

definition push_back_unique :: "'a list \<Rightarrow> 'a \<Rightarrow> 'a list" where
  "push_back_unique v el = (if el \<in> set v then v else v @ [el])"

subsection \<open>The Cartesian communicator\<close>

text \<open>
  \<^verbatim>\<open>MPI_Cart_rank\<close> and \<^verbatim>\<open>MPI_Cart_coords\<close> number the process grid in row-major order.
\<close>

definition cart_rank :: "int vec3 \<Rightarrow> int vec3 \<Rightarrow> int" where
  "cart_rank ds c = (nth3 c 0 * nth3 ds 1 + nth3 c 1) * nth3 ds 2 + nth3 c 2"

definition cart_coords :: "int vec3 \<Rightarrow> int \<Rightarrow> int vec3" where
  "cart_coords ds r = ((r div nth3 ds 2) div nth3 ds 1, (r div nth3 ds 2) mod nth3 ds 1, r mod nth3 ds 2)"

definition n_nodes :: "config \<Rightarrow> nat" where
  "n_nodes cfg = nat (nth3 (dims cfg) 0 * nth3 (dims cfg) 1 * nth3 (dims cfg) 2)"

subsection \<open>bounding_box\<close>

definition corner_offsets :: "int vec3 list" where
  "corner_offsets = [(a, b, c). a \<leftarrow> [0, 1], b \<leftarrow> [0, 1], c \<leftarrow> [0, 1]]"

definition bounding_box :: "config \<Rightarrow> real vec3 list \<Rightarrow> int \<Rightarrow> real vec3 list" where
  "bounding_box cfg gps r =
     (let c = cart_coords (dims cfg) r in
      map (\<lambda>off.
        let wrapped = (\<lambda>d. nth3 c d - nth3 off d < 0);
            nc = tab3 (\<lambda>d. if wrapped d then nth3 (dims cfg) d - 1 else nth3 c d - nth3 off d);
            mirror = tab3 (\<lambda>d. if wrapped d then - 1 else (0::int));
            rank = cart_rank (dims cfg) nc
        in tab3 (\<lambda>d. nth3 (gps ! nat rank) d + real_of_int (nth3 mirror d) * nth3 (box_l cfg) d))
        corner_offsets)"

subsection \<open>init_partitioning, init_neighbors, init_octagons\<close>

text \<open>
  The part of \<^verbatim>\<open>init_partitioning\<close> before the calls of \<^verbatim>\<open>init_neighbors\<close> and
  \<^verbatim>\<open>init_octagons\<close>: the rank's corner is \<^verbatim>\<open>my_right\<close>, moved down by \<^verbatim>\<open>1e-6\<close> on the
  axes where \<^verbatim>\<open>my_right[d] < box_l[d]\<close>.
\<close>

definition init_gridpoint :: "config \<Rightarrow> int \<Rightarrow> grid_state \<Rightarrow> grid_state" where
  "init_gridpoint cfg me s =
     s\<lparr>is_regular_grid := True,
       gridpoint := tab3 (\<lambda>d. if nth3 (my_right cfg me) d < nth3 (box_l cfg) d
                               then nth3 (my_right cfg me) d - 1 / 1000000
                               else nth3 (my_right cfg me) d)\<rparr>"

definition neighbor_offsets :: "int vec3 list" where
  "neighbor_offsets = [(a, b, c). a \<leftarrow> [- 1, 0, 1], b \<leftarrow> [- 1, 0, 1], c \<leftarrow> [- 1, 0, 1]]"

text \<open>The rank at offset \<open>off\<close> of \<open>me\<close>, with the periodic wrap of the loop body.\<close>

definition offset_rank :: "config \<Rightarrow> int \<Rightarrow> int vec3 \<Rightarrow> int" where
  "offset_rank cfg me off =
     (let c = cart_coords (dims cfg) me;
          nc = tab3 (\<lambda>d. let x = nth3 c d + nth3 off d in
                          if x < 0 then nth3 (dims cfg) d - 1
                          else if x = nth3 (dims cfg) d then 0 else x)
      in cart_rank (dims cfg) nc)"

text \<open>
  One pass of the innermost loop body of \<^verbatim>\<open>init_neighbors\<close>. The loop's locals are the
  counter \<^verbatim>\<open>nneigh\<close> and the vectors \<^verbatim>\<open>source_neigh\<close> and \<^verbatim>\<open>dest_neigh\<close>.
\<close>

record neigh_loop =
  nneigh :: nat
  source_neigh :: "int list"
  dest_neigh :: "int list"
  nl_ranks :: "int list"
  nl_idx :: "int \<rightharpoonup> nat"

definition neigh_step :: "config \<Rightarrow> int \<Rightarrow> int vec3 \<Rightarrow> neigh_loop \<Rightarrow> neigh_loop" where
  "neigh_step cfg me off l =
     (let r = offset_rank cfg me off in
      if r = me then l
      else
        let l1 = (if nl_idx l r = None
                  then l\<lparr>nl_ranks := nl_ranks l @ [r], nl_idx := (nl_idx l)(r \<mapsto> nneigh l),
                         nneigh := Suc (nneigh l)\<rparr>
                  else l);
            l2 = (if 0 \<le> nth3 off 0 \<and> 0 \<le> nth3 off 1 \<and> 0 \<le> nth3 off 2
                  then l1\<lparr>source_neigh := push_back_unique (source_neigh l1) r\<rparr> else l1)
        in (if nth3 off 0 \<le> 0 \<and> nth3 off 1 \<le> 0 \<and> nth3 off 2 \<le> 0
            then l2\<lparr>dest_neigh := push_back_unique (dest_neigh l2) r\<rparr> else l2))"

definition neigh_loop_start :: neigh_loop where
  "neigh_loop_start = \<lparr>nneigh = 0, source_neigh = [], dest_neigh = [], nl_ranks = [], nl_idx = Map.empty\<rparr>"

definition init_neighbors :: "config \<Rightarrow> int \<Rightarrow> grid_state \<Rightarrow> grid_state" where
  "init_neighbors cfg me s =
     (let l = fold (neigh_step cfg me) neighbor_offsets neigh_loop_start in
      s\<lparr>neighbor_ranks := nl_ranks l, neighbor_idx := nl_idx l,
        comm_sources := source_neigh l @ [me], comm_dests := dest_neigh l @ [me]\<rparr>)"

text \<open>
  \<^verbatim>\<open>init_octagons\<close>, given the result \<open>gps\<close> of its \<^verbatim>\<open>all_gather\<close> of every rank's
  \<^verbatim>\<open>gridpoint\<close>.
\<close>

definition init_octagons :: "config \<Rightarrow> int \<Rightarrow> real vec3 list \<Rightarrow> grid_state \<Rightarrow> grid_state" where
  "init_octagons cfg me gps s =
     s\<lparr>gridpoints := gps, my_dom := bounding_box cfg gps me,
       neighbor_doms := map (bounding_box cfg gps) (neighbor_ranks s)\<rparr>"

subsection \<open>position_to_rank and gloidx_to_rank\<close>

definition position_to_rank :: "config \<Rightarrow> int \<Rightarrow> grid_state \<Rightarrow> real vec3 \<Rightarrow> error + int" where
  "position_to_rank cfg me s pos =
     (let mp = midpoint cfg (cell_at_pos cfg pos) in
      if is_regular_grid s then Inr (map_position_node_array cfg mp)
      else if contains cfg (my_dom s) mp then Inr me
      else (case find (\<lambda>i. contains cfg (neighbor_doms s ! i) mp) [0..<length (neighbor_ranks s)] of
              Some i \<Rightarrow> Inr (neighbor_ranks s ! i)
            | None \<Rightarrow> Inl PositionUnknown))"

definition gloidx_to_rank :: "config \<Rightarrow> int \<Rightarrow> grid_state \<Rightarrow> nat \<Rightarrow> error + int" where
  "gloidx_to_rank cfg me s gloidx = position_to_rank cfg me s (midpoint cfg gloidx)"

subsection \<open>reinit\<close>

text \<open>A loop whose body can fail: the first error ends it.\<close>

fun foldE :: "('a \<Rightarrow> 's \<Rightarrow> error + 's) \<Rightarrow> 'a list \<Rightarrow> 's \<Rightarrow> error + 's" where
  "foldE f [] s = Inr s"
| "foldE f (x # xs) s = (case f x s of Inl e \<Rightarrow> Inl e | Inr s' \<Rightarrow> foldE f xs s')"

definition clear_decomposition :: "grid_state \<Rightarrow> grid_state" where
  "clear_decomposition s =
     s\<lparr>nlocalcells := 0, nghostcells := 0, cells := [], global_to_local := Map.empty,
       exchange_vec := []\<rparr>"

text \<open>The body of the loop over all global cells.\<close>

definition add_local_cell :: "config \<Rightarrow> nat \<Rightarrow> grid_state \<Rightarrow> grid_state" where
  "add_local_cell cfg i s =
     (if contains cfg (my_dom s) (midpoint cfg i)
      then s\<lparr>cells := cells s @ [i],
             global_to_local := (global_to_local s)(i \<mapsto> nlocalcells s),
             nlocalcells := Suc (nlocalcells s)\<rparr>
      else s)"

text \<open>
  The body of the loop over the neighbours \<open>neighidx\<close> of the local cell \<^verbatim>\<open>cells[i]\<close>.
  \<^verbatim>\<open>exchange_vec[idx]\<close> beyond the end of the vector is the error \<open>OutOfBounds\<close>.
\<close>

definition ghost_step :: "config \<Rightarrow> int \<Rightarrow> nat \<times> nat \<Rightarrow> grid_state \<Rightarrow> error + grid_state" where
  "ghost_step cfg me = (\<lambda>(i, neighidx) s.
     case gloidx_to_rank cfg me s neighidx of
       Inl e \<Rightarrow> Inl e
     | Inr owner \<Rightarrow>
        if owner = me then Inr s
        else
          let s1 = (if global_to_local s neighidx = None
                    then s\<lparr>cells := cells s @ [neighidx],
                           global_to_local := (global_to_local s)(neighidx \<mapsto> nlocalcells s + nghostcells s),
                           nghostcells := Suc (nghostcells s)\<rparr>
                    else s);
              idx = lookup0 (neighbor_idx s1) owner;
              s2 = s1\<lparr>neighbor_idx := touch (neighbor_idx s1) owner\<rparr>
          in if idx < length (exchange_vec s2)
             then
               let v = exchange_vec s2 ! idx;
                   v1 = (if dest v = - 1 then v\<lparr>dest := owner\<rparr> else v);
                   v2 = v1\<lparr>recv := push_back_unique (recv v1) neighidx\<rparr>;
                   v3 = v2\<lparr>send := push_back_unique (send v2) (cells s2 ! i)\<rparr>
               in Inr (s2\<lparr>exchange_vec := (exchange_vec s2)[idx := v3]\<rparr>)
             else Inl OutOfBounds)"

text \<open>
  The pairs (index of a local cell, neighbour cell) in the order of the two nested loops.
  The loops only append to \<^verbatim>\<open>cells\<close>, so \<^verbatim>\<open>cells[i]\<close> for \<open>i < nlocalcells\<close> is the
  same before and during them.
\<close>

definition ghost_pairs :: "config \<Rightarrow> grid_state \<Rightarrow> (nat \<times> nat) list" where
  "ghost_pairs cfg s =
     concat (map (\<lambda>i. map (Pair i) (full_shell_neigh_without_center cfg (cells s ! i)))
                 [0..<nlocalcells s])"

text \<open>
  \<^verbatim>\<open>std::transform(..., glo_to_loc)\<close> over a vector: \<^verbatim>\<open>global_to_local.at(i)\<close> in a debug
  build, \<^verbatim>\<open>global_to_local[i]\<close> otherwise.
\<close>

fun translate :: "bool \<Rightarrow> nat list \<Rightarrow> (nat \<rightharpoonup> nat) \<Rightarrow> error + (nat list \<times> (nat \<rightharpoonup> nat))" where
  "translate dbg [] m = Inr ([], m)"
| "translate dbg (g # gs) m =
     (if dbg \<and> m g = None then Inl KeyMissing
      else (case translate dbg gs (touch m g) of
              Inl e \<Rightarrow> Inl e
            | Inr (ls, m') \<Rightarrow> Inr (lookup0 m g # ls, m')))"

text \<open>The body of the final loop over \<^verbatim>\<open>exchange_vec\<close>, for the descriptor at index \<open>k\<close>.\<close>

definition finalize_desc :: "config \<Rightarrow> nat \<Rightarrow> grid_state \<Rightarrow> error + grid_state" where
  "finalize_desc cfg k s =
     (let v = exchange_vec s ! k in
      if ensure_fatal cfg \<and> dest v = - 1 then Inl EnsureFailed
      else (case translate (grid_debug cfg) (sort (recv v)) (global_to_local s) of
              Inl e \<Rightarrow> Inl e
            | Inr (rs, m1) \<Rightarrow>
               (case translate (grid_debug cfg) (sort (send v)) m1 of
                  Inl e \<Rightarrow> Inl e
                | Inr (ss, m2) \<Rightarrow>
                    Inr (s\<lparr>global_to_local := m2,
                           exchange_vec := (exchange_vec s)[k := v\<lparr>recv := rs, send := ss\<rparr>]\<rparr>))))"

definition reinit :: "config \<Rightarrow> int \<Rightarrow> grid_state \<Rightarrow> error + grid_state" where
  "reinit cfg me s =
     (let s1 = fold (add_local_cell cfg) [0..<ncells cfg] (clear_decomposition s) in
      if ensure_fatal cfg \<and> \<not> 0 < nlocalcells s1 then Inl EnsureFailed
      else
        let s2 = s1\<lparr>exchange_vec := replicate (length (neighbor_ranks s1)) empty_desc\<rparr> in
        case foldE (ghost_step cfg me) (ghost_pairs cfg s2) s2 of
          Inl e \<Rightarrow> Inl e
        | Inr s3 \<Rightarrow>
            if ensure_fatal cfg \<and> \<not> (n_nodes cfg = 1 \<or> 0 < nghostcells s3) then Inl EnsureFailed
            else foldE (finalize_desc cfg) [0..<length (exchange_vec s3)] s3)"

subsection \<open>The resolver\<close>

text \<open>
  \<^verbatim>\<open>position_to_cell_index\<close>. Both checks exist in a debug build only. The lookup
  \<^verbatim>\<open>global_to_local[...]\<close> inserts a missing key, so the object is returned with the index.
\<close>

definition position_to_cell_index ::
    "config \<Rightarrow> int \<Rightarrow> grid_state \<Rightarrow> real vec3 \<Rightarrow> error + (nat \<times> grid_state)" where
  "position_to_cell_index cfg me s pos =
     (let i = lookup0 (global_to_local s) (cell_at_pos cfg pos);
          s' = s\<lparr>global_to_local := touch (global_to_local s) (cell_at_pos cfg pos)\<rparr>
      in if grid_debug cfg
         then (case position_to_rank cfg me s pos of
                 Inl e \<Rightarrow> Inl e
               | Inr r \<Rightarrow>
                   if r \<noteq> me then Inl NotInLocalBox
                   else if nlocalcells s \<le> i then Inl NotLocal
                   else Inr (i, s'))
         else Inr (i, s'))"

definition position_to_neighidx ::
    "config \<Rightarrow> int \<Rightarrow> grid_state \<Rightarrow> real vec3 \<Rightarrow> error + (nat \<times> grid_state)" where
  "position_to_neighidx cfg me s pos =
     (case position_to_rank cfg me s pos of
        Inl e \<Rightarrow> Inl e
      | Inr rank \<Rightarrow>
          Inr (lookup0 (neighbor_idx s) rank, s\<lparr>neighbor_idx := touch (neighbor_idx s) rank\<rparr>))"

subsection \<open>repartition\<close>

text \<open>What a rank brings to a call: the values of the metric \<^verbatim>\<open>m()\<close> and the positions of its particles.\<close>

record rank_input =
  weights :: "real list"
  particles :: "real vec3 list"

definition center_of_load :: "config \<Rightarrow> grid_state \<Rightarrow> real vec3 list \<Rightarrow> real vec3" where
  "center_of_load cfg s ps =
     (let pts = (if length ps = 0
                 then map (\<lambda>i. midpoint cfg (cells s ! i)) [0..<nlocalcells s]
                 else ps)
      in tab3 (\<lambda>d. sum_list (map (\<lambda>p. nth3 p d) pts) / real (length pts)))"

definition norm2 :: "real vec3 \<Rightarrow> real" where
  "norm2 v = sqrt (nth3 v 0 * nth3 v 0 + nth3 v 1 * nth3 v 1 + nth3 v 2 * nth3 v 2)"

definition dist2 :: "real vec3 \<Rightarrow> real vec3 \<Rightarrow> real" where
  "dist2 v w = norm2 (tab3 (\<lambda>d. nth3 v d - nth3 w d))"

text \<open>
  The body of the loop that forms \<open>u\<close> and then \<open>f\<close> for one neighbour: \<open>ri\<close> is the
  neighbour's centre of load, \<open>lh\<close> its normalised load.
\<close>

definition flow :: "grid_state \<Rightarrow> real \<Rightarrow> real vec3 \<Rightarrow> real vec3" where
  "flow s lh ri =
     (let u = tab3 (\<lambda>d. nth3 ri d - nth3 (gridpoint s) d);
          len = norm2 u
      in tab3 (\<lambda>d. (lh - 1) * nth3 u d / len))"

text \<open>
  \<^verbatim>\<open>new_c\<close>, from the loads \<open>lambda\<close> and the centres \<open>r\<close> that the two
  \<^verbatim>\<open>MPI_Neighbor_allgather\<close> calls delivered; \<^verbatim>\<open>nneigh\<close> is the indegree of \<^verbatim>\<open>neighcomm\<close>.
\<close>

definition new_corner :: "config \<Rightarrow> int \<Rightarrow> grid_state \<Rightarrow> real list \<Rightarrow> real vec3 list \<Rightarrow> real vec3" where
  "new_corner cfg me s lambda r =
     (let nneigh = length (comm_sources s);
          lnormalizer = sum_list lambda / real nneigh;
          lambda_hat = map (\<lambda>l. l / lnormalizer) lambda;
          f = map (\<lambda>i. flow s (lambda_hat ! i) (r ! i)) [0..<nneigh];
          coords = cart_coords (dims cfg) me
      in tab3 (\<lambda>d. if nth3 coords d = nth3 (dims cfg) d - 1 then nth3 (gridpoint s) d
                    else foldl (\<lambda>acc i. acc + mu s * nth3 (f ! i) d) (nth3 (gridpoint s) d) [0..<nneigh]))"

text \<open>
  \<^verbatim>\<open>MPI_Neighbor_allgather\<close> on a distributed graph communicator delivers to a rank the
  contribution of each of its sources, in the order of its source list.
\<close>

definition gathered_lambda :: "grid_state list \<Rightarrow> rank_input list \<Rightarrow> nat \<Rightarrow> real list" where
  "gathered_lambda ss ins r = map (\<lambda>q. sum_list (weights (ins ! nat q))) (comm_sources (ss ! r))"

definition gathered_r :: "config \<Rightarrow> grid_state list \<Rightarrow> rank_input list \<Rightarrow> nat \<Rightarrow> real vec3 list" where
  "gathered_r cfg ss ins r =
     map (\<lambda>q. center_of_load cfg (ss ! nat q) (particles (ins ! nat q))) (comm_sources (ss ! r))"

definition candidate_corner :: "config \<Rightarrow> grid_state list \<Rightarrow> rank_input list \<Rightarrow> nat \<Rightarrow> real vec3" where
  "candidate_corner cfg ss ins r =
     new_corner cfg (int r) (ss ! r) (gathered_lambda ss ins r) (gathered_r cfg ss ins r)"

text \<open>The result of \<^verbatim>\<open>all_gather(comm_cart, gridpoint, gridpoints)\<close> after \<^verbatim>\<open>gridpoint = new_c\<close>.\<close>

definition candidate_gridpoints :: "config \<Rightarrow> grid_state list \<Rightarrow> rank_input list \<Rightarrow> real vec3 list" where
  "candidate_gridpoints cfg ss ins = map (candidate_corner cfg ss ins) [0..<length ss]"

definition min_cell_size :: "config \<Rightarrow> real" where
  "min_cell_size cfg =
     min (min (nth3 (gbox_cell_size cfg) 0) (nth3 (gbox_cell_size cfg) 1)) (nth3 (gbox_cell_size cfg) 2)"

definition corner_pairs :: "nat \<Rightarrow> (nat \<times> nat) list" where
  "corner_pairs n = concat (map (\<lambda>i. map (Pair i) [Suc i..<n]) [0..<n])"

definition count_conflicts :: "config \<Rightarrow> real vec3 list \<Rightarrow> nat" where
  "count_conflicts cfg bb =
     length (filter (\<lambda>(i, j). dist2 (bb ! i) (bb ! j) < 2 * min_cell_size cfg) (corner_pairs (length bb)))"

text \<open>\<^verbatim>\<open>nconflicts\<close> after the \<^verbatim>\<open>MPI_Allreduce\<close> with \<^verbatim>\<open>MPI_SUM\<close>.\<close>

definition total_conflicts :: "config \<Rightarrow> real vec3 list \<Rightarrow> nat" where
  "total_conflicts cfg gps =
     sum_list (map (\<lambda>r. count_conflicts cfg (bounding_box cfg gps (int r))) [0..<length gps])"

text \<open>
  The statements of a rank around the check: the update of \<^verbatim>\<open>gridpoint\<close> and
  \<^verbatim>\<open>gridpoints\<close> (with \<^verbatim>\<open>old_gridpoints\<close> saved), and the two statements that undo it.
\<close>

definition update_gridpoints :: "real vec3 \<Rightarrow> real vec3 list \<Rightarrow> grid_state \<Rightarrow> grid_state" where
  "update_gridpoints new_c gathered s = s\<lparr>gridpoint := new_c, gridpoints := gathered\<rparr>"

definition restore_gridpoints :: "int \<Rightarrow> real vec3 list \<Rightarrow> grid_state \<Rightarrow> grid_state" where
  "restore_gridpoints me old_gridpoints s =
     (let s1 = s\<lparr>gridpoints := old_gridpoints\<rparr> in s1\<lparr>gridpoint := gridpoints s1 ! nat me\<rparr>)"

fun mapE :: "('a \<Rightarrow> error + 'b) \<Rightarrow> 'a list \<Rightarrow> error + 'b list" where
  "mapE f [] = Inr []"
| "mapE f (x # xs) =
     (case f x of Inl e \<Rightarrow> Inl e
      | Inr y \<Rightarrow> (case mapE f xs of Inl e \<Rightarrow> Inl e | Inr ys \<Rightarrow> Inr (y # ys)))"

text \<open>
  The tail of an accepted call on one rank. \<^verbatim>\<open>exchange_start_callback\<close> is the caller's
  and cannot reach the private members: it leaves the object as it is.
\<close>

definition accept_update :: "config \<Rightarrow> int \<Rightarrow> real vec3 list \<Rightarrow> grid_state \<Rightarrow> error + grid_state" where
  "accept_update cfg me gathered s =
     reinit cfg me (init_octagons cfg me gathered (s\<lparr>is_regular_grid := False\<rparr>))"

text \<open>
  One collective call of \<^verbatim>\<open>repartition\<close>: \<open>ss ! r\<close> is the object of rank \<open>r\<close> and
  \<open>ins ! r\<close> its input. The result is the common return value and the objects after
  the call, or the error that ends the job.
\<close>

definition repartition ::
    "config \<Rightarrow> grid_state list \<Rightarrow> rank_input list \<Rightarrow> error + (bool \<times> grid_state list)" where
  "repartition cfg ss ins =
     (let gathered = candidate_gridpoints cfg ss ins;
          updated = (\<lambda>r. update_gridpoints (candidate_corner cfg ss ins r) gathered (ss ! r));
          nconflicts = total_conflicts cfg gathered
      in if 0 < nconflicts
         then (if ensure_fatal cfg then Inl EnsureFailed
               else Inr (False, map (\<lambda>r. restore_gridpoints (int r) (gridpoints (ss ! r)) (updated r))
                                    [0..<length ss]))
         else (case mapE (\<lambda>r. accept_update cfg (int r) gathered (updated r)) [0..<length ss] of
                 Inl e \<Rightarrow> Inl e
               | Inr ss' \<Rightarrow> Inr (True, ss')))"

text \<open>
  The constructor on every rank: \<^verbatim>\<open>init_partitioning\<close> (whose \<^verbatim>\<open>init_octagons\<close> gathers
  the corners of all ranks) and \<^verbatim>\<open>reinit\<close>.
\<close>

definition construct :: "config \<Rightarrow> error + grid_state list" where
  "construct cfg =
     (let s1 = map (\<lambda>r. init_neighbors cfg (int r) (init_gridpoint cfg (int r) fresh_state))
                   [0..<n_nodes cfg];
          gps = map gridpoint s1
      in mapE (\<lambda>r. reinit cfg (int r) (init_octagons cfg (int r) gps (s1 ! r))) [0..<n_nodes cfg])"

subsection \<open>command\<close>

text \<open>
  The regular expressions of \<^verbatim>\<open>std::regex\<close> that \<^verbatim>\<open>command\<close> needs, and
  \<^verbatim>\<open>std::regex_match\<close> (the whole string is in the language) by derivatives.
  \<open>Space\<close> is \<^verbatim>\<open>\s\<close>, \<open>Digit\<close> is \<^verbatim>\<open>\d\<close> and \<open>AnyChar\<close> is the unescaped dot, which
  matches every character but a line terminator.
\<close>

datatype regex =
    Never | Empty | Chr char | Digit | Space | AnyChar
  | Seq regex regex | Alt regex regex | Star regex

definition Plus :: "regex \<Rightarrow> regex" where
  "Plus r = Seq r (Star r)"

definition is_digit :: "char \<Rightarrow> bool" where
  "is_digit c = (48 \<le> (of_char c :: nat) \<and> (of_char c :: nat) \<le> 57)"

definition is_space :: "char \<Rightarrow> bool" where
  "is_space c = ((of_char c :: nat) \<in> {9, 10, 11, 12, 13, 32})"

definition is_line_terminator :: "char \<Rightarrow> bool" where
  "is_line_terminator c = ((of_char c :: nat) \<in> {10, 13})"

fun nullable :: "regex \<Rightarrow> bool" where
  "nullable Never = False"
| "nullable Empty = True"
| "nullable (Chr a) = False"
| "nullable Digit = False"
| "nullable Space = False"
| "nullable AnyChar = False"
| "nullable (Seq r s) = (nullable r \<and> nullable s)"
| "nullable (Alt r s) = (nullable r \<or> nullable s)"
| "nullable (Star r) = True"

fun deriv :: "char \<Rightarrow> regex \<Rightarrow> regex" where
  "deriv c Never = Never"
| "deriv c Empty = Never"
| "deriv c (Chr a) = (if c = a then Empty else Never)"
| "deriv c Digit = (if is_digit c then Empty else Never)"
| "deriv c Space = (if is_space c then Empty else Never)"
| "deriv c AnyChar = (if is_line_terminator c then Never else Empty)"
| "deriv c (Seq r s) =
     (if nullable r then Alt (Seq (deriv c r) s) (deriv c s) else Seq (deriv c r) s)"
| "deriv c (Alt r s) = Alt (deriv c r) (deriv c s)"
| "deriv c (Star r) = Seq (deriv c r) (Star r)"

definition regex_match :: "regex \<Rightarrow> string \<Rightarrow> bool" where
  "regex_match r s = nullable (foldl (\<lambda>q c. deriv c q) r s)"

text \<open>
  The pattern of \<^verbatim>\<open>command\<close>, as the source writes it:
  \<^verbatim>\<open>\s*mu\s*=\s*(\d+\.|\.\d+|\d+.\d+)\<close>, split before its one group.
\<close>

definition mure_head :: regex where
  "mure_head =
     Seq (Star Space) (Seq (Chr CHR ''m'') (Seq (Chr CHR ''u'')
       (Seq (Star Space) (Seq (Chr CHR ''='') (Star Space)))))"

definition mure_group :: regex where
  "mure_group =
     Alt (Seq (Plus Digit) (Chr CHR ''.''))
       (Alt (Seq (Chr CHR ''.'') (Plus Digit))
            (Seq (Plus Digit) (Seq AnyChar (Plus Digit))))"

text \<open>
  \<^verbatim>\<open>std::regex_match(s, m, mure)\<close>: \<open>None\<close> when it is false, else \<^verbatim>\<open>m[1]\<close>. The last
  \<^verbatim>\<open>\s*\<close> before the group is greedy, so the longest head is tried first.
\<close>

definition match_mure :: "string \<Rightarrow> string option" where
  "match_mure s =
     map_option (\<lambda>k. drop k s)
       (find (\<lambda>k. regex_match mure_head (take k s) \<and> regex_match mure_group (drop k s))
             (rev [0..<Suc (length s)]))"

text \<open>
  \<^verbatim>\<open>strtod\<close> of the C library on the strings that the group lets through: decimal digits
  with an optional fraction, a decimal exponent after \<^verbatim>\<open>e\<close> or \<^verbatim>\<open>E\<close>, the hexadecimal
  form after \<^verbatim>\<open>0x\<close>; the conversion stops at the first character that fits none of these.
\<close>

definition digits_value :: "nat \<Rightarrow> string \<Rightarrow> nat" where
  "digits_value base ds = foldl (\<lambda>a c. base * a + ((of_char c :: nat) - 48)) 0 ds"

definition strtod :: "string \<Rightarrow> real" where
  "strtod s =
     (let ip = takeWhile is_digit s; rest = dropWhile is_digit s in
      case rest of
        [] \<Rightarrow> real (digits_value 10 ip)
      | c # after \<Rightarrow>
          let ds = takeWhile is_digit after in
          if c = CHR ''.'' then real (digits_value 10 ip) + real (digits_value 10 ds) / 10 ^ length ds
          else if (c = CHR ''e'' \<or> c = CHR ''E'') \<and> ip \<noteq> [] \<and> ds \<noteq> []
               then real (digits_value 10 ip) * 10 ^ digits_value 10 ds
          else if (c = CHR ''x'' \<or> c = CHR ''X'') \<and> ip = ''0'' \<and> ds \<noteq> []
               then real (digits_value 16 ds)
          else real (digits_value 10 ip))"

definition command :: "string \<Rightarrow> grid_state \<Rightarrow> grid_state" where
  "command s st = (case match_mure s of None \<Rightarrow> st | Some g \<Rightarrow> st\<lparr>mu := strtod g\<rparr>)"

text \<open>The group as the specification writes it: \<^verbatim>\<open>(\d+\.|\.\d+|\d+\.\d+)\<close>.\<close>

definition spec_group :: regex where
  "spec_group =
     Alt (Seq (Plus Digit) (Chr CHR ''.''))
       (Alt (Seq (Chr CHR ''.'') (Plus Digit))
            (Seq (Plus Digit) (Seq (Chr CHR ''.'') (Plus Digit))))"

definition spec_mure :: regex where
  "spec_mure = Seq mure_head spec_group"

subsection \<open>A concrete set of collaborators\<close>

text \<open>
  The index arithmetic of the repository's \<^verbatim>\<open>util::linearize\<close> and \<^verbatim>\<open>util::unlinearize\<close>.
\<close>

definition linearize :: "int vec3 \<Rightarrow> int vec3 \<Rightarrow> int" where
  "linearize c grid = (nth3 c 0 * nth3 grid 1 + nth3 c 1) * nth3 grid 2 + nth3 c 2"

definition unlinearize :: "int \<Rightarrow> int vec3 \<Rightarrow> int vec3" where
  "unlinearize cidx grid =
     ((cidx div nth3 grid 2) div nth3 grid 1, (cidx div nth3 grid 2) mod nth3 grid 1, cidx mod nth3 grid 2)"

text \<open>
  Modelled from the spec: the global cell box \<^verbatim>\<open>gbox\<close> (globox.hpp is not among the
  sources). A uniform grid of \<open>n\<close> cells of size \<open>cs\<close>: the midpoint of a cell is its
  centre, \<open>cell_at_pos\<close> is the floor-division of the wrapped position by the cell size,
  and the shell of a cell is its 26 periodic neighbours in a fixed order.
\<close>

definition box_midpoint :: "int vec3 \<Rightarrow> real vec3 \<Rightarrow> nat \<Rightarrow> real vec3" where
  "box_midpoint n cs g =
     tab3 (\<lambda>d. (real_of_int (nth3 (unlinearize (int g) n) d) + 1 / 2) * nth3 cs d)"

definition box_cell_at_pos :: "int vec3 \<Rightarrow> real vec3 \<Rightarrow> real vec3 \<Rightarrow> nat" where
  "box_cell_at_pos n cs p =
     nat (linearize (tab3 (\<lambda>d. \<lfloor>nth3 p d / nth3 cs d\<rfloor> mod nth3 n d)) n)"

definition box_full_shell :: "int vec3 \<Rightarrow> nat \<Rightarrow> nat list" where
  "box_full_shell n g =
     map (\<lambda>off. nat (linearize (tab3 (\<lambda>d. (nth3 (unlinearize (int g) n) d + nth3 off d) mod nth3 n d)) n))
         (filter (\<lambda>off. off \<noteq> (0, 0, 0)) neighbor_offsets)"

text \<open>
  Modelled from the spec: the octagon predicate of the tetra library, on corners that
  form an axis-aligned box ("contains agrees with the box"): a point is inside when on
  every axis it lies between the least and the greatest corner coordinate.
\<close>

definition box_contains :: "real vec3 list \<Rightarrow> real vec3 \<Rightarrow> bool" where
  "box_contains corners p =
     list_all (\<lambda>d. list_ex (\<lambda>c. nth3 c d \<le> nth3 p d) corners \<and>
                    list_ex (\<lambda>c. nth3 p d \<le> nth3 c d) corners) [0, 1, 2]"

text \<open>
  Modelled from the spec: the closed form of the regular process grid (grid.hpp is not
  among the sources): rank \<open>r\<close> owns the axis-aligned box of side \<open>L / dims\<close> at its
  Cartesian coordinates; \<open>my_right\<close> is the upper corner of that box.
\<close>

definition regular_owner :: "int vec3 \<Rightarrow> real vec3 \<Rightarrow> real vec3 \<Rightarrow> int" where
  "regular_owner ds L p =
     cart_rank ds (tab3 (\<lambda>d. \<lfloor>nth3 p d / (nth3 L d / real_of_int (nth3 ds d))\<rfloor>))"

definition regular_right :: "int vec3 \<Rightarrow> real vec3 \<Rightarrow> int \<Rightarrow> real vec3" where
  "regular_right ds L r =
     tab3 (\<lambda>d. real_of_int (nth3 (cart_coords ds r) d + 1) * (nth3 L d / real_of_int (nth3 ds d)))"

text \<open>
  The configuration of a box \<open>L\<close> of \<open>n\<close> cells on the process grid \<open>ds\<close>: \<open>dbg\<close> is the
  build (\<^verbatim>\<open>GRID_DEBUG\<close> or \<^verbatim>\<open>NDEBUG\<close>), \<open>sig\<close> tells whether SIGINT terminates the
  processes (its default disposition) or is handled, ignored or blocked.
\<close>

definition example_config :: "bool \<Rightarrow> bool \<Rightarrow> int vec3 \<Rightarrow> real vec3 \<Rightarrow> int vec3 \<Rightarrow> config" where
  "example_config dbg sig ds L n =
     (let cs = tab3 (\<lambda>d. nth3 L d / real_of_int (nth3 n d)) in
      \<lparr>grid_debug = dbg, sigint_terminates = sig, dims = ds, box_l = L, my_right = regular_right ds L,
       ncells = nat (nth3 n 0 * nth3 n 1 * nth3 n 2), midpoint = box_midpoint n cs,
       cell_at_pos = box_cell_at_pos n cs, full_shell_neigh_without_center = box_full_shell n,
       gbox_cell_size = cs, contains = box_contains, map_position_node_array = regular_owner ds L\<rparr>)"

section \<open>Properties of the loops of reinit\<close>

subsection \<open>Arrays, loops and untouched members\<close>

lemma nth3_tab3: "d < 3 \<Longrightarrow> nth3 (tab3 f) d = f d"
  by (cases "d = 0"; cases "d = 1"; cases "d = 2") (simp_all add: tab3_def)

lemma vec3_eqI: "(\<And>d. d < 3 \<Longrightarrow> nth3 v d = nth3 w d) \<Longrightarrow> v = w"
proof -
  assume h: "\<And>d. d < 3 \<Longrightarrow> nth3 v d = nth3 w d"
  obtain a b c where v: "v = (a, b, c)" by (cases v) auto
  obtain a' b' c' where w: "w = (a', b', c')" by (cases w) auto
  from h[of 0] h[of 1] h[of 2] show ?thesis by (simp add: v w)
qed

lemma foldE_invariant:
  assumes "foldE f xs s = Inr s'" and "P s"
    and "\<And>x t t'. x \<in> set xs \<Longrightarrow> P t \<Longrightarrow> f x t = Inr t' \<Longrightarrow> P t'"
  shows "P s'"
  using assms
proof (induction xs arbitrary: s)
  case Nil
  then show ?case by simp
next
  case (Cons x xs)
  from Cons.prems(1) obtain t where t: "f x s = Inr t" and r: "foldE f xs t = Inr s'"
    by (auto split: sum.splits)
  have "P t" using Cons.prems(2,3) t by auto
  then show ?case using Cons.IH[OF r] Cons.prems(3) by auto
qed

lemma fold_invariant:
  assumes "P s" and "\<And>x t. x \<in> set xs \<Longrightarrow> P t \<Longrightarrow> P (f x t)"
  shows "P (fold f xs s)"
  using assms by (induction xs arbitrary: s) auto

lemma mapE_Inr:
  "mapE f xs = Inr ys \<Longrightarrow> length ys = length xs \<and> (\<forall>i<length xs. f (xs ! i) = Inr (ys ! i))"
proof (induction xs arbitrary: ys)
  case Nil
  then show ?case by simp
next
  case (Cons x xs)
  from Cons.prems obtain y zs where y: "f x = Inr y" and zs: "mapE f xs = Inr zs" and ys: "ys = y # zs"
    by (auto split: sum.splits)
  from Cons.IH[OF zs] y ys show ?case by (auto simp: nth_Cons split: nat.splits)
qed

definition geometry :: "grid_state \<Rightarrow> _" where
  "geometry s = (mu s, is_regular_grid s, gridpoint s, gridpoints s, neighbor_ranks s,
     comm_sources s, comm_dests s, my_dom s, neighbor_doms s)"

lemma geometry_add_local_cell: "geometry (add_local_cell cfg i s) = geometry s"
  by (simp add: add_local_cell_def geometry_def)

lemma geometry_ghost_step: "ghost_step cfg me x s = Inr s' \<Longrightarrow> geometry s' = geometry s"
  by (cases x) (auto simp: ghost_step_def geometry_def Let_def split: sum.splits if_splits)

lemma geometry_finalize_desc: "finalize_desc cfg k s = Inr s' \<Longrightarrow> geometry s' = geometry s"
  by (auto simp: finalize_desc_def geometry_def Let_def split: sum.splits if_splits prod.splits)

lemma geometry_reinit:
  assumes "reinit cfg me s = Inr s'"
  shows "geometry s' = geometry s"
proof -
  define s1 where "s1 = fold (add_local_cell cfg) [0..<ncells cfg] (clear_decomposition s)"
  define s2 where "s2 = s1\<lparr>exchange_vec := replicate (length (neighbor_ranks s1)) empty_desc\<rparr>"
  have g1: "geometry s1 = geometry s"
    unfolding s1_def
    by (rule fold_invariant[where P = "\<lambda>t. geometry t = geometry s"])
       (simp_all add: geometry_add_local_cell, simp add: geometry_def clear_decomposition_def)
  have g2: "geometry s2 = geometry s" using g1 by (simp add: s2_def geometry_def)
  from assms obtain s3 where s3: "foldE (ghost_step cfg me) (ghost_pairs cfg s2) s2 = Inr s3"
    and fin: "foldE (finalize_desc cfg) [0..<length (exchange_vec s3)] s3 = Inr s'"
    unfolding reinit_def s1_def[symmetric] Let_def s2_def[symmetric]
    by (auto split: sum.splits if_splits)
  have g3: "geometry s3 = geometry s"
    by (rule foldE_invariant[OF s3, where P = "\<lambda>t. geometry t = geometry s"])
       (simp_all add: g2 geometry_ghost_step)
  show ?thesis
    by (rule foldE_invariant[OF fin, where P = "\<lambda>t. geometry t = geometry s"])
       (simp_all add: g3 geometry_finalize_desc)
qed


subsection \<open>phase 1\<close>

definition local_indexed :: "grid_state \<Rightarrow> bool" where
  "local_indexed s \<longleftrightarrow>
     length (cells s) = nlocalcells s + nghostcells s \<and>
     dom (global_to_local s) = set (cells s) \<and>
     (\<forall>i<length (cells s). global_to_local s (cells s ! i) = Some i)"

lemma my_dom_fold_add: "my_dom (fold (add_local_cell cfg) xs s) = my_dom s"
  by (induction xs arbitrary: s) (simp_all add: add_local_cell_def)

lemma fold_add_local_cells:
  "cells (fold (add_local_cell cfg) xs s) =
     cells s @ filter (\<lambda>i. contains cfg (my_dom s) (midpoint cfg i)) xs
   \<and> nlocalcells (fold (add_local_cell cfg) xs s) =
     nlocalcells s + length (filter (\<lambda>i. contains cfg (my_dom s) (midpoint cfg i)) xs)
   \<and> nghostcells (fold (add_local_cell cfg) xs s) = nghostcells s
   \<and> exchange_vec (fold (add_local_cell cfg) xs s) = exchange_vec s
   \<and> neighbor_idx (fold (add_local_cell cfg) xs s) = neighbor_idx s"
proof (induction xs arbitrary: s)
  case Nil
  then show ?case by simp
next
  case (Cons x xs)
  have md: "my_dom (add_local_cell cfg x s) = my_dom s" by (simp add: add_local_cell_def)
  show ?case using Cons.IH[of "add_local_cell cfg x s"] unfolding md
    by (simp add: add_local_cell_def)
qed

lemma add_local_cell_indexed:
  assumes "local_indexed s" "nghostcells s = 0" "i \<notin> set (cells s)"
  shows "local_indexed (add_local_cell cfg i s) \<and> nghostcells (add_local_cell cfg i s) = 0"
  using assms
  by (auto simp: local_indexed_def add_local_cell_def nth_append)

lemma fold_add_local_indexed:
  assumes "local_indexed s" "nghostcells s = 0" "distinct xs" "set xs \<inter> set (cells s) = {}"
  shows "local_indexed (fold (add_local_cell cfg) xs s)"
  using assms
proof (induction xs arbitrary: s)
  case Nil
  then show ?case by simp
next
  case (Cons x xs)
  have a: "local_indexed (add_local_cell cfg x s)" "nghostcells (add_local_cell cfg x s) = 0"
    using add_local_cell_indexed[of s x cfg] Cons.prems by auto
  have "set (cells (add_local_cell cfg x s)) \<subseteq> insert x (set (cells s))"
    by (auto simp: add_local_cell_def)
  then have b: "set xs \<inter> set (cells (add_local_cell cfg x s)) = {}"
    using Cons.prems by auto
  show ?case using Cons.IH[OF a _ b] Cons.prems by simp
qed


subsection \<open>phase 2\<close>

definition lists_known :: "grid_state \<Rightarrow> bool" where
  "lists_known s \<longleftrightarrow>
     (\<forall>k<length (exchange_vec s).
        set (recv (exchange_vec s ! k)) \<subseteq> dom (global_to_local s) \<and>
        set (send (exchange_vec s ! k)) \<subseteq> dom (global_to_local s))"

text \<open>The first half of the loop body: a neighbour cell not yet known becomes a ghost cell.\<close>

definition add_ghost :: "nat \<Rightarrow> grid_state \<Rightarrow> grid_state" where
  "add_ghost neighidx s =
     (if global_to_local s neighidx = None
      then s\<lparr>cells := cells s @ [neighidx],
             global_to_local := (global_to_local s)(neighidx \<mapsto> nlocalcells s + nghostcells s),
             nghostcells := Suc (nghostcells s)\<rparr>
      else s)"

lemma add_ghost_indexed:
  assumes "local_indexed s"
  shows "local_indexed (add_ghost g s)"
proof (cases "global_to_local s g = None")
  case True
  then have "g \<notin> set (cells s)" using assms by (auto simp: local_indexed_def)
  then show ?thesis using assms True
    by (auto simp: local_indexed_def add_ghost_def nth_append)
next
  case False
  then show ?thesis using assms by (auto simp: add_ghost_def)
qed

lemma add_ghost_facts:
  "nlocalcells (add_ghost g s) = nlocalcells s"
  "exchange_vec (add_ghost g s) = exchange_vec s"
  "neighbor_idx (add_ghost g s) = neighbor_idx s"
  "g \<in> dom (global_to_local (add_ghost g s))"
  "dom (global_to_local s) \<subseteq> dom (global_to_local (add_ghost g s))"
  "i < length (cells s) \<Longrightarrow> cells (add_ghost g s) ! i = cells s ! i"
  "length (cells s) \<le> length (cells (add_ghost g s))"
  "n \<le> length (cells s) \<Longrightarrow> take n (cells (add_ghost g s)) = take n (cells s)"
  by (auto simp: add_ghost_def nth_append)

text \<open>The second half: the cell pair is recorded in the descriptor of the owner.\<close>

definition link_exchange :: "int \<Rightarrow> nat \<Rightarrow> nat \<Rightarrow> grid_state \<Rightarrow> error + grid_state" where
  "link_exchange owner g i s1 =
     (let idx = lookup0 (neighbor_idx s1) owner in
      if idx < length (exchange_vec s1)
      then Inr (s1\<lparr>neighbor_idx := touch (neighbor_idx s1) owner,
                  exchange_vec := (exchange_vec s1)[idx :=
                     (exchange_vec s1 ! idx)\<lparr>
                        dest := (if dest (exchange_vec s1 ! idx) = - 1 then owner
                                 else dest (exchange_vec s1 ! idx)),
                        recv := push_back_unique (recv (exchange_vec s1 ! idx)) g,
                        send := push_back_unique (send (exchange_vec s1 ! idx)) (cells s1 ! i)\<rparr>]\<rparr>)
      else Inl OutOfBounds)"

lemma ghost_step_unfold:
  "ghost_step cfg me (i, g) s =
     (case gloidx_to_rank cfg me s g of
        Inl e \<Rightarrow> Inl e
      | Inr owner \<Rightarrow> if owner = me then Inr s else link_exchange owner g i (add_ghost g s))"
  by (auto simp: ghost_step_def add_ghost_def link_exchange_def Let_def split: sum.splits)

lemma ghost_step_inv:
  assumes st: "ghost_step cfg me (i, g) s = Inr s'"
    and li: "local_indexed s" and lk: "lists_known s" and i: "i < nlocalcells s"
  shows "local_indexed s' \<and> lists_known s' \<and> nlocalcells s' = nlocalcells s
         \<and> take (nlocalcells s) (cells s') = take (nlocalcells s) (cells s)
         \<and> length (exchange_vec s') = length (exchange_vec s)"
proof -
  from st obtain owner where ow: "gloidx_to_rank cfg me s g = Inr owner"
    by (auto simp: ghost_step_unfold split: sum.splits)
  show ?thesis
  proof (cases "owner = me")
    case True
    then have "s' = s" using st ow by (simp add: ghost_step_unfold)
    then show ?thesis using li lk by simp
  next
    case False
    define s1 where "s1 = add_ghost g s"
    define idx where "idx = lookup0 (neighbor_idx s1) owner"
    define v where "v = (exchange_vec s1 ! idx)\<lparr>
                                 dest := (if dest (exchange_vec s1 ! idx) = - 1 then owner
                                          else dest (exchange_vec s1 ! idx)),
                                 recv := push_back_unique (recv (exchange_vec s1 ! idx)) g,
                                 send := push_back_unique (send (exchange_vec s1 ! idx)) (cells s1 ! i)\<rparr>"
    from st ow False have idx: "idx < length (exchange_vec s1)"
      and s': "s' = s1\<lparr>neighbor_idx := touch (neighbor_idx s1) owner,
                       exchange_vec := (exchange_vec s1)[idx := v]\<rparr>"
      by (auto simp: ghost_step_unfold link_exchange_def Let_def s1_def idx_def v_def split: if_splits)
    have li1: "local_indexed s1" unfolding s1_def by (rule add_ghost_indexed[OF li])
    have ilen: "i < length (cells s)" using i li by (simp add: local_indexed_def)
    have ci: "cells s1 ! i = cells s ! i" unfolding s1_def using ilen by (simp add: add_ghost_facts)
    have "cells s ! i \<in> dom (global_to_local s)" using li ilen by (auto simp: local_indexed_def)
    then have ci_dom: "cells s1 ! i \<in> dom (global_to_local s1)"
      using add_ghost_facts(5)[of s g] ci s1_def by auto
    have g_dom: "g \<in> dom (global_to_local s1)" unfolding s1_def by (rule add_ghost_facts)
    have lk1: "lists_known s1"
      using lk add_ghost_facts(5)[of s g] unfolding lists_known_def s1_def add_ghost_facts(2)
      by blast
    have vk: "set (recv v) \<subseteq> dom (global_to_local s1) \<and> set (send v) \<subseteq> dom (global_to_local s1)"
      using lk1 idx g_dom ci_dom unfolding lists_known_def v_def push_back_unique_def
      by auto
    have A: "local_indexed s'" using li1 by (simp add: s' local_indexed_def)
    have B: "lists_known s'"
      using lk1 vk idx unfolding lists_known_def s'
      by (auto simp: nth_list_update)
    have C: "nlocalcells s' = nlocalcells s" by (simp add: s' s1_def add_ghost_facts)
    have "nlocalcells s \<le> length (cells s)" using li by (simp add: local_indexed_def)
    then have D: "take (nlocalcells s) (cells s') = take (nlocalcells s) (cells s)"
      by (simp add: s' s1_def add_ghost_facts)
    have E: "length (exchange_vec s') = length (exchange_vec s)"
      by (simp add: s' s1_def add_ghost_facts)
    show ?thesis using A B C D E by simp
  qed
qed


lemma ghost_fold_inv:
  assumes "foldE (ghost_step cfg me) ps s = Inr s'"
    and "local_indexed s" "lists_known s" "\<forall>p\<in>set ps. fst p < nlocalcells s"
  shows "local_indexed s' \<and> lists_known s' \<and> nlocalcells s' = nlocalcells s
         \<and> take (nlocalcells s) (cells s') = take (nlocalcells s) (cells s)
         \<and> length (exchange_vec s') = length (exchange_vec s)"
  using assms
proof (induction ps arbitrary: s)
  case Nil
  then show ?case by simp
next
  case (Cons p ps)
  obtain i g where p: "p = (i, g)" by (cases p)
  from Cons.prems(1) obtain t where t: "ghost_step cfg me (i, g) s = Inr t"
    and r: "foldE (ghost_step cfg me) ps t = Inr s'"
    by (auto simp: p split: sum.splits)
  have i: "i < nlocalcells s" using Cons.prems(4) p by simp
  note st = ghost_step_inv[OF t Cons.prems(2,3) i]
  have "\<forall>q\<in>set ps. fst q < nlocalcells t" using Cons.prems(4) st by simp
  from Cons.IH[OF r _ _ this] st show ?case by simp
qed

subsection \<open>phase 3\<close>

lemma touch_known: "g \<in> dom m \<Longrightarrow> touch m g = m"
  by (auto simp: touch_def lookup0_def fun_eq_iff)

lemma translate_known:
  "set gs \<subseteq> dom m \<Longrightarrow> translate dbg gs m = Inr (map (lookup0 m) gs, m)"
proof (induction gs)
  case Nil
  then show ?case by simp
next
  case (Cons g gs)
  then have g: "g \<in> dom m" and gs: "set gs \<subseteq> dom m" by auto
  from g have "m g \<noteq> None" by auto
  then show ?case using Cons.IH[OF gs] touch_known[OF g] by simp
qed

text \<open>A descriptor after the final loop: both lists sorted, then translated.\<close>

definition localized :: "(nat \<rightharpoonup> nat) \<Rightarrow> GhostExchangeDesc \<Rightarrow> GhostExchangeDesc" where
  "localized m v = v\<lparr>recv := map (lookup0 m) (sort (recv v)), send := map (lookup0 m) (sort (send v))\<rparr>"

lemma finalize_desc_known:
  assumes "set (recv (exchange_vec s ! k)) \<subseteq> dom (global_to_local s)"
    and "set (send (exchange_vec s ! k)) \<subseteq> dom (global_to_local s)"
  shows "finalize_desc cfg k s =
     (if ensure_fatal cfg \<and> dest (exchange_vec s ! k) = - 1 then Inl EnsureFailed
      else Inr (s\<lparr>exchange_vec := (exchange_vec s)[k := localized (global_to_local s) (exchange_vec s ! k)]\<rparr>))"
proof -
  have r: "translate (grid_debug cfg) (sort (recv (exchange_vec s ! k))) (global_to_local s)
        = Inr (map (lookup0 (global_to_local s)) (sort (recv (exchange_vec s ! k))), global_to_local s)"
    by (rule translate_known) (simp add: assms)
  have sd: "translate (grid_debug cfg) (sort (send (exchange_vec s ! k))) (global_to_local s)
        = Inr (map (lookup0 (global_to_local s)) (sort (send (exchange_vec s ! k))), global_to_local s)"
    by (rule translate_known) (simp add: assms)
  show ?thesis
    by (simp add: finalize_desc_def Let_def r sd localized_def)
qed

lemma finalize_fold:
  assumes "foldE (finalize_desc cfg) ks s = Inr s'"
    and "distinct ks" and "\<forall>k\<in>set ks. k < length (exchange_vec s)"
    and "\<forall>k\<in>set ks. set (recv (exchange_vec s ! k)) \<subseteq> dom (global_to_local s)
                    \<and> set (send (exchange_vec s ! k)) \<subseteq> dom (global_to_local s)"
  shows "cells s' = cells s \<and> global_to_local s' = global_to_local s
       \<and> nlocalcells s' = nlocalcells s \<and> nghostcells s' = nghostcells s
       \<and> neighbor_idx s' = neighbor_idx s
       \<and> length (exchange_vec s') = length (exchange_vec s)
       \<and> (\<forall>k<length (exchange_vec s). exchange_vec s' ! k =
             (if k \<in> set ks then localized (global_to_local s) (exchange_vec s ! k)
              else exchange_vec s ! k))
       \<and> (ensure_fatal cfg \<longrightarrow> (\<forall>k\<in>set ks. dest (exchange_vec s ! k) \<noteq> - 1))"
  using assms
proof (induction ks arbitrary: s)
  case Nil
  then show ?case by simp
next
  case (Cons k ks)
  define t where "t = s\<lparr>exchange_vec := (exchange_vec s)[k := localized (global_to_local s) (exchange_vec s ! k)]\<rparr>"
  have kn: "set (recv (exchange_vec s ! k)) \<subseteq> dom (global_to_local s)"
           "set (send (exchange_vec s ! k)) \<subseteq> dom (global_to_local s)"
    using Cons.prems(4) by auto
  from Cons.prems(1) have ok: "\<not> (ensure_fatal cfg \<and> dest (exchange_vec s ! k) = - 1)"
    and r: "foldE (finalize_desc cfg) ks t = Inr s'"
    by (auto simp: finalize_desc_known[OF kn] t_def split: if_splits)
  have k: "k \<notin> set ks" "k < length (exchange_vec s)" using Cons.prems(2,3) by auto
  have same: "\<forall>j\<in>set ks. exchange_vec t ! j = exchange_vec s ! j"
    using k by (auto simp: t_def nth_list_update)
  have p3: "\<forall>j\<in>set ks. j < length (exchange_vec t)" using Cons.prems(3) by (simp add: t_def)
  have p4: "\<forall>j\<in>set ks. set (recv (exchange_vec t ! j)) \<subseteq> dom (global_to_local t)
                    \<and> set (send (exchange_vec t ! j)) \<subseteq> dom (global_to_local t)"
    using Cons.prems(4) same by (simp add: t_def)
  have d: "distinct ks" using Cons.prems(2) by simp
  note ih = Cons.IH[OF r d p3 p4]
  have fr: "cells t = cells s" "global_to_local t = global_to_local s" "nlocalcells t = nlocalcells s"
      "nghostcells t = nghostcells s" "neighbor_idx t = neighbor_idx s"
      "length (exchange_vec t) = length (exchange_vec s)"
    by (simp_all add: t_def)
  have ev: "\<forall>j<length (exchange_vec s). exchange_vec s' ! j =
             (if j \<in> set (k # ks) then localized (global_to_local s) (exchange_vec s ! j)
              else exchange_vec s ! j)"
  proof (intro allI impI)
    fix j assume j: "j < length (exchange_vec s)"
    then have "exchange_vec s' ! j =
        (if j \<in> set ks then localized (global_to_local t) (exchange_vec t ! j) else exchange_vec t ! j)"
      using ih fr by simp
    then show "exchange_vec s' ! j =
             (if j \<in> set (k # ks) then localized (global_to_local s) (exchange_vec s ! j)
              else exchange_vec s ! j)"
      using k j same by (cases "j = k") (auto simp: t_def)
  qed
  have dst: "ensure_fatal cfg \<longrightarrow> (\<forall>j\<in>set (k # ks). dest (exchange_vec s ! j) \<noteq> - 1)"
    using ih ok same by auto
  show ?case using ih fr ev dst by simp
qed


subsection \<open>reinit as a whole\<close>

lemma reinit_phases:
  assumes "reinit cfg me s = Inr s'"
  obtains s3 where
    "local_indexed s3" "lists_known s3"
    "cells s' = cells s3" "global_to_local s' = global_to_local s3"
    "nlocalcells s' = nlocalcells s3" "nghostcells s' = nghostcells s3"
    "take (nlocalcells s') (cells s') = filter (\<lambda>i. contains cfg (my_dom s) (midpoint cfg i)) [0..<ncells cfg]"
    "nlocalcells s' = length (filter (\<lambda>i. contains cfg (my_dom s) (midpoint cfg i)) [0..<ncells cfg])"
    "length (exchange_vec s3) = length (neighbor_ranks s)"
    "exchange_vec s' = map (localized (global_to_local s3)) (exchange_vec s3)"
    "ensure_fatal cfg \<longrightarrow> 0 < nlocalcells s' \<and> (n_nodes cfg = 1 \<or> 0 < nghostcells s')
        \<and> (\<forall>v\<in>set (exchange_vec s'). dest v \<noteq> - 1)"
proof -
  define c where "c = clear_decomposition s"
  define s1 where "s1 = fold (add_local_cell cfg) [0..<ncells cfg] c"
  define s2 where "s2 = s1\<lparr>exchange_vec := replicate (length (neighbor_ranks s1)) empty_desc\<rparr>"
  define L where "L = filter (\<lambda>i. contains cfg (my_dom s) (midpoint cfg i)) [0..<ncells cfg]"
  have c: "cells c = []" "nlocalcells c = 0" "nghostcells c = 0" "my_dom c = my_dom s"
    "global_to_local c = Map.empty" "neighbor_ranks c = neighbor_ranks s"
    by (simp_all add: c_def clear_decomposition_def)
  have lic: "local_indexed c" by (simp add: local_indexed_def c)
  note f1 = fold_add_local_cells[of cfg "[0..<ncells cfg]" c, folded s1_def, unfolded c]
  have cells1: "cells s1 = L" and n1: "nlocalcells s1 = length L" and g1: "nghostcells s1 = 0"
    using f1 by (simp_all add: L_def)
  have li1: "local_indexed s1"
    unfolding s1_def by (rule fold_add_local_indexed[OF lic]) (simp_all add: c)
  have nr1: "neighbor_ranks s1 = neighbor_ranks s"
    using geometry_add_local_cell fold_invariant[where P = "\<lambda>t. neighbor_ranks t = neighbor_ranks s"
        and f = "add_local_cell cfg" and xs = "[0..<ncells cfg]" and s = c]
    by (simp add: s1_def c add_local_cell_def)
  have li2: "local_indexed s2" using li1 by (simp add: s2_def local_indexed_def)
  have lk2: "lists_known s2" by (simp add: s2_def lists_known_def empty_desc_def)
  from assms obtain s3 where dbg1: "\<not> (ensure_fatal cfg \<and> \<not> 0 < nlocalcells s1)"
    and s3: "foldE (ghost_step cfg me) (ghost_pairs cfg s2) s2 = Inr s3"
    and dbg2: "\<not> (ensure_fatal cfg \<and> \<not> (n_nodes cfg = 1 \<or> 0 < nghostcells s3))"
    and fin: "foldE (finalize_desc cfg) [0..<length (exchange_vec s3)] s3 = Inr s'"
    unfolding reinit_def c_def[symmetric] s1_def[symmetric] Let_def s2_def[symmetric]
    by (auto split: sum.splits if_splits)
  have pr: "\<forall>p\<in>set (ghost_pairs cfg s2). fst p < nlocalcells s2"
    by (auto simp: ghost_pairs_def)
  note i3 = ghost_fold_inv[OF s3 li2 lk2 pr]
  have n3: "nlocalcells s3 = length L" using i3 n1 by (simp add: s2_def)
  have t3: "take (length L) (cells s3) = L" using i3 n1 cells1 by (simp add: s2_def)
  have l3: "length (exchange_vec s3) = length (neighbor_ranks s)"
    using i3 nr1 by (simp add: s2_def)
  have k3: "\<forall>k\<in>set [0..<length (exchange_vec s3)].
             set (recv (exchange_vec s3 ! k)) \<subseteq> dom (global_to_local s3)
           \<and> set (send (exchange_vec s3 ! k)) \<subseteq> dom (global_to_local s3)"
    using i3 by (simp add: lists_known_def)
  have "\<forall>k\<in>set [0..<length (exchange_vec s3)]. k < length (exchange_vec s3)" by simp
  note f = finalize_fold[OF fin distinct_upt this k3]
  have ev: "exchange_vec s' = map (localized (global_to_local s3)) (exchange_vec s3)"
    using f by (auto intro!: nth_equalityI)
  have dst: "ensure_fatal cfg \<longrightarrow> (\<forall>v\<in>set (exchange_vec s'). dest v \<noteq> - 1)"
    using f unfolding ev by (auto simp: localized_def in_set_conv_nth)
  show ?thesis
  proof (rule that[of s3])
    show "local_indexed s3" "lists_known s3" using i3 by simp_all
    show "cells s' = cells s3" "global_to_local s' = global_to_local s3"
         "nlocalcells s' = nlocalcells s3" "nghostcells s' = nghostcells s3" using f by simp_all
    show "take (nlocalcells s') (cells s') = filter (\<lambda>i. contains cfg (my_dom s) (midpoint cfg i)) [0..<ncells cfg]"
      using f t3 n3 by (simp add: L_def)
    show "nlocalcells s' = length (filter (\<lambda>i. contains cfg (my_dom s) (midpoint cfg i)) [0..<ncells cfg])"
      using f n3 by (simp add: L_def)
    show "length (exchange_vec s3) = length (neighbor_ranks s)" by (rule l3)
    show "exchange_vec s' = map (localized (global_to_local s3)) (exchange_vec s3)" by (rule ev)
    show "ensure_fatal cfg \<longrightarrow> 0 < nlocalcells s' \<and> (n_nodes cfg = 1 \<or> 0 < nghostcells s')
        \<and> (\<forall>v\<in>set (exchange_vec s'). dest v \<noteq> - 1)"
      using dbg1 dbg2 dst f n1 n3 by auto
  qed
qed


subsection \<open>reinit does not depend on the previous decomposition\<close>

text \<open>
  Two objects that differ only in keys that \<^verbatim>\<open>neighbor_idx[...]\<close> has inserted with the
  value 0: every lookup gives the same index in both.
\<close>

definition same_lookup :: "grid_state \<Rightarrow> grid_state \<Rightarrow> bool" where
  "same_lookup s t \<longleftrightarrow>
     t = s\<lparr>neighbor_idx := neighbor_idx t\<rparr> \<and>
     (\<forall>k. lookup0 (neighbor_idx t) k = lookup0 (neighbor_idx s) k)"

lemma same_lookupI:
  "t = s\<lparr>neighbor_idx := m\<rparr> \<Longrightarrow> (\<And>k. lookup0 m k = lookup0 (neighbor_idx s) k) \<Longrightarrow> same_lookup s t"
  by (simp add: same_lookup_def)

lemma same_lookupE:
  assumes "same_lookup s t"
  obtains m where "t = s\<lparr>neighbor_idx := m\<rparr>" "\<And>k. lookup0 m k = lookup0 (neighbor_idx s) k"
  using assms unfolding same_lookup_def by blast

lemma lookup0_touch: "lookup0 (touch m k) j = lookup0 m j"
  by (simp add: touch_def lookup0_def)

lemma same_lookup_refl: "same_lookup s s"
  by (simp add: same_lookup_def)

lemma same_lookup_add_local_cell:
  assumes "same_lookup s t"
  shows "same_lookup (add_local_cell cfg i s) (add_local_cell cfg i t)"
proof -
  from assms obtain m where t: "t = s\<lparr>neighbor_idx := m\<rparr>"
    and m: "\<And>k. lookup0 m k = lookup0 (neighbor_idx s) k" by (auto elim: same_lookupE)
  show ?thesis
    by (rule same_lookupI[where m = m]) (simp_all add: t m add_local_cell_def)
qed

lemma same_lookup_fold_add:
  "same_lookup s t \<Longrightarrow> same_lookup (fold (add_local_cell cfg) xs s) (fold (add_local_cell cfg) xs t)"
  by (induction xs arbitrary: s t) (simp_all add: same_lookup_add_local_cell)

lemma position_to_rank_neighbor_idx:
  "position_to_rank cfg me (s\<lparr>neighbor_idx := m\<rparr>) pos = position_to_rank cfg me s pos"
  by (simp add: position_to_rank_def Let_def split: option.splits)

lemma same_lookup_link_exchange:
  assumes "same_lookup a b"
  shows "rel_sum (=) same_lookup (link_exchange owner g i a) (link_exchange owner g i b)"
proof -
  from assms obtain m where b: "b = a\<lparr>neighbor_idx := m\<rparr>"
    and m: "\<And>k. lookup0 m k = lookup0 (neighbor_idx a) k" by (auto elim: same_lookupE)
  have "\<And>E. same_lookup (a\<lparr>neighbor_idx := touch (neighbor_idx a) owner, exchange_vec := E\<rparr>)
                        (a\<lparr>neighbor_idx := touch m owner, exchange_vec := E\<rparr>)"
    by (rule same_lookupI[where m = "touch m owner"]) (simp_all add: lookup0_touch m)
  then show ?thesis
    by (simp add: link_exchange_def b m Let_def)
qed

lemma same_lookup_add_ghost:
  assumes "same_lookup s t"
  shows "same_lookup (add_ghost g s) (add_ghost g t)"
proof -
  from assms obtain m where t: "t = s\<lparr>neighbor_idx := m\<rparr>"
    and m: "\<And>k. lookup0 m k = lookup0 (neighbor_idx s) k" by (auto elim: same_lookupE)
  show ?thesis
    by (rule same_lookupI[where m = m]) (simp_all add: t m add_ghost_def)
qed

lemma same_lookup_ghost_step:
  assumes "same_lookup s t"
  shows "rel_sum (=) same_lookup (ghost_step cfg me p s) (ghost_step cfg me p t)"
proof -
  obtain i g where p: "p = (i, g)" by (cases p)
  from assms obtain m where t: "t = s\<lparr>neighbor_idx := m\<rparr>" by (auto elim: same_lookupE)
  have owner_eq: "gloidx_to_rank cfg me t g = gloidx_to_rank cfg me s g"
    by (simp add: gloidx_to_rank_def t position_to_rank_neighbor_idx)
  show ?thesis
    unfolding p ghost_step_unfold owner_eq
    using assms same_lookup_link_exchange[OF same_lookup_add_ghost[OF assms]]
    by (cases "gloidx_to_rank cfg me s g") auto
qed

lemma same_lookup_foldE:
  assumes "\<And>x s t. same_lookup s t \<Longrightarrow> rel_sum (=) same_lookup (f x s) (f x t)"
    and "same_lookup s t"
  shows "rel_sum (=) same_lookup (foldE f xs s) (foldE f xs t)"
  using assms(2)
proof (induction xs arbitrary: s t)
  case Nil
  then show ?case by simp
next
  case (Cons x xs)
  from assms(1)[OF Cons.prems, of x] show ?case
    by (cases "f x s"; cases "f x t") (auto intro: Cons.IH)
qed

lemma same_lookup_finalize_desc:
  assumes "same_lookup s t"
  shows "rel_sum (=) same_lookup (finalize_desc cfg k s) (finalize_desc cfg k t)"
proof -
  from assms obtain m where t: "t = s\<lparr>neighbor_idx := m\<rparr>"
    and m: "\<And>k. lookup0 m k = lookup0 (neighbor_idx s) k" by (auto elim: same_lookupE)
  have "\<And>u. same_lookup u (u\<lparr>neighbor_idx := m\<rparr>) \<longleftrightarrow> (\<forall>k. lookup0 m k = lookup0 (neighbor_idx u) k)"
    by (simp add: same_lookup_def)
  then show ?thesis
    unfolding t finalize_desc_def
    by (auto simp: Let_def m split: sum.splits prod.splits intro!: same_lookupI[where m = m])
qed

lemma same_lookup_reinit:
  assumes "same_lookup s t"
  shows "rel_sum (=) same_lookup (reinit cfg me s) (reinit cfg me t)"
proof -
  define s1 where "s1 = fold (add_local_cell cfg) [0..<ncells cfg] (clear_decomposition s)"
  define t1 where "t1 = fold (add_local_cell cfg) [0..<ncells cfg] (clear_decomposition t)"
  define s2 where "s2 = s1\<lparr>exchange_vec := replicate (length (neighbor_ranks s1)) empty_desc\<rparr>"
  define t2 where "t2 = t1\<lparr>exchange_vec := replicate (length (neighbor_ranks t1)) empty_desc\<rparr>"
  from assms obtain m where t: "t = s\<lparr>neighbor_idx := m\<rparr>"
    and m: "\<And>k. lookup0 m k = lookup0 (neighbor_idx s) k" by (auto elim: same_lookupE)
  have "same_lookup (clear_decomposition s) (clear_decomposition t)"
    by (rule same_lookupI[where m = m]) (simp_all add: t m clear_decomposition_def)
  then have r1: "same_lookup s1 t1" unfolding s1_def t1_def by (rule same_lookup_fold_add)
  then obtain m1 where t1: "t1 = s1\<lparr>neighbor_idx := m1\<rparr>"
    and m1: "\<And>k. lookup0 m1 k = lookup0 (neighbor_idx s1) k" by (auto elim: same_lookupE)
  have r2: "same_lookup s2 t2"
    by (rule same_lookupI[where m = m1]) (simp_all add: s2_def t2_def t1 m1)
  have eq: "nlocalcells t1 = nlocalcells s1" "ghost_pairs cfg t2 = ghost_pairs cfg s2"
    by (simp_all add: t1 t2_def s2_def ghost_pairs_def)
  have r3: "rel_sum (=) same_lookup (foldE (ghost_step cfg me) (ghost_pairs cfg s2) s2)
                                   (foldE (ghost_step cfg me) (ghost_pairs cfg s2) t2)"
    by (rule same_lookup_foldE[OF same_lookup_ghost_step r2])
  show ?thesis
  proof (cases "foldE (ghost_step cfg me) (ghost_pairs cfg s2) s2")
    case (Inl e)
    then show ?thesis using r3 eq
      unfolding reinit_def s1_def[symmetric] t1_def[symmetric] Let_def s2_def[symmetric] t2_def[symmetric]
      by (cases "foldE (ghost_step cfg me) (ghost_pairs cfg s2) t2") auto
  next
    case (Inr s3)
    with r3 obtain t3 where t3: "foldE (ghost_step cfg me) (ghost_pairs cfg s2) t2 = Inr t3"
      and r: "same_lookup s3 t3"
      by (cases "foldE (ghost_step cfg me) (ghost_pairs cfg s2) t2") auto
    have e3: "nghostcells t3 = nghostcells s3" "exchange_vec t3 = exchange_vec s3"
      using r by (auto elim!: same_lookupE)
    have "rel_sum (=) same_lookup (foldE (finalize_desc cfg) [0..<length (exchange_vec s3)] s3)
                                   (foldE (finalize_desc cfg) [0..<length (exchange_vec s3)] t3)"
      by (rule same_lookup_foldE[OF same_lookup_finalize_desc r])
    then show ?thesis using Inr t3 eq e3
      unfolding reinit_def s1_def[symmetric] t1_def[symmetric] Let_def s2_def[symmetric] t2_def[symmetric]
      by auto
  qed
qed

lemma reinit_clear: "reinit cfg me (clear_decomposition s) = reinit cfg me s"
  by (simp add: reinit_def clear_decomposition_def)

lemma reinit_lookup0:
  assumes "reinit cfg me s = Inr s'"
  shows "lookup0 (neighbor_idx s') k = lookup0 (neighbor_idx s) k"
proof -
  define s1 where "s1 = fold (add_local_cell cfg) [0..<ncells cfg] (clear_decomposition s)"
  define s2 where "s2 = s1\<lparr>exchange_vec := replicate (length (neighbor_ranks s1)) empty_desc\<rparr>"
  let ?P = "\<lambda>t. \<forall>j. lookup0 (neighbor_idx t) j = lookup0 (neighbor_idx s) j"
  have "neighbor_idx s1 = neighbor_idx s"
    using fold_add_local_cells[of cfg "[0..<ncells cfg]" "clear_decomposition s"]
    by (simp add: s1_def clear_decomposition_def)
  then have p2: "?P s2" by (simp add: s2_def)
  from assms obtain s3 where s3: "foldE (ghost_step cfg me) (ghost_pairs cfg s2) s2 = Inr s3"
    and fin: "foldE (finalize_desc cfg) [0..<length (exchange_vec s3)] s3 = Inr s'"
    unfolding reinit_def s1_def[symmetric] Let_def s2_def[symmetric]
    by (auto split: sum.splits if_splits)
  have p3: "?P s3"
  proof (rule foldE_invariant[OF s3, where P = ?P])
    show "?P s2" by (rule p2)
  next
    fix x t t' assume "?P t" "ghost_step cfg me x t = Inr t'"
    then show "?P t'"
      by (cases x) (auto simp: ghost_step_unfold link_exchange_def Let_def add_ghost_facts lookup0_touch
                         split: sum.splits if_splits)
  qed
  have "?P s'"
  proof (rule foldE_invariant[OF fin, where P = ?P])
    show "?P s3" by (rule p3)
  next
    fix x t t' assume "?P t" "finalize_desc cfg x t = Inr t'"
    then show "?P t'"
      by (auto simp: finalize_desc_def Let_def split: sum.splits if_splits prod.splits)
  qed
  then show ?thesis by simp
qed

lemma reinit_twice:
  assumes "reinit cfg me s = Inr s1"
  shows "\<exists>m. reinit cfg me s1 = Inr (s1\<lparr>neighbor_idx := m\<rparr>)"
proof -
  note g = geometry_reinit[OF assms, unfolded geometry_def]
  have "clear_decomposition s1 = (clear_decomposition s)\<lparr>neighbor_idx := neighbor_idx s1\<rparr>"
    using g by (intro grid_state.equality) (simp_all add: clear_decomposition_def)
  then have "same_lookup (clear_decomposition s) (clear_decomposition s1)"
    using reinit_lookup0[OF assms]
    by (intro same_lookupI[where m = "neighbor_idx s1"]) (simp_all add: clear_decomposition_def)
  from same_lookup_reinit[OF this, of cfg me] assms
  show ?thesis
    unfolding reinit_clear by (cases "reinit cfg me s1") (auto elim!: same_lookupE)
qed

subsection \<open>The constructor\<close>

lemma mapE_cong: "(\<And>x. x \<in> set xs \<Longrightarrow> f x = g x) \<Longrightarrow> mapE f xs = mapE g xs"
proof (induction xs)
  case Nil
  then show ?case by simp
next
  case (Cons a xs)
  then have "f a = g a" "mapE f xs = mapE g xs" by simp_all
  then show ?case by (simp split: sum.splits)
qed

lemma gridpoint_init_neighbors: "gridpoint (init_neighbors cfg me s) = gridpoint s"
  by (simp add: init_neighbors_def Let_def)

text \<open>The corners that the \<^verbatim>\<open>all_gather\<close> of the constructor delivers.\<close>

definition initial_gridpoints :: "config \<Rightarrow> real vec3 list" where
  "initial_gridpoints cfg =
     map (\<lambda>q. gridpoint (init_gridpoint cfg (int q) fresh_state)) [0..<n_nodes cfg]"

lemma construct_unfold:
  "construct cfg =
     mapE (\<lambda>r. reinit cfg (int r)
                 (init_octagons cfg (int r) (initial_gridpoints cfg)
                    (init_neighbors cfg (int r) (init_gridpoint cfg (int r) fresh_state))))
          [0..<n_nodes cfg]"
  unfolding construct_def Let_def initial_gridpoints_def
  by (rule mapE_cong) (simp add: gridpoint_init_neighbors comp_def)

lemma construct_rank:
  assumes "construct cfg = Inr ss"
  shows "length ss = n_nodes cfg"
    and "r < n_nodes cfg \<Longrightarrow>
         reinit cfg (int r)
           (init_octagons cfg (int r) (initial_gridpoints cfg)
              (init_neighbors cfg (int r) (init_gridpoint cfg (int r) fresh_state))) = Inr (ss ! r)"
  using mapE_Inr[OF assms[unfolded construct_unfold]] by simp_all

lemma construct_geometry:
  assumes "construct cfg = Inr ss" "r < n_nodes cfg"
  shows "gridpoint (ss ! r) = gridpoint (init_gridpoint cfg (int r) fresh_state)"
    and "gridpoints (ss ! r) = initial_gridpoints cfg"
    and "is_regular_grid (ss ! r)"
    and "my_dom (ss ! r) = bounding_box cfg (initial_gridpoints cfg) (int r)"
    and "mu (ss ! r) = 1"
  using geometry_reinit[OF construct_rank(2)[OF assms]]
  by (simp_all add: geometry_def init_octagons_def gridpoint_init_neighbors init_neighbors_def
        init_gridpoint_def fresh_state_def Let_def)


section \<open>An example: two ranks along the first axis\<close>

text \<open>
  A box of size \<open>4 \<times> 2 \<times> 2\<close> with \<open>4 \<times> 1 \<times> 1\<close> cells of size \<open>1 \<times> 2 \<times> 2\<close>, on a
  \<open>2 \<times> 1 \<times> 1\<close> process grid: rank 0 owns the cells 0 and 1, rank 1 the cells 2 and 3.
\<close>

definition exA :: "bool \<Rightarrow> bool \<Rightarrow> config" where
  "exA dbg sig = example_config dbg sig (2, 1, 1) (4, 2, 2) (4, 1, 1)"

lemma exA_simps:
  "grid_debug (exA dbg sig) = dbg" "dims (exA dbg sig) = (2, 1, 1)" "box_l (exA dbg sig) = (4, 2, 2)"
  "ncells (exA dbg sig) = 4" "gbox_cell_size (exA dbg sig) = (1, 2, 2)"
  "my_right (exA dbg sig) = regular_right (2, 1, 1) (4, 2, 2)"
  "midpoint (exA dbg sig) = box_midpoint (4, 1, 1) (1, 2, 2)"
  "cell_at_pos (exA dbg sig) = box_cell_at_pos (4, 1, 1) (1, 2, 2)"
  "full_shell_neigh_without_center (exA dbg sig) = box_full_shell (4, 1, 1)"
  "contains (exA dbg sig) = box_contains"
  "map_position_node_array (exA dbg sig) = regular_owner (2, 1, 1) (4, 2, 2)"
  "sigint_terminates (exA dbg sig) = sig" "ensure_fatal (exA dbg sig) \<longleftrightarrow> dbg \<and> sig"
  by (simp_all add: exA_def example_config_def ensure_fatal_def tab3_def Let_def)

text \<open>The objects of the two ranks when the constructor calls \<^verbatim>\<open>reinit\<close>, and when it returns.\<close>

definition exA_pre0 :: grid_state where
  "exA_pre0 =
     \<lparr>mu = 1, is_regular_grid = True, gridpoint = (1999999 / 1000000, 2, 2),
      gridpoints = [(1999999 / 1000000, 2, 2), (4, 2, 2)],
      neighbor_ranks = [1], neighbor_idx = [1 \<mapsto> 0], comm_sources = [1, 0], comm_dests = [1, 0],
      my_dom = [(1999999 / 1000000, 2, 2), (1999999 / 1000000, 2, 0), (1999999 / 1000000, 0, 2),
                (1999999 / 1000000, 0, 0), (0, 2, 2), (0, 2, 0), (0, 0, 2), (0, 0, 0)],
      neighbor_doms = [[(4, 2, 2), (4, 2, 0), (4, 0, 2), (4, 0, 0), (1999999 / 1000000, 2, 2),
                        (1999999 / 1000000, 2, 0), (1999999 / 1000000, 0, 2), (1999999 / 1000000, 0, 0)]],
      nlocalcells = 0, nghostcells = 0, cells = [], global_to_local = Map.empty, exchange_vec = []\<rparr>"

definition exA_pre1 :: grid_state where
  "exA_pre1 =
     \<lparr>mu = 1, is_regular_grid = True, gridpoint = (4, 2, 2),
      gridpoints = [(1999999 / 1000000, 2, 2), (4, 2, 2)],
      neighbor_ranks = [0], neighbor_idx = [0 \<mapsto> 0], comm_sources = [0, 1], comm_dests = [0, 1],
      my_dom = [(4, 2, 2), (4, 2, 0), (4, 0, 2), (4, 0, 0), (1999999 / 1000000, 2, 2),
                (1999999 / 1000000, 2, 0), (1999999 / 1000000, 0, 2), (1999999 / 1000000, 0, 0)],
      neighbor_doms = [[(1999999 / 1000000, 2, 2), (1999999 / 1000000, 2, 0), (1999999 / 1000000, 0, 2),
                        (1999999 / 1000000, 0, 0), (0, 2, 2), (0, 2, 0), (0, 0, 2), (0, 0, 0)]],
      nlocalcells = 0, nghostcells = 0, cells = [], global_to_local = Map.empty, exchange_vec = []\<rparr>"

definition exA_st0 :: grid_state where
  "exA_st0 = exA_pre0\<lparr>nlocalcells := 2, nghostcells := 2, cells := [0, 1, 3, 2],
     global_to_local := [0 \<mapsto> 0, 1 \<mapsto> 1, 3 \<mapsto> 2, 2 \<mapsto> 3],
     exchange_vec := [\<lparr>dest = 1, recv = [3, 2], send = [0, 1]\<rparr>]\<rparr>"

definition exA_st1 :: grid_state where
  "exA_st1 = exA_pre1\<lparr>nlocalcells := 2, nghostcells := 2, cells := [2, 3, 1, 0],
     global_to_local := [2 \<mapsto> 0, 3 \<mapsto> 1, 1 \<mapsto> 2, 0 \<mapsto> 3],
     exchange_vec := [\<lparr>dest = 0, recv = [3, 2], send = [0, 1]\<rparr>]\<rparr>"

lemma touch_present: "m k \<noteq> None \<Longrightarrow> touch m k = m"
  by (auto simp: touch_def lookup0_def fun_eq_iff)

lemma touch_absent: "m k = None \<Longrightarrow> touch m k = m(k \<mapsto> 0)"
  by (simp add: touch_def lookup0_def)

lemmas init_eval = init_octagons_def init_neighbors_def neighbor_offsets_def neigh_step_def
  neigh_loop_start_def offset_rank_def cart_coords_def cart_rank_def tab3_def push_back_unique_def
  fresh_state_def init_gridpoint_def regular_right_def bounding_box_def corner_offsets_def Let_def

lemma upt_0_4: "[0..<4] = [0, 1, 2, 3]"
  by (simp add: upt_conv_Cons eval_nat_numeral)

lemma upt_0_2: "[0..<2] = [0, 1]"
  by (simp add: upt_conv_Cons eval_nat_numeral)

lemmas local_eval = clear_decomposition_def add_local_cell_def box_contains_def box_midpoint_def
  unlinearize_def tab3_def upt_0_4 upt_0_2

lemmas pairs_eval = ghost_pairs_def box_full_shell_def neighbor_offsets_def unlinearize_def
  linearize_def tab3_def upt_0_2 upt_0_4

lemmas step_eval = ghost_step_def gloidx_to_rank_def position_to_rank_def box_midpoint_def
  unlinearize_def tab3_def regular_owner_def box_cell_at_pos_def linearize_def cart_rank_def
  lookup0_def touch_present touch_absent push_back_unique_def empty_desc_def Let_def

lemmas final_eval = finalize_desc_def lookup0_def touch_present touch_absent Let_def upt_conv_Cons
  sort_key_simps insort_key.simps

lemma exA_nodes: "n_nodes (exA dbg sig) = 2"
  by (simp add: n_nodes_def exA_simps)

lemma exA_initial_gridpoints:
  "initial_gridpoints (exA dbg sig) = [(1999999 / 1000000, 2, 2), (4, 2, 2)]"
  by (simp add: initial_gridpoints_def exA_nodes exA_simps init_eval upt_0_2)

lemma exA_pre_rank0:
  "init_octagons (exA dbg sig) 0 (initial_gridpoints (exA dbg sig))
     (init_neighbors (exA dbg sig) 0 (init_gridpoint (exA dbg sig) 0 fresh_state)) = exA_pre0"
  unfolding exA_initial_gridpoints by (simp add: exA_pre0_def exA_simps init_eval)

lemma exA_pre_rank1:
  "init_octagons (exA dbg sig) 1 (initial_gridpoints (exA dbg sig))
     (init_neighbors (exA dbg sig) 1 (init_gridpoint (exA dbg sig) 1 fresh_state)) = exA_pre1"
  unfolding exA_initial_gridpoints by (simp add: exA_pre1_def exA_simps init_eval)

lemma reinit_exA_rank0: "reinit (exA dbg sig) 0 exA_pre0 = Inr exA_st0"
proof -
  let ?s1 = "exA_pre0\<lparr>nlocalcells := 2, cells := [0, 1], global_to_local := [0 \<mapsto> 0, 1 \<mapsto> 1]\<rparr>"
  let ?s2 = "?s1\<lparr>exchange_vec := [empty_desc]\<rparr>"
  let ?ps = "[(0, 3), (0, 3), (0, 3), (0, 3), (0, 3), (0, 3), (0, 3), (0, 3), (0, 3),
              (0, 0), (0, 0), (0, 0), (0, 0), (0, 0), (0, 0), (0, 0), (0, 0),
              (0, 1), (0, 1), (0, 1), (0, 1), (0, 1), (0, 1), (0, 1), (0, 1), (0, 1),
              (1, 0), (1, 0), (1, 0), (1, 0), (1, 0), (1, 0), (1, 0), (1, 0), (1, 0),
              (1, 1), (1, 1), (1, 1), (1, 1), (1, 1), (1, 1), (1, 1), (1, 1),
              (1, 2), (1, 2), (1, 2), (1, 2), (1, 2), (1, 2), (1, 2), (1, 2), (1::nat, 2::nat)]"
  let ?s3 = "exA_pre0\<lparr>nlocalcells := 2, nghostcells := 2, cells := [0, 1, 3, 2],
     global_to_local := [0 \<mapsto> 0, 1 \<mapsto> 1, 3 \<mapsto> 2, 2 \<mapsto> 3],
     exchange_vec := [\<lparr>dest = 1, recv = [3, 2], send = [0, 1]\<rparr>]\<rparr>"
  have p1: "fold (add_local_cell (exA dbg sig)) [0..<ncells (exA dbg sig)] (clear_decomposition exA_pre0) = ?s1"
    by (simp add: exA_pre0_def exA_simps local_eval)
  have p2: "?s1\<lparr>exchange_vec := replicate (length (neighbor_ranks ?s1)) empty_desc\<rparr> = ?s2"
    by (simp add: exA_pre0_def)
  have p3: "ghost_pairs (exA dbg sig) ?s2 = ?ps"
    by (simp add: exA_pre0_def exA_simps pairs_eval)
  have p4: "foldE (ghost_step (exA dbg sig) 0) ?ps ?s2 = Inr ?s3"
    by (simp add: exA_pre0_def exA_simps step_eval)
  have p5: "foldE (finalize_desc (exA dbg sig)) [0..<length (exchange_vec ?s3)] ?s3 = Inr exA_st0"
    by (simp add: exA_pre0_def exA_st0_def exA_simps final_eval)
  show ?thesis
    unfolding reinit_def Let_def p1 p2 p3 p4 sum.case p5 by simp
qed

lemma reinit_exA_rank1: "reinit (exA dbg sig) 1 exA_pre1 = Inr exA_st1"
proof -
  let ?s1 = "exA_pre1\<lparr>nlocalcells := 2, cells := [2, 3], global_to_local := [2 \<mapsto> 0, 3 \<mapsto> 1]\<rparr>"
  let ?s2 = "?s1\<lparr>exchange_vec := [empty_desc]\<rparr>"
  let ?ps = "[(0, 1), (0, 1), (0, 1), (0, 1), (0, 1), (0, 1), (0, 1), (0, 1), (0, 1),
              (0, 2), (0, 2), (0, 2), (0, 2), (0, 2), (0, 2), (0, 2), (0, 2),
              (0, 3), (0, 3), (0, 3), (0, 3), (0, 3), (0, 3), (0, 3), (0, 3), (0, 3),
              (1, 2), (1, 2), (1, 2), (1, 2), (1, 2), (1, 2), (1, 2), (1, 2), (1, 2),
              (1, 3), (1, 3), (1, 3), (1, 3), (1, 3), (1, 3), (1, 3), (1, 3),
              (1, 0), (1, 0), (1, 0), (1, 0), (1, 0), (1, 0), (1, 0), (1, 0), (1::nat, 0::nat)]"
  let ?s3 = "exA_pre1\<lparr>nlocalcells := 2, nghostcells := 2, cells := [2, 3, 1, 0],
     global_to_local := [2 \<mapsto> 0, 3 \<mapsto> 1, 1 \<mapsto> 2, 0 \<mapsto> 3],
     exchange_vec := [\<lparr>dest = 0, recv = [1, 0], send = [2, 3]\<rparr>]\<rparr>"
  have p1: "fold (add_local_cell (exA dbg sig)) [0..<ncells (exA dbg sig)] (clear_decomposition exA_pre1) = ?s1"
    by (simp add: exA_pre1_def exA_simps local_eval)
  have p2: "?s1\<lparr>exchange_vec := replicate (length (neighbor_ranks ?s1)) empty_desc\<rparr> = ?s2"
    by (simp add: exA_pre1_def)
  have p3: "ghost_pairs (exA dbg sig) ?s2 = ?ps"
    by (simp add: exA_pre1_def exA_simps pairs_eval)
  have p4: "foldE (ghost_step (exA dbg sig) 1) ?ps ?s2 = Inr ?s3"
    by (simp add: exA_pre1_def exA_simps step_eval)
  have p5: "foldE (finalize_desc (exA dbg sig)) [0..<length (exchange_vec ?s3)] ?s3 = Inr exA_st1"
    by (simp add: exA_pre1_def exA_st1_def exA_simps final_eval)
  show ?thesis
    unfolding reinit_def Let_def p1 p2 p3 p4 sum.case p5 by (simp add: n_nodes_def exA_simps)
qed

lemma construct_exA: "construct (exA dbg sig) = Inr [exA_st0, exA_st1]"
  unfolding construct_unfold exA_nodes
  by (simp add: upt_0_2 exA_pre_rank0 exA_pre_rank1 reinit_exA_rank0 reinit_exA_rank1)


lemma local_indexed_bij:
  assumes "local_indexed s"
  shows "bij_betw (\<lambda>g. the (global_to_local s g)) (set (cells s)) {0..<nlocalcells s + nghostcells s}"
proof (rule bij_betw_byWitness[where f' = "\<lambda>i. cells s ! i"])
  show "\<forall>a\<in>set (cells s). cells s ! the (global_to_local s a) = a"
    using assms by (auto simp: local_indexed_def in_set_conv_nth)
  show "\<forall>a'\<in>{0..<nlocalcells s + nghostcells s}. the (global_to_local s (cells s ! a')) = a'"
    using assms by (auto simp: local_indexed_def)
  show "(\<lambda>g. the (global_to_local s g)) ` set (cells s) \<subseteq> {0..<nlocalcells s + nghostcells s}"
    using assms by (auto simp: local_indexed_def in_set_conv_nth)
  show "(\<lambda>i. cells s ! i) ` {0..<nlocalcells s + nghostcells s} \<subseteq> set (cells s)"
    using assms by (auto simp: local_indexed_def)
qed

lemma reinit_decomposition:
  assumes "reinit cfg me s = Inr s'"
  shows "local_indexed s'"
    and "take (nlocalcells s') (cells s') =
           filter (\<lambda>g. contains cfg (my_dom s') (midpoint cfg g)) [0..<ncells cfg]"
    and "ensure_fatal cfg \<Longrightarrow> 0 < nlocalcells s'"
proof -
  have md: "my_dom s' = my_dom s" using geometry_reinit[OF assms] by (simp add: geometry_def)
  from assms obtain s3 where s3: "local_indexed s3" "cells s' = cells s3"
      "global_to_local s' = global_to_local s3" "nlocalcells s' = nlocalcells s3"
      "nghostcells s' = nghostcells s3"
      "take (nlocalcells s') (cells s') = filter (\<lambda>i. contains cfg (my_dom s) (midpoint cfg i)) [0..<ncells cfg]"
      "ensure_fatal cfg \<longrightarrow> 0 < nlocalcells s' \<and> (n_nodes cfg = 1 \<or> 0 < nghostcells s')
        \<and> (\<forall>v\<in>set (exchange_vec s'). dest v \<noteq> - 1)"
    by (rule reinit_phases)
  show "local_indexed s'" using s3 by (simp add: local_indexed_def)
  show "take (nlocalcells s') (cells s') =
           filter (\<lambda>g. contains cfg (my_dom s') (midpoint cfg g)) [0..<ncells cfg]"
    using s3 md by simp
  show "ensure_fatal cfg \<Longrightarrow> 0 < nlocalcells s'" using s3 by simp
qed

subsection \<open>An accepted call of repartition\<close>

lemma repartition_accepted:
  assumes "repartition cfg ss0 ins = Inr (True, ss)"
  shows "total_conflicts cfg (candidate_gridpoints cfg ss0 ins) = 0"
    and "length ss = length ss0"
    and "r < length ss0 \<Longrightarrow>
           accept_update cfg (int r) (candidate_gridpoints cfg ss0 ins)
             (update_gridpoints (candidate_corner cfg ss0 ins r) (candidate_gridpoints cfg ss0 ins) (ss0 ! r))
           = Inr (ss ! r)"
proof -
  let ?G = "candidate_gridpoints cfg ss0 ins"
  let ?f = "\<lambda>r. accept_update cfg (int r) ?G (update_gridpoints (candidate_corner cfg ss0 ins r) ?G (ss0 ! r))"
  from assms have z: "\<not> 0 < total_conflicts cfg ?G" and m: "mapE ?f [0..<length ss0] = Inr ss"
    by (auto simp: repartition_def Let_def split: if_splits sum.splits)
  show "total_conflicts cfg ?G = 0" using z by simp
  show "length ss = length ss0" using mapE_Inr[OF m] by simp
  show "r < length ss0 \<Longrightarrow> ?f r = Inr (ss ! r)" using mapE_Inr[OF m] by simp
qed

section \<open>An example: a box of two cells of size \<open>1e-6\<close>\<close>

text \<open>
  A box of size \<open>2e-6 \<times> 1 \<times> 1\<close> with \<open>2 \<times> 1 \<times> 1\<close> cells on a \<open>2 \<times> 1 \<times> 1\<close> process grid.
  The corner of rank 0 is lowered from \<open>1e-6\<close> to 0: its octagon holds no cell midpoint.
\<close>

definition exT :: "bool \<Rightarrow> bool \<Rightarrow> config" where
  "exT dbg sig = example_config dbg sig (2, 1, 1) (2 / 1000000, 1, 1) (2, 1, 1)"

lemma exT_simps:
  "grid_debug (exT dbg sig) = dbg" "dims (exT dbg sig) = (2, 1, 1)" "box_l (exT dbg sig) = (2 / 1000000, 1, 1)"
  "ncells (exT dbg sig) = 2" "gbox_cell_size (exT dbg sig) = (1 / 1000000, 1, 1)"
  "my_right (exT dbg sig) = regular_right (2, 1, 1) (2 / 1000000, 1, 1)"
  "midpoint (exT dbg sig) = box_midpoint (2, 1, 1) (1 / 1000000, 1, 1)"
  "cell_at_pos (exT dbg sig) = box_cell_at_pos (2, 1, 1) (1 / 1000000, 1, 1)"
  "full_shell_neigh_without_center (exT dbg sig) = box_full_shell (2, 1, 1)"
  "contains (exT dbg sig) = box_contains"
  "map_position_node_array (exT dbg sig) = regular_owner (2, 1, 1) (2 / 1000000, 1, 1)"
  "sigint_terminates (exT dbg sig) = sig"
  by (simp_all add: exT_def example_config_def tab3_def Let_def)

lemma exT_fatal: "ensure_fatal (exT dbg sig) \<longleftrightarrow> dbg \<and> sig"
  by (simp add: ensure_fatal_def exT_simps)

definition exT_pre0 :: grid_state where
  "exT_pre0 =
     \<lparr>mu = 1, is_regular_grid = True, gridpoint = (0, 1, 1),
      gridpoints = [(0, 1, 1), (2 / 1000000, 1, 1)],
      neighbor_ranks = [1], neighbor_idx = [1 \<mapsto> 0], comm_sources = [1, 0], comm_dests = [1, 0],
      my_dom = [(0, 1, 1), (0, 1, 0), (0, 0, 1), (0, 0, 0), (0, 1, 1), (0, 1, 0), (0, 0, 1), (0, 0, 0)],
      neighbor_doms = [[(2 / 1000000, 1, 1), (2 / 1000000, 1, 0), (2 / 1000000, 0, 1),
                        (2 / 1000000, 0, 0), (0, 1, 1), (0, 1, 0), (0, 0, 1), (0, 0, 0)]],
      nlocalcells = 0, nghostcells = 0, cells = [], global_to_local = Map.empty, exchange_vec = []\<rparr>"

definition exT_pre1 :: grid_state where
  "exT_pre1 =
     \<lparr>mu = 1, is_regular_grid = True, gridpoint = (2 / 1000000, 1, 1),
      gridpoints = [(0, 1, 1), (2 / 1000000, 1, 1)],
      neighbor_ranks = [0], neighbor_idx = [0 \<mapsto> 0], comm_sources = [0, 1], comm_dests = [0, 1],
      my_dom = [(2 / 1000000, 1, 1), (2 / 1000000, 1, 0), (2 / 1000000, 0, 1),
                (2 / 1000000, 0, 0), (0, 1, 1), (0, 1, 0), (0, 0, 1), (0, 0, 0)],
      neighbor_doms = [[(0, 1, 1), (0, 1, 0), (0, 0, 1), (0, 0, 0), (0, 1, 1), (0, 1, 0),
                        (0, 0, 1), (0, 0, 0)]],
      nlocalcells = 0, nghostcells = 0, cells = [], global_to_local = Map.empty, exchange_vec = []\<rparr>"

definition exT_st0 :: grid_state where
  "exT_st0 = exT_pre0\<lparr>exchange_vec := [\<lparr>dest = - 1, recv = [], send = []\<rparr>]\<rparr>"

definition exT_st1 :: grid_state where
  "exT_st1 = exT_pre1\<lparr>nlocalcells := 2, cells := [0, 1], global_to_local := [0 \<mapsto> 0, 1 \<mapsto> 1],
     exchange_vec := [\<lparr>dest = 0, recv = [0], send = [0, 1]\<rparr>]\<rparr>"

lemma exT_nodes: "n_nodes (exT dbg sig) = 2"
  by (simp add: n_nodes_def exT_simps)

lemma exT_initial_gridpoints: "initial_gridpoints (exT dbg sig) = [(0, 1, 1), (2 / 1000000, 1, 1)]"
  by (simp add: initial_gridpoints_def exT_nodes exT_simps init_eval upt_0_2)

lemma exT_pre_rank0:
  "init_octagons (exT dbg sig) 0 (initial_gridpoints (exT dbg sig))
     (init_neighbors (exT dbg sig) 0 (init_gridpoint (exT dbg sig) 0 fresh_state)) = exT_pre0"
  unfolding exT_initial_gridpoints by (simp add: exT_pre0_def exT_simps init_eval)

lemma exT_pre_rank1:
  "init_octagons (exT dbg sig) 1 (initial_gridpoints (exT dbg sig))
     (init_neighbors (exT dbg sig) 1 (init_gridpoint (exT dbg sig) 1 fresh_state)) = exT_pre1"
  unfolding exT_initial_gridpoints by (simp add: exT_pre1_def exT_simps init_eval)

lemma exT_rank0_no_local_cell:
  "fold (add_local_cell (exT dbg sig)) [0..<ncells (exT dbg sig)] (clear_decomposition exT_pre0) = exT_pre0"
  by (simp add: exT_pre0_def exT_simps local_eval)

text \<open>
  Where no failed \<^verbatim>\<open>ENSURE\<close> ends the job (a build with \<^verbatim>\<open>NDEBUG\<close>, or SIGINT handled),
  \<^verbatim>\<open>reinit\<close> returns on both ranks, although three conditions of \<^verbatim>\<open>ENSURE\<close> are false:
  rank 0 has no local cell and a descriptor without destination, rank 1 has no ghost cell.
\<close>

lemma reinit_exT_rank0:
  assumes "\<not> ensure_fatal (exT dbg sig)"
  shows "reinit (exT dbg sig) 0 exT_pre0 = Inr exT_st0"
proof -
  let ?s2 = "exT_pre0\<lparr>exchange_vec := [empty_desc]\<rparr>"
  have p2: "exT_pre0\<lparr>exchange_vec := replicate (length (neighbor_ranks exT_pre0)) empty_desc\<rparr> = ?s2"
    by (simp add: exT_pre0_def)
  have p3: "ghost_pairs (exT dbg sig) ?s2 = []"
    by (simp add: exT_pre0_def ghost_pairs_def)
  have p5: "foldE (finalize_desc (exT dbg sig)) [0..<length (exchange_vec ?s2)] ?s2 = Inr exT_st0"
    by (simp add: exT_pre0_def exT_st0_def exT_simps final_eval empty_desc_def assms)
  show ?thesis
    unfolding reinit_def Let_def exT_rank0_no_local_cell p2 p3 foldE.simps sum.case p5
    by (simp add: exT_simps assms)
qed

lemma reinit_exT_rank0_debug: "reinit (exT True True) 0 exT_pre0 = Inl EnsureFailed"
  unfolding reinit_def Let_def exT_rank0_no_local_cell
  by (simp add: exT_simps exT_fatal exT_pre0_def)

lemma reinit_exT_rank1:
  assumes "\<not> ensure_fatal (exT dbg sig)"
  shows "reinit (exT dbg sig) 1 exT_pre1 = Inr exT_st1"
proof -
  let ?s1 = "exT_pre1\<lparr>nlocalcells := 2, cells := [0, 1], global_to_local := [0 \<mapsto> 0, 1 \<mapsto> 1]\<rparr>"
  let ?s2 = "?s1\<lparr>exchange_vec := [empty_desc]\<rparr>"
  let ?ps = "[(0, 1), (0, 1), (0, 1), (0, 1), (0, 1), (0, 1), (0, 1), (0, 1), (0, 1),
              (0, 0), (0, 0), (0, 0), (0, 0), (0, 0), (0, 0), (0, 0), (0, 0),
              (0, 1), (0, 1), (0, 1), (0, 1), (0, 1), (0, 1), (0, 1), (0, 1), (0, 1),
              (1, 0), (1, 0), (1, 0), (1, 0), (1, 0), (1, 0), (1, 0), (1, 0), (1, 0),
              (1, 1), (1, 1), (1, 1), (1, 1), (1, 1), (1, 1), (1, 1), (1, 1),
              (1, 0), (1, 0), (1, 0), (1, 0), (1, 0), (1, 0), (1, 0), (1, 0), (1::nat, 0::nat)]"
  let ?s3 = "exT_pre1\<lparr>nlocalcells := 2, cells := [0, 1], global_to_local := [0 \<mapsto> 0, 1 \<mapsto> 1],
     exchange_vec := [\<lparr>dest = 0, recv = [0], send = [0, 1]\<rparr>]\<rparr>"
  have p1: "fold (add_local_cell (exT dbg sig)) [0..<ncells (exT dbg sig)] (clear_decomposition exT_pre1) = ?s1"
    by (simp add: exT_pre1_def exT_simps local_eval)
  have p2: "?s1\<lparr>exchange_vec := replicate (length (neighbor_ranks ?s1)) empty_desc\<rparr> = ?s2"
    by (simp add: exT_pre1_def)
  have p3: "ghost_pairs (exT dbg sig) ?s2 = ?ps"
    by (simp add: exT_pre1_def exT_simps pairs_eval)
  have p4: "foldE (ghost_step (exT dbg sig) 1) ?ps ?s2 = Inr ?s3"
    by (simp add: exT_pre1_def exT_simps step_eval)
  have p5: "foldE (finalize_desc (exT dbg sig)) [0..<length (exchange_vec ?s3)] ?s3 = Inr exT_st1"
    by (simp add: exT_pre1_def exT_st1_def exT_simps final_eval)
  show ?thesis
    unfolding reinit_def Let_def p1 p2 p3 p4 sum.case p5 by (simp add: exT_simps assms)
qed

lemma construct_exT:
  assumes "\<not> (dbg \<and> sig)"
  shows "construct (exT dbg sig) = Inr [exT_st0, exT_st1]"
proof -
  have nf: "\<not> ensure_fatal (exT dbg sig)" using assms by (simp add: exT_fatal)
  show ?thesis
    unfolding construct_unfold exT_nodes
    by (simp add: upt_0_2 exT_pre_rank0 exT_pre_rank1 reinit_exT_rank0[OF nf] reinit_exT_rank1[OF nf])
qed

lemma construct_exT_debug: "construct (exT True True) = Inl EnsureFailed"
  unfolding construct_unfold exT_nodes
  by (simp add: upt_0_2 exT_pre_rank0 exT_pre_rank1 reinit_exT_rank0_debug)

section \<open>The loop of init_neighbors\<close>

definition upper_offset :: "int vec3 \<Rightarrow> bool" where
  "upper_offset off \<longleftrightarrow> 0 \<le> nth3 off 0 \<and> 0 \<le> nth3 off 1 \<and> 0 \<le> nth3 off 2"

definition lower_offset :: "int vec3 \<Rightarrow> bool" where
  "lower_offset off \<longleftrightarrow> nth3 off 0 \<le> 0 \<and> nth3 off 1 \<le> 0 \<and> nth3 off 2 \<le> 0"

definition neigh_loop_inv :: "int \<Rightarrow> neigh_loop \<Rightarrow> bool" where
  "neigh_loop_inv me l \<longleftrightarrow>
     nneigh l = length (nl_ranks l) \<and> distinct (nl_ranks l) \<and>
     dom (nl_idx l) = set (nl_ranks l) \<and>
     (\<forall>i<length (nl_ranks l). nl_idx l (nl_ranks l ! i) = Some i) \<and>
     me \<notin> set (nl_ranks l) \<and>
     distinct (source_neigh l) \<and> me \<notin> set (source_neigh l) \<and>
     distinct (dest_neigh l) \<and> me \<notin> set (dest_neigh l)"

lemma neigh_step_inv:
  assumes "neigh_loop_inv me l"
  shows "neigh_loop_inv me (neigh_step cfg me off l)"
proof (cases "offset_rank cfg me off = me")
  case True
  then show ?thesis using assms by (simp add: neigh_step_def)
next
  case False
  define r where "r = offset_rank cfg me off"
  define l1 where "l1 = (if nl_idx l r = None
                  then l\<lparr>nl_ranks := nl_ranks l @ [r], nl_idx := (nl_idx l)(r \<mapsto> nneigh l),
                         nneigh := Suc (nneigh l)\<rparr>
                  else l)"
  have i1: "neigh_loop_inv me l1"
  proof (cases "nl_idx l r = None")
    case True
    then have "r \<notin> set (nl_ranks l)" using assms by (auto simp: neigh_loop_inv_def)
    then show ?thesis using assms True False
      by (auto simp: l1_def neigh_loop_inv_def r_def nth_append)
  next
    case False
    then show ?thesis using assms by (auto simp: l1_def)
  qed
  have "neigh_step cfg me off l =
     (let l2 = (if upper_offset off then l1\<lparr>source_neigh := push_back_unique (source_neigh l1) r\<rparr> else l1)
      in (if lower_offset off then l2\<lparr>dest_neigh := push_back_unique (dest_neigh l2) r\<rparr> else l2))"
    using False by (simp add: neigh_step_def Let_def r_def l1_def upper_offset_def lower_offset_def)
  then show ?thesis using i1 False
    by (auto simp: Let_def neigh_loop_inv_def push_back_unique_def r_def)
qed


lemma neigh_step_sets:
  "set (nl_ranks (neigh_step cfg me off l)) =
     set (nl_ranks l) \<union> ({offset_rank cfg me off} - {me} - dom (nl_idx l))"
  "set (source_neigh (neigh_step cfg me off l)) =
     set (source_neigh l) \<union> (if upper_offset off then {offset_rank cfg me off} - {me} else {})"
  "set (dest_neigh (neigh_step cfg me off l)) =
     set (dest_neigh l) \<union> (if lower_offset off then {offset_rank cfg me off} - {me} else {})"
  by (auto simp: neigh_step_def Let_def push_back_unique_def upper_offset_def lower_offset_def
           split: if_splits)

lemma neigh_fold:
  assumes "neigh_loop_inv me l"
  shows "neigh_loop_inv me (fold (neigh_step cfg me) offs l)
       \<and> set (nl_ranks (fold (neigh_step cfg me) offs l)) =
           set (nl_ranks l) \<union> (offset_rank cfg me ` set offs - {me})
       \<and> set (source_neigh (fold (neigh_step cfg me) offs l)) =
           set (source_neigh l) \<union> (offset_rank cfg me ` {off \<in> set offs. upper_offset off} - {me})
       \<and> set (dest_neigh (fold (neigh_step cfg me) offs l)) =
           set (dest_neigh l) \<union> (offset_rank cfg me ` {off \<in> set offs. lower_offset off} - {me})"
  using assms
proof (induction offs arbitrary: l)
  case Nil
  then show ?case by simp
next
  case (Cons off offs)
  note i = neigh_step_inv[OF Cons.prems, of cfg off]
  have d: "dom (nl_idx l) = set (nl_ranks l)" using Cons.prems by (simp add: neigh_loop_inv_def)
  from Cons.IH[OF i] show ?case
    unfolding fold_simps neigh_step_sets d by auto
qed


lemma nth3_simps: "nth3 (a, b, c) 0 = a" "nth3 (a, b, c) 1 = b" "nth3 (a, b, c) 2 = c"
  by simp_all

lemma set_neighbor_offsets: "set neighbor_offsets = {- 1, 0, 1} \<times> {- 1, 0, 1} \<times> {- 1, 0, 1}"
  unfolding neighbor_offsets_def by (simp add: set_eq_iff)

lemma upper_offsets: "{off \<in> set neighbor_offsets. upper_offset off} = {0, 1} \<times> {0, 1} \<times> {0, 1}"
proof (rule set_eqI)
  fix off :: "int vec3"
  obtain a b c where off: "off = (a, b, c)" by (cases off) auto
  have h: "\<And>x::int. x \<in> {- 1, 0, 1} \<and> 0 \<le> x \<longleftrightarrow> x \<in> {0, 1}" by auto
  have "off \<in> {off \<in> set neighbor_offsets. upper_offset off} \<longleftrightarrow>
          (a \<in> {- 1, 0, 1} \<and> 0 \<le> a) \<and> (b \<in> {- 1, 0, 1} \<and> 0 \<le> b) \<and> (c \<in> {- 1, 0, 1} \<and> 0 \<le> c)"
    by (simp only: off set_neighbor_offsets upper_offset_def mem_Collect_eq mem_Sigma_iff nth3_simps)
       (rule iffI; (elim conjE)?; (intro conjI)?; assumption)
  then show "off \<in> {off \<in> set neighbor_offsets. upper_offset off} \<longleftrightarrow> off \<in> {0, 1} \<times> {0, 1} \<times> {0, 1}"
    by (simp only: h off mem_Sigma_iff)
qed

lemma lower_offsets: "{off \<in> set neighbor_offsets. lower_offset off} = {- 1, 0} \<times> {- 1, 0} \<times> {- 1, 0}"
proof (rule set_eqI)
  fix off :: "int vec3"
  obtain a b c where off: "off = (a, b, c)" by (cases off) auto
  have h: "\<And>x::int. x \<in> {- 1, 0, 1} \<and> x \<le> 0 \<longleftrightarrow> x \<in> {- 1, 0}" by auto
  have "off \<in> {off \<in> set neighbor_offsets. lower_offset off} \<longleftrightarrow>
          (a \<in> {- 1, 0, 1} \<and> a \<le> 0) \<and> (b \<in> {- 1, 0, 1} \<and> b \<le> 0) \<and> (c \<in> {- 1, 0, 1} \<and> c \<le> 0)"
    by (simp only: off set_neighbor_offsets lower_offset_def mem_Collect_eq mem_Sigma_iff nth3_simps)
       (rule iffI; (elim conjE)?; (intro conjI)?; assumption)
  then show "off \<in> {off \<in> set neighbor_offsets. lower_offset off} \<longleftrightarrow> off \<in> {- 1, 0} \<times> {- 1, 0} \<times> {- 1, 0}"
    by (simp only: h off mem_Sigma_iff)
qed

lemma init_neighbors_result:
  fixes cfg me s
  defines "s' \<equiv> init_neighbors cfg me s"
  shows "set (neighbor_ranks s') = offset_rank cfg me ` set neighbor_offsets - {me}"
    and "distinct (neighbor_ranks s')"
    and "\<forall>i<length (neighbor_ranks s'). neighbor_idx s' (neighbor_ranks s' ! i) = Some i"
    and "neighbor_idx s' me = None"
    and "\<exists>src. comm_sources s' = src @ [me] \<and> distinct src
            \<and> set src = offset_rank cfg me ` ({0, 1} \<times> {0, 1} \<times> {0, 1}) - {me}"
    and "\<exists>dst. comm_dests s' = dst @ [me] \<and> distinct dst
            \<and> set dst = offset_rank cfg me ` ({- 1, 0} \<times> {- 1, 0} \<times> {- 1, 0}) - {me}"
proof -
  define l where "l = fold (neigh_step cfg me) neighbor_offsets neigh_loop_start"
  have s': "neighbor_ranks s' = nl_ranks l" "neighbor_idx s' = nl_idx l"
    "comm_sources s' = source_neigh l @ [me]" "comm_dests s' = dest_neigh l @ [me]"
    by (simp_all add: s'_def init_neighbors_def Let_def l_def)
  have "neigh_loop_inv me neigh_loop_start"
    by (simp add: neigh_loop_inv_def neigh_loop_start_def)
  note f = neigh_fold[OF this, of cfg neighbor_offsets, folded l_def]
  have st: "nl_ranks neigh_loop_start = []" "source_neigh neigh_loop_start = []"
    "dest_neigh neigh_loop_start = []" by (simp_all add: neigh_loop_start_def)
  show "set (neighbor_ranks s') = offset_rank cfg me ` set neighbor_offsets - {me}"
    using f by (simp add: s' st)
  show "distinct (neighbor_ranks s')" using f by (simp add: s' neigh_loop_inv_def)
  show "\<forall>i<length (neighbor_ranks s'). neighbor_idx s' (neighbor_ranks s' ! i) = Some i"
    using f by (simp add: s' neigh_loop_inv_def)
  show "neighbor_idx s' me = None" using f by (auto simp: s' neigh_loop_inv_def)
  show "\<exists>src. comm_sources s' = src @ [me] \<and> distinct src
            \<and> set src = offset_rank cfg me ` ({0, 1} \<times> {0, 1} \<times> {0, 1}) - {me}"
    using f by (simp add: s' st neigh_loop_inv_def upper_offsets)
  show "\<exists>dst. comm_dests s' = dst @ [me] \<and> distinct dst
            \<and> set dst = offset_rank cfg me ` ({- 1, 0} \<times> {- 1, 0} \<times> {- 1, 0}) - {me}"
    using f by (simp add: s' st neigh_loop_inv_def lower_offsets)
qed
lemma construct_neighbors:
  assumes "construct cfg = Inr ss" and "r < length ss"
  shows "neighbor_ranks (ss ! r) = neighbor_ranks (init_neighbors cfg (int r) (init_gridpoint cfg (int r) fresh_state))"
    and "comm_sources (ss ! r) = comm_sources (init_neighbors cfg (int r) (init_gridpoint cfg (int r) fresh_state))"
    and "comm_dests (ss ! r) = comm_dests (init_neighbors cfg (int r) (init_gridpoint cfg (int r) fresh_state))"
    and "lookup0 (neighbor_idx (ss ! r)) k =
         lookup0 (neighbor_idx (init_neighbors cfg (int r) (init_gridpoint cfg (int r) fresh_state))) k"
proof -
  have r: "r < n_nodes cfg" using construct_rank(1)[OF assms(1)] assms(2) by simp
  note re = construct_rank(2)[OF assms(1) r]
  from geometry_reinit[OF re]
  show "neighbor_ranks (ss ! r) = neighbor_ranks (init_neighbors cfg (int r) (init_gridpoint cfg (int r) fresh_state))"
    and "comm_sources (ss ! r) = comm_sources (init_neighbors cfg (int r) (init_gridpoint cfg (int r) fresh_state))"
    and "comm_dests (ss ! r) = comm_dests (init_neighbors cfg (int r) (init_gridpoint cfg (int r) fresh_state))"
    by (simp_all add: geometry_def init_octagons_def)
  from reinit_lookup0[OF re, of k]
  show "lookup0 (neighbor_idx (ss ! r)) k =
         lookup0 (neighbor_idx (init_neighbors cfg (int r) (init_gridpoint cfg (int r) fresh_state))) k"
    by (simp add: init_octagons_def)
qed

section \<open>Properties of repartition\<close>

subsection \<open>The corner table\<close>

text \<open>
  After every \<^verbatim>\<open>all_gather\<close> of the corners, \<open>gridpoints\<close> of every rank is the list of
  all ranks' \<open>gridpoint\<close>.
\<close>

definition table_consistent :: "grid_state list \<Rightarrow> bool" where
  "table_consistent ss \<longleftrightarrow> (\<forall>r<length ss. gridpoints (ss ! r) = map gridpoint ss)"

lemma table_consistent_own:
  "table_consistent ss \<Longrightarrow> r < length ss \<Longrightarrow> gridpoints (ss ! r) ! r = gridpoint (ss ! r)"
  by (simp add: table_consistent_def)

lemma construct_table_consistent:
  assumes "construct cfg = Inr ss"
  shows "table_consistent ss"
proof -
  note len = construct_rank(1)[OF assms]
  have gp: "\<And>r. r < n_nodes cfg \<Longrightarrow> gridpoint (ss ! r) = initial_gridpoints cfg ! r"
    using construct_geometry(1)[OF assms] by (simp add: initial_gridpoints_def)
  have "map gridpoint ss = initial_gridpoints cfg"
    by (rule nth_equalityI) (simp_all add: len gp initial_gridpoints_def)
  then show ?thesis
    using construct_geometry(2)[OF assms] by (simp add: table_consistent_def len)
qed

lemma length_candidate_gridpoints: "length (candidate_gridpoints cfg ss ins) = length ss"
  by (simp add: candidate_gridpoints_def)

lemma nth_candidate_gridpoints:
  "r < length ss \<Longrightarrow> candidate_gridpoints cfg ss ins ! r = candidate_corner cfg ss ins r"
  by (simp add: candidate_gridpoints_def)

lemma repartition_accepted_geometry:
  assumes "repartition cfg ss0 ins = Inr (True, ss)" and "r < length ss0"
  shows "gridpoint (ss ! r) = candidate_corner cfg ss0 ins r"
    and "gridpoints (ss ! r) = candidate_gridpoints cfg ss0 ins"
    and "\<not> is_regular_grid (ss ! r)"
    and "my_dom (ss ! r) = bounding_box cfg (candidate_gridpoints cfg ss0 ins) (int r)"
    and "neighbor_doms (ss ! r) = map (bounding_box cfg (candidate_gridpoints cfg ss0 ins)) (neighbor_ranks (ss0 ! r))"
    and "neighbor_ranks (ss ! r) = neighbor_ranks (ss0 ! r)"
    and "comm_sources (ss ! r) = comm_sources (ss0 ! r)"
    and "mu (ss ! r) = mu (ss0 ! r)"
  using geometry_reinit[OF repartition_accepted(3)[OF assms, unfolded accept_update_def]]
  by (simp_all add: geometry_def init_octagons_def update_gridpoints_def)

lemma repartition_accepted_consistent:
  assumes "repartition cfg ss0 ins = Inr (True, ss)"
  shows "table_consistent ss"
proof -
  note len = repartition_accepted(2)[OF assms]
  have "map gridpoint ss = candidate_gridpoints cfg ss0 ins"
    by (rule nth_equalityI)
       (simp_all add: len length_candidate_gridpoints nth_candidate_gridpoints
          repartition_accepted_geometry(1)[OF assms])
  then show ?thesis
    using repartition_accepted_geometry(2)[OF assms] by (simp add: table_consistent_def len)
qed

text \<open>A rejected call undoes its update of the corner table.\<close>

lemma restore_after_update:
  assumes "gridpoints s ! nat me = gridpoint s"
  shows "restore_gridpoints me (gridpoints s) (update_gridpoints c G s) = s"
  using assms by (simp add: restore_gridpoints_def update_gridpoints_def Let_def)

lemma repartition_rejected:
  assumes "table_consistent ss"
  shows "repartition cfg ss ins =
     (if 0 < total_conflicts cfg (candidate_gridpoints cfg ss ins)
      then (if ensure_fatal cfg then Inl EnsureFailed else Inr (False, ss))
      else (case mapE (\<lambda>r. accept_update cfg (int r) (candidate_gridpoints cfg ss ins)
                              (update_gridpoints (candidate_corner cfg ss ins r)
                                 (candidate_gridpoints cfg ss ins) (ss ! r))) [0..<length ss] of
              Inl e \<Rightarrow> Inl e
            | Inr ss' \<Rightarrow> Inr (True, ss')))"
proof -
  have "map (\<lambda>r. restore_gridpoints (int r) (gridpoints (ss ! r))
                   (update_gridpoints (candidate_corner cfg ss ins r)
                      (candidate_gridpoints cfg ss ins) (ss ! r))) [0..<length ss]
        = map (\<lambda>r. ss ! r) [0..<length ss]"
    by (rule map_cong[OF refl])
       (simp add: restore_after_update table_consistent_own[OF assms])
  then show ?thesis
    by (simp add: repartition_def Let_def map_nth)
qed

lemma repartition_consistent:
  assumes "table_consistent ss" and "repartition cfg ss ins = Inr (b, ss')"
  shows "table_consistent ss'"
proof (cases b)
  case True
  then have "repartition cfg ss ins = Inr (True, ss')" using assms(2) by simp
  then show ?thesis by (rule repartition_accepted_consistent)
next
  case False
  then have "ss' = ss" using assms
    by (auto simp: repartition_rejected split: if_splits sum.splits)
  then show ?thesis using assms(1) by simp
qed

subsection \<open>Counting the conflicts\<close>

lemma set_corner_pairs: "set (corner_pairs n) = {(i, j). i < j \<and> j < n}"
  by (force simp: corner_pairs_def)

lemma distinct_tagged_concat:
  "distinct xs \<Longrightarrow> (\<And>x. distinct (g x)) \<Longrightarrow> distinct (concat (map (\<lambda>i. map (Pair i) (g i)) xs))"
  by (induction xs) (auto simp: distinct_map inj_on_def)

lemma distinct_corner_pairs: "distinct (corner_pairs n)"
  unfolding corner_pairs_def by (rule distinct_tagged_concat) simp_all

lemma count_conflicts_card:
  "count_conflicts cfg bb =
     card {(i, j). i < j \<and> j < length bb \<and> dist2 (bb ! i) (bb ! j) < 2 * min_cell_size cfg}"
proof -
  have "{(i, j). i < j \<and> j < length bb \<and> dist2 (bb ! i) (bb ! j) < 2 * min_cell_size cfg}
        = {p. (case p of (i, j) \<Rightarrow> dist2 (bb ! i) (bb ! j) < 2 * min_cell_size cfg)} \<inter> set (corner_pairs (length bb))"
    by (auto simp: set_corner_pairs)
  then show ?thesis
    unfolding count_conflicts_def
    by (simp add: distinct_length_filter[OF distinct_corner_pairs])
qed

lemma length_bounding_box: "length (bounding_box cfg gps r) = 8"
  by (simp add: bounding_box_def corner_offsets_def Let_def)

lemma total_conflicts_sum:
  "total_conflicts cfg gps =
     (\<Sum>r<length gps. card {(i, j). i < j \<and> j < 8 \<and>
         dist2 (bounding_box cfg gps (int r) ! i) (bounding_box cfg gps (int r) ! j) < 2 * min_cell_size cfg})"
  unfolding total_conflicts_def count_conflicts_card length_bounding_box
  by (simp add: interv_sum_list_conv_sum_set_nat atLeast0LessThan)

lemma conflict_pair:
  assumes "r < length gps" and "i < j" and "j < 8"
    and "dist2 (bounding_box cfg gps (int r) ! i) (bounding_box cfg gps (int r) ! j) < 2 * min_cell_size cfg"
  shows "0 < total_conflicts cfg gps"
proof -
  let ?S = "\<lambda>r. {(i, j). i < j \<and> j < 8 \<and>
         dist2 (bounding_box cfg gps (int r) ! i) (bounding_box cfg gps (int r) ! j) < 2 * min_cell_size cfg}"
  have "?S r \<subseteq> {..<8} \<times> {..<8}" by auto
  then have fin: "finite (?S r)" by (rule finite_subset) simp
  have "(i, j) \<in> ?S r" using assms by simp
  then have "0 < card (?S r)" using fin by (auto simp: card_gt_0_iff)
  moreover have "card (?S r) \<le> (\<Sum>r<length gps. card (?S r))"
    by (rule member_le_sum) (simp_all add: assms(1))
  ultimately show ?thesis unfolding total_conflicts_sum by linarith
qed


subsection \<open>The candidate corner\<close>

lemma new_corner_pinned:
  assumes "d < 3" and "nth3 (cart_coords (dims cfg) me) d = nth3 (dims cfg) d - 1"
  shows "nth3 (new_corner cfg me s lambda r) d = nth3 (gridpoint s) d"
  using assms by (simp add: new_corner_def Let_def nth3_tab3)

lemma sum_list_constant: "(\<forall>l\<in>set ls. l = L) \<Longrightarrow> sum_list ls = real (length ls) * (L::real)"
  by (induction ls) (simp_all add: algebra_simps)

lemma foldl_unchanged: "foldl (\<lambda>acc i. acc) a xs = a"
  by (induction xs) simp_all

lemma new_corner_uniform:
  assumes "\<forall>l\<in>set lambda. l = L" and "L \<noteq> 0"
    and "length lambda = length (comm_sources s)" and "comm_sources s \<noteq> []"
  shows "new_corner cfg me s lambda r = gridpoint s"
proof -
  let ?n = "length (comm_sources s)"
  have n: "real ?n \<noteq> 0" using assms(4) by simp
  have norm: "sum_list lambda / real ?n = L"
    using sum_list_constant[OF assms(1)] n by (simp add: assms(3))
  have hat: "\<And>i. i < ?n \<Longrightarrow> map (\<lambda>l. l / L) lambda ! i = 1"
  proof -
    fix i assume i: "i < ?n"
    then have "lambda ! i \<in> set lambda" using assms(3) by simp
    then have "lambda ! i = L" using assms(1) by blast
    then show "map (\<lambda>l. l / L) lambda ! i = 1" using i assms(2,3) by simp
  qed
  have fl: "\<And>i. i < ?n \<Longrightarrow> flow s (map (\<lambda>l. l / L) lambda ! i) (r ! i) = (0, 0, 0)"
    by (simp add: hat flow_def Let_def tab3_def)
  have f: "map (\<lambda>i. flow s (map (\<lambda>l. l / L) lambda ! i) (r ! i)) [0..<?n] = replicate ?n (0, 0, 0)"
    by (rule nth_equalityI) (simp_all add: fl)
  have acc: "\<And>d a. foldl (\<lambda>acc i. acc + mu s * nth3 (replicate ?n (0::real, 0::real, 0::real) ! i) d) a [0..<?n] = a"
  proof -
    fix d :: nat and a :: real
    have "foldl (\<lambda>acc i. acc + mu s * nth3 (replicate ?n (0::real, 0::real, 0::real) ! i) d) a [0..<?n]
        = foldl (\<lambda>acc i. acc) a [0..<?n]"
      by (rule foldl_cong) simp_all
    then show "foldl (\<lambda>acc i. acc + mu s * nth3 (replicate ?n (0::real, 0::real, 0::real) ! i) d) a [0..<?n] = a"
      by (simp add: foldl_unchanged)
  qed
  show ?thesis
    by (rule vec3_eqI) (simp add: new_corner_def Let_def norm f acc nth3_tab3)
qed

text \<open>The load is the same on all the ranks a call gathers from, and is not zero.\<close>

definition uniform_load :: "grid_state list \<Rightarrow> rank_input list \<Rightarrow> real \<Rightarrow> bool" where
  "uniform_load ss ins L \<longleftrightarrow>
     L \<noteq> 0 \<and>
     (\<forall>r<length ss. comm_sources (ss ! r) \<noteq> [] \<and>
        (\<forall>q\<in>set (comm_sources (ss ! r)). sum_list (weights (ins ! nat q)) = L))"

lemma candidate_uniform:
  assumes "uniform_load ss ins L"
  shows "candidate_gridpoints cfg ss ins = map gridpoint ss"
proof (rule nth_equalityI)
  show "length (candidate_gridpoints cfg ss ins) = length (map gridpoint ss)"
    by (simp add: length_candidate_gridpoints)
next
  fix r assume "r < length (candidate_gridpoints cfg ss ins)"
  then have r: "r < length ss" by (simp add: length_candidate_gridpoints)
  have "candidate_corner cfg ss ins r = gridpoint (ss ! r)"
    unfolding candidate_corner_def
    by (rule new_corner_uniform[where L = L])
       (use assms r in \<open>auto simp: uniform_load_def gathered_lambda_def\<close>)
  then show "candidate_gridpoints cfg ss ins ! r = map gridpoint ss ! r"
    using r by (simp add: nth_candidate_gridpoints)
qed




section \<open>Calls of repartition on the example of two ranks\<close>

lemma dist2_less_iff:
  assumes "0 < c"
  shows "dist2 v w < c \<longleftrightarrow>
           (nth3 v 0 - nth3 w 0) * (nth3 v 0 - nth3 w 0) + (nth3 v 1 - nth3 w 1) * (nth3 v 1 - nth3 w 1)
             + (nth3 v 2 - nth3 w 2) * (nth3 v 2 - nth3 w 2) < c * c"
proof -
  have "c = sqrt (c * c)" using assms by simp
  then have "dist2 v w < c \<longleftrightarrow> dist2 v w < sqrt (c * c)" by simp
  then show ?thesis
    unfolding dist2_def norm2_def real_sqrt_less_iff by (simp add: tab3_def)
qed

definition exA_states :: "grid_state list" where
  "exA_states = [exA_st0, exA_st1]"

text \<open>The same load on both ranks, no particles.\<close>

definition exA_uniform :: "rank_input list" where
  "exA_uniform = [\<lparr>weights = [1, 1], particles = []\<rparr>, \<lparr>weights = [1, 1], particles = []\<rparr>]"

lemma exA_consistent: "table_consistent exA_states"
  using construct_table_consistent[OF construct_exA[of False True]] by (simp add: exA_states_def)

lemma exA_gridpoints: "map gridpoint exA_states = [(1999999 / 1000000, 2, 2), (4, 2, 2)]"
  by (simp add: exA_states_def exA_st0_def exA_st1_def exA_pre0_def exA_pre1_def)

lemma exA_uniform_load: "uniform_load exA_states exA_uniform 2"
  by (simp add: uniform_load_def exA_states_def exA_uniform_def exA_st0_def exA_st1_def
        exA_pre0_def exA_pre1_def less_Suc_eq numeral_2_eq_2)

lemma exA_min_cell_size: "min_cell_size (exA dbg sig) = 1"
  by (simp add: min_cell_size_def exA_simps)

lemma exA_conflict: "0 < total_conflicts (exA dbg sig) [(1999999 / 1000000, 2, 2), (4, 2, 2)]"
proof (rule conflict_pair[where r = 0 and i = 0 and j = 4])
  have b: "bounding_box (exA dbg sig) [(1999999 / 1000000, 2, 2), (4, 2, 2)] (int 0) ! 0 = (1999999 / 1000000, 2, 2)"
          "bounding_box (exA dbg sig) [(1999999 / 1000000, 2, 2), (4, 2, 2)] (int 0) ! 4 = (0, 2, 2)"
    by (simp_all add: bounding_box_def corner_offsets_def exA_simps cart_coords_def cart_rank_def tab3_def Let_def)
  show "dist2 (bounding_box (exA dbg sig) [(1999999 / 1000000, 2, 2), (4, 2, 2)] (int 0) ! 0)
              (bounding_box (exA dbg sig) [(1999999 / 1000000, 2, 2), (4, 2, 2)] (int 0) ! 4)
          < 2 * min_cell_size (exA dbg sig)"
    unfolding b exA_min_cell_size by (simp add: dist2_less_iff)
qed simp_all

lemma repartition_exA_uniform:
  "repartition (exA dbg sig) exA_states exA_uniform =
     (if dbg \<and> sig then Inl EnsureFailed else Inr (False, exA_states))"
  using exA_conflict[of dbg sig]
  by (simp add: repartition_rejected[OF exA_consistent] candidate_uniform[OF exA_uniform_load]
        exA_gridpoints exA_simps)

section \<open>An example: an accepted call of repartition\<close>

text \<open>
  A box of size \<open>6 \<times> 2 \<times> 2\<close> with \<open>2 \<times> 2 \<times> 1\<close> cells of size \<open>3 \<times> 1 \<times> 2\<close>, on a
  \<open>2 \<times> 1 \<times> 1\<close> process grid: rank 0 owns the cells 0 and 1, rank 1 the cells 2 and 3.
  Twice the least cell size is 2, and no edge of a subdomain is shorter.
\<close>

definition exC :: "bool \<Rightarrow> bool \<Rightarrow> config" where
  "exC dbg sig = example_config dbg sig (2, 1, 1) (6, 2, 2) (2, 2, 1)"

lemma exC_simps:
  "grid_debug (exC dbg sig) = dbg" "dims (exC dbg sig) = (2, 1, 1)" "box_l (exC dbg sig) = (6, 2, 2)"
  "ncells (exC dbg sig) = 4" "gbox_cell_size (exC dbg sig) = (3, 1, 2)"
  "my_right (exC dbg sig) = regular_right (2, 1, 1) (6, 2, 2)"
  "midpoint (exC dbg sig) = box_midpoint (2, 2, 1) (3, 1, 2)"
  "cell_at_pos (exC dbg sig) = box_cell_at_pos (2, 2, 1) (3, 1, 2)"
  "full_shell_neigh_without_center (exC dbg sig) = box_full_shell (2, 2, 1)"
  "contains (exC dbg sig) = box_contains"
  "map_position_node_array (exC dbg sig) = regular_owner (2, 1, 1) (6, 2, 2)"
  "sigint_terminates (exC dbg sig) = sig" "ensure_fatal (exC dbg sig) \<longleftrightarrow> dbg \<and> sig"
  by (simp_all add: exC_def example_config_def ensure_fatal_def tab3_def Let_def)

text \<open>The objects of the two ranks when the constructor calls \<^verbatim>\<open>reinit\<close>.\<close>

definition exC_pre0 :: grid_state where
  "exC_pre0 =
     \<lparr>mu = 1, is_regular_grid = True, gridpoint = (2999999 / 1000000, 2, 2),
      gridpoints = [(2999999 / 1000000, 2, 2), (6, 2, 2)],
      neighbor_ranks = [1], neighbor_idx = [1 \<mapsto> 0], comm_sources = [1, 0], comm_dests = [1, 0],
      my_dom = [(2999999 / 1000000, 2, 2), (2999999 / 1000000, 2, 0), (2999999 / 1000000, 0, 2), (2999999 / 1000000, 0, 0), (0, 2, 2), (0, 2, 0), (0, 0, 2), (0, 0, 0)],
      neighbor_doms = [[(6, 2, 2), (6, 2, 0), (6, 0, 2), (6, 0, 0), (2999999 / 1000000, 2, 2), (2999999 / 1000000, 2, 0), (2999999 / 1000000, 0, 2), (2999999 / 1000000, 0, 0)]],
      nlocalcells = 0, nghostcells = 0, cells = [], global_to_local = Map.empty, exchange_vec = []\<rparr>"

definition exC_pre1 :: grid_state where
  "exC_pre1 =
     \<lparr>mu = 1, is_regular_grid = True, gridpoint = (6, 2, 2),
      gridpoints = [(2999999 / 1000000, 2, 2), (6, 2, 2)],
      neighbor_ranks = [0], neighbor_idx = [0 \<mapsto> 0], comm_sources = [0, 1], comm_dests = [0, 1],
      my_dom = [(6, 2, 2), (6, 2, 0), (6, 0, 2), (6, 0, 0), (2999999 / 1000000, 2, 2), (2999999 / 1000000, 2, 0), (2999999 / 1000000, 0, 2), (2999999 / 1000000, 0, 0)],
      neighbor_doms = [[(2999999 / 1000000, 2, 2), (2999999 / 1000000, 2, 0), (2999999 / 1000000, 0, 2), (2999999 / 1000000, 0, 0), (0, 2, 2), (0, 2, 0), (0, 0, 2), (0, 0, 0)]],
      nlocalcells = 0, nghostcells = 0, cells = [], global_to_local = Map.empty, exchange_vec = []\<rparr>"

text \<open>
  The same objects when an accepted call of \<^verbatim>\<open>repartition\<close> that moves the corner of rank
  0 to \<open>3.499999\<close> calls \<^verbatim>\<open>reinit\<close>, but for the old decomposition, which \<^verbatim>\<open>reinit\<close> clears.
\<close>

definition exC_upd0 :: grid_state where
  "exC_upd0 = exC_pre0\<lparr>is_regular_grid := False, gridpoint := (3499999 / 1000000, 2, 2),
     gridpoints := [(3499999 / 1000000, 2, 2), (6, 2, 2)],
     my_dom := [(3499999 / 1000000, 2, 2), (3499999 / 1000000, 2, 0), (3499999 / 1000000, 0, 2), (3499999 / 1000000, 0, 0), (0, 2, 2), (0, 2, 0), (0, 0, 2), (0, 0, 0)],
     neighbor_doms := [[(6, 2, 2), (6, 2, 0), (6, 0, 2), (6, 0, 0), (3499999 / 1000000, 2, 2), (3499999 / 1000000, 2, 0), (3499999 / 1000000, 0, 2), (3499999 / 1000000, 0, 0)]]\<rparr>"

definition exC_upd1 :: grid_state where
  "exC_upd1 = exC_pre1\<lparr>is_regular_grid := False,
     gridpoints := [(3499999 / 1000000, 2, 2), (6, 2, 2)],
     my_dom := [(6, 2, 2), (6, 2, 0), (6, 0, 2), (6, 0, 0), (3499999 / 1000000, 2, 2), (3499999 / 1000000, 2, 0), (3499999 / 1000000, 0, 2), (3499999 / 1000000, 0, 0)],
     neighbor_doms := [[(3499999 / 1000000, 2, 2), (3499999 / 1000000, 2, 0), (3499999 / 1000000, 0, 2), (3499999 / 1000000, 0, 0), (0, 2, 2), (0, 2, 0), (0, 0, 2), (0, 0, 0)]]\<rparr>"

text \<open>The decomposition that \<^verbatim>\<open>reinit\<close> builds, on rank 0 and on rank 1.\<close>

definition exC_dec0 :: "grid_state \<Rightarrow> grid_state" where
  "exC_dec0 s = s\<lparr>nlocalcells := 2, nghostcells := 2, cells := [0, 1, 3, 2],
     global_to_local := [0 \<mapsto> 0, 1 \<mapsto> 1, 3 \<mapsto> 2, 2 \<mapsto> 3],
     exchange_vec := [\<lparr>dest = 1, recv = [3, 2], send = [0, 1]\<rparr>]\<rparr>"

definition exC_dec1 :: "grid_state \<Rightarrow> grid_state" where
  "exC_dec1 s = s\<lparr>nlocalcells := 2, nghostcells := 2, cells := [2, 3, 1, 0],
     global_to_local := [2 \<mapsto> 0, 3 \<mapsto> 1, 1 \<mapsto> 2, 0 \<mapsto> 3],
     exchange_vec := [\<lparr>dest = 0, recv = [3, 2], send = [0, 1]\<rparr>]\<rparr>"

lemma exC_nodes: "n_nodes (exC dbg sig) = 2"
  by (simp add: n_nodes_def exC_simps)

lemma exC_initial_gridpoints:
  "initial_gridpoints (exC dbg sig) = [(2999999 / 1000000, 2, 2), (6, 2, 2)]"
  by (simp add: initial_gridpoints_def exC_nodes exC_simps init_eval upt_0_2)

lemma exC_pre_rank0:
  "init_octagons (exC dbg sig) 0 (initial_gridpoints (exC dbg sig))
     (init_neighbors (exC dbg sig) 0 (init_gridpoint (exC dbg sig) 0 fresh_state)) = exC_pre0"
  unfolding exC_initial_gridpoints by (simp add: exC_pre0_def exC_simps init_eval)

lemma exC_pre_rank1:
  "init_octagons (exC dbg sig) 1 (initial_gridpoints (exC dbg sig))
     (init_neighbors (exC dbg sig) 1 (init_gridpoint (exC dbg sig) 1 fresh_state)) = exC_pre1"
  unfolding exC_initial_gridpoints by (simp add: exC_pre1_def exC_simps init_eval)

lemma reinit_exC_rank0: "reinit (exC dbg sig) 0 exC_pre0 = Inr (exC_dec0 exC_pre0)"
proof -
  let ?s1 = "exC_pre0\<lparr>nlocalcells := 2, cells := [0, 1], global_to_local := [0 \<mapsto> 0, 1 \<mapsto> 1]\<rparr>"
  let ?s2 = "?s1\<lparr>exchange_vec := [empty_desc]\<rparr>"
  let ?ps = "[(0, 3), (0, 3), (0, 3), (0, 2), (0, 2), (0, 2), (0, 3), (0, 3), (0, 3),
              (0, 1), (0, 1), (0, 1), (0, 0), (0, 0), (0, 1), (0, 1), (0, 1),
              (0, 3), (0, 3), (0, 3), (0, 2), (0, 2), (0, 2), (0, 3), (0, 3), (0, 3),
              (1, 2), (1, 2), (1, 2), (1, 3), (1, 3), (1, 3), (1, 2), (1, 2), (1, 2),
              (1, 0), (1, 0), (1, 0), (1, 1), (1, 1), (1, 0), (1, 0), (1, 0),
              (1, 2), (1, 2), (1, 2), (1, 3), (1, 3), (1, 3), (1, 2), (1, 2), (1::nat, 2::nat)]"
  let ?s3 = "exC_pre0\<lparr>nlocalcells := 2, nghostcells := 2, cells := [0, 1, 3, 2],
     global_to_local := [0 \<mapsto> 0, 1 \<mapsto> 1, 3 \<mapsto> 2, 2 \<mapsto> 3],
     exchange_vec := [\<lparr>dest = 1, recv = [3, 2], send = [0, 1]\<rparr>]\<rparr>"
  have p1: "fold (add_local_cell (exC dbg sig)) [0..<ncells (exC dbg sig)] (clear_decomposition exC_pre0) = ?s1"
    by (simp add: exC_pre0_def exC_simps local_eval)
  have p2: "?s1\<lparr>exchange_vec := replicate (length (neighbor_ranks ?s1)) empty_desc\<rparr> = ?s2"
    by (simp add: exC_pre0_def)
  have p3: "ghost_pairs (exC dbg sig) ?s2 = ?ps"
    by (simp add: exC_pre0_def exC_simps pairs_eval)
  have p4: "foldE (ghost_step (exC dbg sig) 0) ?ps ?s2 = Inr ?s3"
    by (simp add: exC_pre0_def exC_simps step_eval box_contains_def)
  have p5: "foldE (finalize_desc (exC dbg sig)) [0..<length (exchange_vec ?s3)] ?s3 = Inr (exC_dec0 exC_pre0)"
    by (simp add: exC_pre0_def exC_dec0_def exC_simps final_eval)
  show ?thesis
    unfolding reinit_def Let_def p1 p2 p3 p4 sum.case p5 by (simp add: n_nodes_def exC_simps)
qed

lemma reinit_exC_rank1: "reinit (exC dbg sig) 1 exC_pre1 = Inr (exC_dec1 exC_pre1)"
proof -
  let ?s1 = "exC_pre1\<lparr>nlocalcells := 2, cells := [2, 3], global_to_local := [2 \<mapsto> 0, 3 \<mapsto> 1]\<rparr>"
  let ?s2 = "?s1\<lparr>exchange_vec := [empty_desc]\<rparr>"
  let ?ps = "[(0, 1), (0, 1), (0, 1), (0, 0), (0, 0), (0, 0), (0, 1), (0, 1), (0, 1),
              (0, 3), (0, 3), (0, 3), (0, 2), (0, 2), (0, 3), (0, 3), (0, 3),
              (0, 1), (0, 1), (0, 1), (0, 0), (0, 0), (0, 0), (0, 1), (0, 1), (0, 1),
              (1, 0), (1, 0), (1, 0), (1, 1), (1, 1), (1, 1), (1, 0), (1, 0), (1, 0),
              (1, 2), (1, 2), (1, 2), (1, 3), (1, 3), (1, 2), (1, 2), (1, 2),
              (1, 0), (1, 0), (1, 0), (1, 1), (1, 1), (1, 1), (1, 0), (1, 0), (1::nat, 0::nat)]"
  let ?s3 = "exC_pre1\<lparr>nlocalcells := 2, nghostcells := 2, cells := [2, 3, 1, 0],
     global_to_local := [2 \<mapsto> 0, 3 \<mapsto> 1, 1 \<mapsto> 2, 0 \<mapsto> 3],
     exchange_vec := [\<lparr>dest = 0, recv = [1, 0], send = [2, 3]\<rparr>]\<rparr>"
  have p1: "fold (add_local_cell (exC dbg sig)) [0..<ncells (exC dbg sig)] (clear_decomposition exC_pre1) = ?s1"
    by (simp add: exC_pre1_def exC_simps local_eval)
  have p2: "?s1\<lparr>exchange_vec := replicate (length (neighbor_ranks ?s1)) empty_desc\<rparr> = ?s2"
    by (simp add: exC_pre1_def)
  have p3: "ghost_pairs (exC dbg sig) ?s2 = ?ps"
    by (simp add: exC_pre1_def exC_simps pairs_eval)
  have p4: "foldE (ghost_step (exC dbg sig) 1) ?ps ?s2 = Inr ?s3"
    by (simp add: exC_pre1_def exC_simps step_eval box_contains_def)
  have p5: "foldE (finalize_desc (exC dbg sig)) [0..<length (exchange_vec ?s3)] ?s3 = Inr (exC_dec1 exC_pre1)"
    by (simp add: exC_pre1_def exC_dec1_def exC_simps final_eval)
  show ?thesis
    unfolding reinit_def Let_def p1 p2 p3 p4 sum.case p5 by (simp add: n_nodes_def exC_simps)
qed

lemma reinit_exC_moved0: "reinit (exC dbg sig) 0 exC_upd0 = Inr (exC_dec0 exC_upd0)"
proof -
  let ?s1 = "exC_upd0\<lparr>nlocalcells := 2, cells := [0, 1], global_to_local := [0 \<mapsto> 0, 1 \<mapsto> 1]\<rparr>"
  let ?s2 = "?s1\<lparr>exchange_vec := [empty_desc]\<rparr>"
  let ?ps = "[(0, 3), (0, 3), (0, 3), (0, 2), (0, 2), (0, 2), (0, 3), (0, 3), (0, 3),
              (0, 1), (0, 1), (0, 1), (0, 0), (0, 0), (0, 1), (0, 1), (0, 1),
              (0, 3), (0, 3), (0, 3), (0, 2), (0, 2), (0, 2), (0, 3), (0, 3), (0, 3),
              (1, 2), (1, 2), (1, 2), (1, 3), (1, 3), (1, 3), (1, 2), (1, 2), (1, 2),
              (1, 0), (1, 0), (1, 0), (1, 1), (1, 1), (1, 0), (1, 0), (1, 0),
              (1, 2), (1, 2), (1, 2), (1, 3), (1, 3), (1, 3), (1, 2), (1, 2), (1::nat, 2::nat)]"
  let ?s3 = "exC_upd0\<lparr>nlocalcells := 2, nghostcells := 2, cells := [0, 1, 3, 2],
     global_to_local := [0 \<mapsto> 0, 1 \<mapsto> 1, 3 \<mapsto> 2, 2 \<mapsto> 3],
     exchange_vec := [\<lparr>dest = 1, recv = [3, 2], send = [0, 1]\<rparr>]\<rparr>"
  have p1: "fold (add_local_cell (exC dbg sig)) [0..<ncells (exC dbg sig)] (clear_decomposition exC_upd0) = ?s1"
    by (simp add: exC_upd0_def exC_pre0_def exC_simps local_eval)
  have p2: "?s1\<lparr>exchange_vec := replicate (length (neighbor_ranks ?s1)) empty_desc\<rparr> = ?s2"
    by (simp add: exC_upd0_def exC_pre0_def)
  have p3: "ghost_pairs (exC dbg sig) ?s2 = ?ps"
    by (simp add: exC_upd0_def exC_pre0_def exC_simps pairs_eval)
  have p4: "foldE (ghost_step (exC dbg sig) 0) ?ps ?s2 = Inr ?s3"
    by (simp add: exC_upd0_def exC_pre0_def exC_simps step_eval box_contains_def)
  have p5: "foldE (finalize_desc (exC dbg sig)) [0..<length (exchange_vec ?s3)] ?s3 = Inr (exC_dec0 exC_upd0)"
    by (simp add: exC_upd0_def exC_pre0_def exC_dec0_def exC_simps final_eval)
  show ?thesis
    unfolding reinit_def Let_def p1 p2 p3 p4 sum.case p5 by (simp add: n_nodes_def exC_simps)
qed

lemma reinit_exC_moved1: "reinit (exC dbg sig) 1 exC_upd1 = Inr (exC_dec1 exC_upd1)"
proof -
  let ?s1 = "exC_upd1\<lparr>nlocalcells := 2, cells := [2, 3], global_to_local := [2 \<mapsto> 0, 3 \<mapsto> 1]\<rparr>"
  let ?s2 = "?s1\<lparr>exchange_vec := [empty_desc]\<rparr>"
  let ?ps = "[(0, 1), (0, 1), (0, 1), (0, 0), (0, 0), (0, 0), (0, 1), (0, 1), (0, 1),
              (0, 3), (0, 3), (0, 3), (0, 2), (0, 2), (0, 3), (0, 3), (0, 3),
              (0, 1), (0, 1), (0, 1), (0, 0), (0, 0), (0, 0), (0, 1), (0, 1), (0, 1),
              (1, 0), (1, 0), (1, 0), (1, 1), (1, 1), (1, 1), (1, 0), (1, 0), (1, 0),
              (1, 2), (1, 2), (1, 2), (1, 3), (1, 3), (1, 2), (1, 2), (1, 2),
              (1, 0), (1, 0), (1, 0), (1, 1), (1, 1), (1, 1), (1, 0), (1, 0), (1::nat, 0::nat)]"
  let ?s3 = "exC_upd1\<lparr>nlocalcells := 2, nghostcells := 2, cells := [2, 3, 1, 0],
     global_to_local := [2 \<mapsto> 0, 3 \<mapsto> 1, 1 \<mapsto> 2, 0 \<mapsto> 3],
     exchange_vec := [\<lparr>dest = 0, recv = [1, 0], send = [2, 3]\<rparr>]\<rparr>"
  have p1: "fold (add_local_cell (exC dbg sig)) [0..<ncells (exC dbg sig)] (clear_decomposition exC_upd1) = ?s1"
    by (simp add: exC_upd1_def exC_pre1_def exC_simps local_eval)
  have p2: "?s1\<lparr>exchange_vec := replicate (length (neighbor_ranks ?s1)) empty_desc\<rparr> = ?s2"
    by (simp add: exC_upd1_def exC_pre1_def)
  have p3: "ghost_pairs (exC dbg sig) ?s2 = ?ps"
    by (simp add: exC_upd1_def exC_pre1_def exC_simps pairs_eval)
  have p4: "foldE (ghost_step (exC dbg sig) 1) ?ps ?s2 = Inr ?s3"
    by (simp add: exC_upd1_def exC_pre1_def exC_simps step_eval box_contains_def)
  have p5: "foldE (finalize_desc (exC dbg sig)) [0..<length (exchange_vec ?s3)] ?s3 = Inr (exC_dec1 exC_upd1)"
    by (simp add: exC_upd1_def exC_pre1_def exC_dec1_def exC_simps final_eval)
  show ?thesis
    unfolding reinit_def Let_def p1 p2 p3 p4 sum.case p5 by (simp add: n_nodes_def exC_simps)
qed

lemma construct_exC: "construct (exC dbg sig) = Inr [exC_dec0 exC_pre0, exC_dec1 exC_pre1]"
  unfolding construct_unfold exC_nodes
  by (simp add: upt_0_2 exC_pre_rank0 exC_pre_rank1 reinit_exC_rank0 reinit_exC_rank1)

subsection \<open>A call that moves the corner of rank 0\<close>

definition exC_states :: "grid_state list" where
  "exC_states = [exC_dec0 exC_pre0, exC_dec1 exC_pre1]"

definition exC_moved :: "grid_state list" where
  "exC_moved = [exC_dec0 exC_upd0, exC_dec1 exC_upd1]"

text \<open>
  A load of 1 on rank 0 and of 3 on rank 1, with one particle each, at distance 3 from the
  corner of rank 0; and the same load on both ranks, without particles.
\<close>

definition exC_load :: "rank_input list" where
  "exC_load = [\<lparr>weights = [1 / 2, 1 / 2], particles = [(999999 / 1000000, 1, 0)]\<rparr>,
               \<lparr>weights = [1, 2], particles = [(3999999 / 1000000, 0, 0)]\<rparr>]"


lemma sqrt_9: "sqrt 9 = 3"
  using real_sqrt_abs[of 3] by simp

lemma exC_consistent: "table_consistent exC_states"
  using construct_table_consistent[OF construct_exC[of False True]] by (simp add: exC_states_def)

lemma exC_candidate0:
  "candidate_corner (exC dbg sig) exC_states exC_load 0 = (3499999 / 1000000, 2, 2)"
  by (simp add: candidate_corner_def new_corner_def gathered_lambda_def gathered_r_def
        center_of_load_def flow_def norm2_def exC_states_def exC_load_def exC_dec0_def exC_dec1_def
        exC_pre0_def exC_pre1_def exC_simps cart_coords_def tab3_def upt_0_2 sqrt_9 Let_def)

lemma exC_candidate1:
  "candidate_corner (exC dbg sig) exC_states exC_load (Suc 0) = (6, 2, 2)"
  by (simp add: candidate_corner_def new_corner_def 
        exC_states_def exC_dec0_def exC_dec1_def
        exC_pre0_def exC_pre1_def exC_simps cart_coords_def tab3_def Let_def)

lemma exC_candidates:
  "candidate_gridpoints (exC dbg sig) exC_states exC_load = [(3499999 / 1000000, 2, 2), (6, 2, 2)]"
  by (simp add: candidate_gridpoints_def exC_states_def upt_0_2 exC_candidate0[unfolded exC_states_def]
      exC_candidate1[unfolded exC_states_def])

lemma exC_min_cell_size: "min_cell_size (exC dbg sig) = 1"
  by (simp add: min_cell_size_def exC_simps)

lemma exC_boxes:
  "bounding_box (exC dbg sig) [(3499999 / 1000000, 2, 2), (6, 2, 2)] 0 =
     [(3499999 / 1000000, 2, 2), (3499999 / 1000000, 2, 0), (3499999 / 1000000, 0, 2), (3499999 / 1000000, 0, 0), (0, 2, 2), (0, 2, 0), (0, 0, 2), (0, 0, 0)]"
  "bounding_box (exC dbg sig) [(3499999 / 1000000, 2, 2), (6, 2, 2)] 1 =
     [(6, 2, 2), (6, 2, 0), (6, 0, 2), (6, 0, 0), (3499999 / 1000000, 2, 2), (3499999 / 1000000, 2, 0), (3499999 / 1000000, 0, 2), (3499999 / 1000000, 0, 0)]"
  by (simp_all add: bounding_box_def corner_offsets_def exC_simps cart_coords_def cart_rank_def tab3_def Let_def)

lemma corner_pairs_8:
  "corner_pairs 8 =
     [(0, 1), (0, 2), (0, 3), (0, 4), (0, 5), (0, 6), (0, 7), (1, 2), (1, 3), (1, 4), (1, 5),
      (1, 6), (1, 7), (2, 3), (2, 4), (2, 5), (2, 6), (2, 7), (3, 4), (3, 5), (3, 6), (3, 7),
      (4, 5), (4, 6), (4, 7), (5, 6), (5, 7), (6, 7)]"
  by (simp add: corner_pairs_def upt_conv_Cons eval_nat_numeral)

lemma count_conflicts_8:
  "count_conflicts cfg [a, b, c, d, e, f, g, h] =
     length (filter (\<lambda>(i, j). dist2 ([a, b, c, d, e, f, g, h] ! i) ([a, b, c, d, e, f, g, h] ! j)
                                < 2 * min_cell_size cfg) (corner_pairs 8))"
  by (simp add: count_conflicts_def eval_nat_numeral)

lemma exC_no_conflict: "total_conflicts (exC dbg sig) [(3499999 / 1000000, 2, 2), (6, 2, 2)] = 0"
  by (simp add: total_conflicts_def upt_0_2 exC_boxes count_conflicts_8 corner_pairs_8
        exC_min_cell_size dist2_less_iff)

lemma exC_updated0:
  "init_octagons (exC dbg sig) 0 [(3499999 / 1000000, 2, 2), (6, 2, 2)]
     ((update_gridpoints (3499999 / 1000000, 2, 2) [(3499999 / 1000000, 2, 2), (6, 2, 2)]
         (exC_dec0 exC_pre0))\<lparr>is_regular_grid := False\<rparr>) = exC_dec0 exC_upd0"
  by (simp add: init_octagons_def update_gridpoints_def exC_boxes exC_dec0_def exC_upd0_def exC_pre0_def)

lemma exC_updated1:
  "init_octagons (exC dbg sig) 1 [(3499999 / 1000000, 2, 2), (6, 2, 2)]
     ((update_gridpoints (6, 2, 2) [(3499999 / 1000000, 2, 2), (6, 2, 2)]
         (exC_dec1 exC_pre1))\<lparr>is_regular_grid := False\<rparr>) = exC_dec1 exC_upd1"
  by (simp add: init_octagons_def update_gridpoints_def exC_boxes exC_dec1_def exC_upd1_def exC_pre1_def)

lemma reinit_dec0: "reinit cfg me (exC_dec0 s) = reinit cfg me s"
  by (simp add: reinit_def clear_decomposition_def exC_dec0_def)

lemma reinit_dec1: "reinit cfg me (exC_dec1 s) = reinit cfg me s"
  by (simp add: reinit_def clear_decomposition_def exC_dec1_def)

lemma repartition_exC_load:
  "repartition (exC dbg sig) exC_states exC_load = Inr (True, exC_moved)"
  unfolding repartition_def Let_def exC_candidates exC_no_conflict
  by (simp add: exC_states_def exC_moved_def upt_0_2 accept_update_def
        exC_candidate0[unfolded exC_states_def] exC_candidate1[unfolded exC_states_def]
        exC_updated0 exC_updated1 reinit_dec0 reinit_dec1 reinit_exC_moved0 reinit_exC_moved1)






lemma exA_states_simps:
  "length exA_states = 2" "gridpoint (exA_states ! Suc 0) = (4, 2, 2)"
  by (simp_all add: exA_states_def exA_st1_def exA_pre1_def)

lemma exC_states_simps:
  "length exC_states = 2" "length exC_moved = 2"
  "gridpoint (exC_states ! 0) = (2999999 / 1000000, 2, 2)" "gridpoint (exC_states ! Suc 0) = (6, 2, 2)"
  "gridpoint (exC_moved ! 0) = (3499999 / 1000000, 2, 2)" "gridpoint (exC_moved ! Suc 0) = (6, 2, 2)"
  "cells (exC_moved ! 0) = [0, 1, 3, 2]" "cells (exC_moved ! Suc 0) = [2, 3, 1, 0]"
  by (simp_all add: exC_states_def exC_moved_def exC_dec0_def exC_dec1_def exC_upd0_def exC_upd1_def
        exC_pre0_def exC_pre1_def)

section \<open>Calls of repartition under a uniform load\<close>

subsection \<open>What an accepted call keeps\<close>





subsection \<open>The second example with the load of the constructor's grid\<close>













section \<open>An example: the octagons and the regular grid disagree on a cell\<close>

































section \<open>The claims\<close>

subsection \<open>C2: global_to_local is a bijection onto the dense indices\<close>

text \<open>
  C2 (amended). After construction and after every accepted repartition, on every rank
  \<open>r\<close>: \<open>global_to_local\<close> is a bijection from the entries of \<open>cells\<close> onto
  \<open>[0, Nlocal + Nghost)\<close>; its keys are exactly the entries of \<open>cells\<close>; the cell at
  position \<open>i\<close> of \<open>cells\<close> maps to \<open>i\<close>, so the \<open>Nlocal\<close> local cells map into
  \<open>[0, Nlocal)\<close> and the \<open>Nghost\<close> ghost cells into \<open>[Nlocal, Nlocal + Nghost)\<close>; the
  local cells are the cells whose midpoint \<open>my_dom\<close> contains, in ascending global index.
  \<open>Nlocal > 0\<close> is not established by the code: \<^verbatim>\<open>ENSURE(nlocalcells > 0)\<close> is empty in a
  build with \<^verbatim>\<open>NDEBUG\<close>, and in a build with \<^verbatim>\<open>GRID_DEBUG\<close> it only sends SIGINT and goes
  on. \<open>Nlocal > 0\<close> holds for the objects that are returned only where that signal
  terminates the processes (a job with \<open>Nlocal = 0\<close> on some rank has ended there).
\<close>

theorem global_to_local_bijection:
  assumes "construct cfg = Inr ss \<or> repartition cfg ss0 ins = Inr (True, ss)"
    and "r < length ss"
  shows "bij_betw (\<lambda>g. the (global_to_local (ss ! r) g)) (set (cells (ss ! r)))
           {0..<nlocalcells (ss ! r) + nghostcells (ss ! r)}
       \<and> dom (global_to_local (ss ! r)) = set (cells (ss ! r))
       \<and> length (cells (ss ! r)) = nlocalcells (ss ! r) + nghostcells (ss ! r)
       \<and> (\<forall>i<nlocalcells (ss ! r) + nghostcells (ss ! r).
             global_to_local (ss ! r) (cells (ss ! r) ! i) = Some i)
       \<and> take (nlocalcells (ss ! r)) (cells (ss ! r)) =
           filter (\<lambda>g. contains cfg (my_dom (ss ! r)) (midpoint cfg g)) [0..<ncells cfg]
       \<and> (grid_debug cfg \<and> sigint_terminates cfg \<longrightarrow> 0 < nlocalcells (ss ! r))"
proof -
  obtain s where re: "reinit cfg (int r) s = Inr (ss ! r)"
  proof (cases "construct cfg = Inr ss")
    case True
    from construct_rank[OF True] assms(2) that show ?thesis by metis
  next
    case False
    then have a: "repartition cfg ss0 ins = Inr (True, ss)" using assms(1) by simp
    from repartition_accepted[OF a] assms(2) that show ?thesis
      unfolding accept_update_def by metis
  qed
  note d = reinit_decomposition[OF re]
  from d(1) local_indexed_bij[OF d(1)] d(2) d(3) show ?thesis
    by (simp add: local_indexed_def ensure_fatal_def)
qed

theorem global_to_local_bijection_witness:
  "grid_debug (exA True True) \<and> sigint_terminates (exA True True)
   \<and> construct (exA True True) = Inr [exA_st0, exA_st1]
   \<and> bij_betw (\<lambda>g. the (global_to_local exA_st0 g)) (set (cells exA_st0))
         {0..<nlocalcells exA_st0 + nghostcells exA_st0}
   \<and> take (nlocalcells exA_st0) (cells exA_st0) = [0, 1]
   \<and> 0 < nlocalcells exA_st0"
  using global_to_local_bijection[of "exA True True" "[exA_st0, exA_st1]" "[]" "[]" 0] construct_exA[of True True]
  by (simp add: exA_simps exA_st0_def)

text \<open>
  The claim as stated fails in a build with \<^verbatim>\<open>NDEBUG\<close>: in the box of two cells of size
  \<open>1e-6\<close> the constructor returns on both ranks, and rank 0 has no local cell. The same
  happens in a build with \<^verbatim>\<open>GRID_DEBUG\<close> where SIGINT does not terminate the processes.
\<close>

theorem global_to_local_bijection_counterexample:
  "\<not> grid_debug (exT False True) \<and> construct (exT False True) = Inr [exT_st0, exT_st1]
   \<and> nlocalcells exT_st0 = 0 \<and> cells exT_st0 = []
   \<and> grid_debug (exT True False) \<and> \<not> sigint_terminates (exT True False)
   \<and> construct (exT True False) = Inr [exT_st0, exT_st1]"
  using construct_exT[of False True] construct_exT[of True False]
  by (simp add: exT_simps exT_st0_def exT_pre0_def)

subsection \<open>C6: the initial grid-point\<close>

text \<open>"On the order of \<open>x\<close>": within a factor of ten of \<open>x\<close>.\<close>

definition on_the_order_of :: "real \<Rightarrow> real \<Rightarrow> bool" where
  "on_the_order_of x b \<longleftrightarrow> x / 10 \<le> b \<and> b \<le> 10 * x"

definition exK :: config where
  "exK = example_config False True (2, 1, 1) (4000, 2000, 2000) (4, 1, 1)"

text \<open>
  C6 (amended). At construction, for every rank \<open>r\<close> and every axis \<open>d\<close>, the initial
  grid-point coordinate is \<^verbatim>\<open>my_right[d]\<close>, the upper corner of the rank's axis-aligned
  subdomain, lowered by the constant \<^verbatim>\<open>1e-6\<close> exactly on the axes where
  \<^verbatim>\<open>my_right[d] < box_l[d]\<close>; on the other axes nothing is subtracted. The constant is an
  absolute length: it is not scaled by the cell size.
\<close>

theorem initial_gridpoint_bias:
  assumes "construct cfg = Inr ss" and "r < length ss" and "d < 3"
  shows "nth3 (gridpoint (ss ! r)) d =
           nth3 (my_right cfg (int r)) d
             - (if nth3 (my_right cfg (int r)) d < nth3 (box_l cfg) d then 1 / 1000000 else 0)"
proof -
  have r: "r < n_nodes cfg" using construct_rank(1)[OF assms(1)] assms(2) by simp
  show ?thesis
    unfolding construct_geometry(1)[OF assms(1) r]
    using assms(3) by (simp add: init_gridpoint_def nth3_tab3)
qed

theorem initial_gridpoint_bias_witness:
  "construct (exA False True) = Inr [exA_st0, exA_st1]
   \<and> nth3 (gridpoint exA_st0) 0 = 2 - 1 / 1000000 \<and> nth3 (gridpoint exA_st0) 1 = 2
   \<and> nth3 (my_right (exA False True) 0) 0 = 2 \<and> nth3 (my_right (exA False True) 0) 1 = 2
   \<and> nth3 (box_l (exA False True)) 0 = 4 \<and> nth3 (box_l (exA False True)) 1 = 2"
  using initial_gridpoint_bias[of "exA False True" "[exA_st0, exA_st1]" 0 0]
        initial_gridpoint_bias[of "exA False True" "[exA_st0, exA_st1]" 0 1] construct_exA[of False True]
  by (simp add: exA_simps regular_right_def cart_coords_def tab3_def)

text \<open>
  The claim as stated ("a bias on the order of \<^verbatim>\<open>1e-6 * cell_size\<close>") fails where the cell
  size is far from 1: with cells of size 1000 along the first axis the corner of rank 0 is
  lowered by \<^verbatim>\<open>1e-6\<close>, a thousandth of \<^verbatim>\<open>1e-6 * cell_size\<close>.
\<close>

theorem initial_gridpoint_bias_counterexample:
  "nth3 (gbox_cell_size exK) 0 = 1000
   \<and> nth3 (my_right exK 0) 0 - nth3 (gridpoint (init_gridpoint exK 0 fresh_state)) 0 = 1 / 1000000
   \<and> \<not> on_the_order_of (1 / 1000000 * nth3 (gbox_cell_size exK) 0)
         (nth3 (my_right exK 0) 0 - nth3 (gridpoint (init_gridpoint exK 0 fresh_state)) 0)"
  by (simp add: exK_def example_config_def Let_def tab3_def init_gridpoint_def regular_right_def
        cart_coords_def on_the_order_of_def)

subsection \<open>C7: the exchange descriptors are rebuilt deterministically, in sorted order\<close>

lemma local_indexed_lookup:
  assumes "local_indexed s" and "g \<in> dom (global_to_local s)"
  shows "cells s ! lookup0 (global_to_local s) g = g"
    and "lookup0 (global_to_local s) g = the (global_to_local s g)"
proof -
  from assms obtain i where i: "i < length (cells s)" "cells s ! i = g"
    by (auto simp: local_indexed_def in_set_conv_nth)
  then have "global_to_local s g = Some i" using assms(1) by (auto simp: local_indexed_def)
  then show "cells s ! lookup0 (global_to_local s) g = g"
    and "lookup0 (global_to_local s) g = the (global_to_local s g)"
    using i by (simp_all add: lookup0_def)
qed

lemma localized_sorted:
  assumes "local_indexed s" and "set gs \<subseteq> dom (global_to_local s)"
  shows "map (lookup0 (global_to_local s)) (sort gs) = map (\<lambda>g. the (global_to_local s g)) (sort gs)"
    and "map (\<lambda>l. cells s ! l) (map (lookup0 (global_to_local s)) (sort gs)) = sort gs"
proof -
  have in_dom: "\<And>g. g \<in> set (sort gs) \<Longrightarrow> g \<in> dom (global_to_local s)"
    using assms(2) by auto
  show "map (lookup0 (global_to_local s)) (sort gs) = map (\<lambda>g. the (global_to_local s g)) (sort gs)"
    by (rule map_cong[OF refl]) (rule local_indexed_lookup(2)[OF assms(1) in_dom])
  have "map (\<lambda>l. cells s ! l) (map (lookup0 (global_to_local s)) (sort gs)) = map (\<lambda>g. g) (sort gs)"
    unfolding map_map comp_def
    by (rule map_cong[OF refl]) (rule local_indexed_lookup(1)[OF assms(1) in_dom])
  then show "map (\<lambda>l. cells s ! l) (map (lookup0 (global_to_local s)) (sort gs)) = sort gs"
    by simp
qed

text \<open>
  C7. If \<^verbatim>\<open>reinit\<close> returns, then a second call on the object it left returns too and
  builds the same exchange descriptors (and the same \<open>cells\<close> and \<open>global_to_local\<close>);
  the result does not depend on the decomposition the object held before the call; and in
  every descriptor \<open>recv\<close> and \<open>send\<close> are the images under \<open>global_to_local\<close> of lists
  of global cell indices sorted in ascending order: reading the local indices back through
  \<open>cells\<close> gives those sorted lists.
\<close>

theorem reinit_deterministic_and_sorted:
  assumes "reinit cfg me s = Inr s1"
  shows "(\<exists>s2. reinit cfg me s1 = Inr s2 \<and> exchange_vec s2 = exchange_vec s1
              \<and> cells s2 = cells s1 \<and> global_to_local s2 = global_to_local s1)
       \<and> reinit cfg me (s\<lparr>nlocalcells := n, nghostcells := g, cells := c,
                          global_to_local := m, exchange_vec := e\<rparr>) = Inr s1
       \<and> (\<forall>v\<in>set (exchange_vec s1). \<exists>rg sg.
             sorted rg \<and> sorted sg
           \<and> recv v = map (\<lambda>g. the (global_to_local s1 g)) rg
           \<and> send v = map (\<lambda>g. the (global_to_local s1 g)) sg
           \<and> map (\<lambda>l. cells s1 ! l) (recv v) = rg
           \<and> map (\<lambda>l. cells s1 ! l) (send v) = sg)"
proof (intro conjI)
  from reinit_twice[OF assms] obtain m' where "reinit cfg me s1 = Inr (s1\<lparr>neighbor_idx := m'\<rparr>)" ..
  then show "\<exists>s2. reinit cfg me s1 = Inr s2 \<and> exchange_vec s2 = exchange_vec s1
              \<and> cells s2 = cells s1 \<and> global_to_local s2 = global_to_local s1"
    by simp
next
  have "reinit cfg me (s\<lparr>nlocalcells := n, nghostcells := g, cells := c,
                          global_to_local := m, exchange_vec := e\<rparr>) = reinit cfg me s"
    by (simp add: reinit_def clear_decomposition_def)
  then show "reinit cfg me (s\<lparr>nlocalcells := n, nghostcells := g, cells := c,
                          global_to_local := m, exchange_vec := e\<rparr>) = Inr s1"
    using assms by simp
next
  from assms obtain s3 where li: "local_indexed s3" and lk: "lists_known s3"
    and c: "cells s1 = cells s3" and gl: "global_to_local s1 = global_to_local s3"
    and ev: "exchange_vec s1 = map (localized (global_to_local s3)) (exchange_vec s3)"
    by (rule reinit_phases)
  show "\<forall>v\<in>set (exchange_vec s1). \<exists>rg sg.
             sorted rg \<and> sorted sg
           \<and> recv v = map (\<lambda>g. the (global_to_local s1 g)) rg
           \<and> send v = map (\<lambda>g. the (global_to_local s1 g)) sg
           \<and> map (\<lambda>l. cells s1 ! l) (recv v) = rg
           \<and> map (\<lambda>l. cells s1 ! l) (send v) = sg"
  proof
    fix v assume "v \<in> set (exchange_vec s1)"
    then obtain k where k: "k < length (exchange_vec s3)"
      and v: "v = localized (global_to_local s3) (exchange_vec s3 ! k)"
      unfolding ev by (auto simp: in_set_conv_nth)
    have kr: "set (recv (exchange_vec s3 ! k)) \<subseteq> dom (global_to_local s3)"
      and ks: "set (send (exchange_vec s3 ! k)) \<subseteq> dom (global_to_local s3)"
      using lk k by (simp_all add: lists_known_def)
    note r = localized_sorted[OF li kr] and sd = localized_sorted[OF li ks]
    show "\<exists>rg sg. sorted rg \<and> sorted sg
           \<and> recv v = map (\<lambda>g. the (global_to_local s1 g)) rg
           \<and> send v = map (\<lambda>g. the (global_to_local s1 g)) sg
           \<and> map (\<lambda>l. cells s1 ! l) (recv v) = rg
           \<and> map (\<lambda>l. cells s1 ! l) (send v) = sg"
      apply (rule exI[of _ "sort (recv (exchange_vec s3 ! k))"])
      apply (rule exI[of _ "sort (send (exchange_vec s3 ! k))"])
      using r sd by (simp add: v localized_def c gl)
  qed
qed

theorem reinit_deterministic_and_sorted_witness:
  "reinit (exA False True) 0 exA_pre0 = Inr exA_st0
   \<and> (\<exists>s2. reinit (exA False True) 0 exA_st0 = Inr s2 \<and> exchange_vec s2 = exchange_vec exA_st0)
   \<and> reinit (exA False True) 0 (exA_pre0\<lparr>nlocalcells := 7, nghostcells := 7, cells := [5],
          global_to_local := [5 \<mapsto> 0], exchange_vec := []\<rparr>) = Inr exA_st0
   \<and> exchange_vec exA_st0 = [\<lparr>dest = 1, recv = [3, 2], send = [0, 1]\<rparr>]
   \<and> map (\<lambda>l. cells exA_st0 ! l) [3, 2] = [2, 3]
   \<and> map (\<lambda>l. cells exA_st0 ! l) [0, 1] = [0, 1]"
proof -
  note t = reinit_deterministic_and_sorted[OF reinit_exA_rank0[of False True],
          where n = 7 and g = 7 and c = "[5]" and m = "[5 \<mapsto> 0]" and e = "[]"]
  from t have a: "\<exists>s2. reinit (exA False True) 0 exA_st0 = Inr s2 \<and> exchange_vec s2 = exchange_vec exA_st0"
    by blast
  from t have b: "reinit (exA False True) 0 (exA_pre0\<lparr>nlocalcells := 7, nghostcells := 7, cells := [5],
          global_to_local := [5 \<mapsto> 0], exchange_vec := []\<rparr>) = Inr exA_st0"
    by blast
  have c: "exchange_vec exA_st0 = [\<lparr>dest = 1, recv = [3, 2], send = [0, 1]\<rparr>]"
    "map (\<lambda>l. cells exA_st0 ! l) [3, 2] = [2, 3]" "map (\<lambda>l. cells exA_st0 ! l) [0, 1] = [0, 1]"
    by (simp_all add: exA_st0_def)
  show ?thesis using a b c reinit_exA_rank0[of False True] by blast
qed

subsection \<open>C9: command\<close>

lemmas regex_eval = match_mure_def regex_match_def mure_head_def mure_group_def Plus_def
  is_digit_def is_space_def is_line_terminator_def

lemma command_sets_mu_example: "mu (command ''mu = 0.5'' s) = 1 / 2"
  by (simp add: command_def regex_eval strtod_def digits_value_def)

text \<open>
  C9. The claim (\<open>\<mu>\<close> changes exactly for the strings that match
  \<^verbatim>\<open>\s*mu\s*=\s*(\d+\.|\.\d+|\d+\.\d+)\<close>) does not hold of the code: the third alternative
  of the pattern in the source is \<^verbatim>\<open>\d+.\d+\<close> with an unescaped dot, so \<^verbatim>\<open>command\<close> also
  accepts \<^verbatim>\<open>"mu = 123"\<close> and \<^verbatim>\<open>"mu = 2x5"\<close>, which the pattern of the claim rejects, and
  sets \<open>\<mu>\<close> to 123 and to 2.
\<close>

theorem command_accepts_number_without_point:
  "\<not> regex_match spec_mure ''mu = 123'' \<and> mu (command ''mu = 123'' s) = 123
   \<and> \<not> regex_match spec_mure ''mu = 2x5'' \<and> mu (command ''mu = 2x5'' s) = 2"
  by (simp add: command_def regex_eval strtod_def digits_value_def spec_mure_def spec_group_def)

subsection \<open>C8: position_to_cell_index\<close>

lemmas resolve_eval = position_to_rank_def position_to_cell_index_def box_midpoint_def
  unlinearize_def tab3_def regular_owner_def box_cell_at_pos_def linearize_def cart_rank_def
  lookup0_def touch_present touch_absent Let_def




subsection \<open>C5: the neighbourhood communicator\<close>

definition exB :: config where
  "exB = example_config False True (3, 1, 1) (6, 2, 2) (6, 1, 1)"

text \<open>
  C5 (amended). After construction, the sources of a rank in the graph communicator of
  \<^verbatim>\<open>repartition\<close> are the distinct ranks other than itself at the offsets \<open>{0, 1}\<^sup>3\<close> of its
  Cartesian coordinates, followed by the rank itself; its destinations are the distinct
  ranks other than itself at the offsets \<open>{-1, 0}\<^sup>3\<close>, followed by the rank itself. (The
  list \<open>neighbor_ranks\<close> holds the distinct ranks other than itself at all 27 offsets.) So
  the gathered \<open>\<lambda>\<close> vector, and with it the normaliser \<open>\<Sum> \<lambda>\<^sub>i / nneigh\<close>, ranges over those
  sources and ends with the load of the calling rank itself.
\<close>

theorem neighborhood_graph_has_self_edge:
  assumes "construct cfg = Inr ss" and "r < length ss"
  shows "\<exists>src dst.
           comm_sources (ss ! r) = src @ [int r] \<and> distinct src
         \<and> set src = offset_rank cfg (int r) ` ({0, 1} \<times> {0, 1} \<times> {0, 1}) - {int r}
         \<and> comm_dests (ss ! r) = dst @ [int r] \<and> distinct dst
         \<and> set dst = offset_rank cfg (int r) ` ({- 1, 0} \<times> {- 1, 0} \<times> {- 1, 0}) - {int r}
         \<and> set (neighbor_ranks (ss ! r)) = offset_rank cfg (int r) ` set neighbor_offsets - {int r}
         \<and> distinct (neighbor_ranks (ss ! r))
         \<and> gathered_lambda ss ins r =
              map (\<lambda>q. sum_list (weights (ins ! nat q))) src @ [sum_list (weights (ins ! r))]"
proof -
  let ?s = "init_neighbors cfg (int r) (init_gridpoint cfg (int r) fresh_state)"
  note n = construct_neighbors[OF assms]
  note i = init_neighbors_result[of cfg "int r" "init_gridpoint cfg (int r) fresh_state"]
  from i(5) obtain src where src: "comm_sources ?s = src @ [int r]" "distinct src"
    "set src = offset_rank cfg (int r) ` ({0, 1} \<times> {0, 1} \<times> {0, 1}) - {int r}" by blast
  from i(6) obtain dst where dst: "comm_dests ?s = dst @ [int r]" "distinct dst"
    "set dst = offset_rank cfg (int r) ` ({- 1, 0} \<times> {- 1, 0} \<times> {- 1, 0}) - {int r}" by blast
  have g: "gathered_lambda ss ins r =
              map (\<lambda>q. sum_list (weights (ins ! nat q))) src @ [sum_list (weights (ins ! r))]"
    by (simp add: gathered_lambda_def n src)
  show ?thesis
    apply (rule exI[of _ src])
    apply (rule exI[of _ dst])
    using src dst g i(1,2) by (simp add: n)
qed

theorem neighborhood_graph_has_self_edge_witness:
  "construct (exA False True) = Inr [exA_st0, exA_st1]
   \<and> comm_sources exA_st0 = [1, 0] \<and> comm_dests exA_st0 = [1, 0] \<and> neighbor_ranks exA_st0 = [1]
   \<and> gathered_lambda [exA_st0, exA_st1] [\<lparr>weights = [1, 2], particles = []\<rparr>, \<lparr>weights = [4, 4], particles = []\<rparr>] 0
        = [8, 3]"
proof -
  note t = neighborhood_graph_has_self_edge[OF construct_exA[of False True], of 0
             "[\<lparr>weights = [1, 2], particles = []\<rparr>, \<lparr>weights = [4, 4], particles = []\<rparr>]"]
  have s: "comm_sources exA_st0 = [1, 0]" "comm_dests exA_st0 = [1, 0]" "neighbor_ranks exA_st0 = [1]"
    by (simp_all add: exA_st0_def exA_pre0_def)
  from t obtain src where "comm_sources ([exA_st0, exA_st1] ! 0) = src @ [int 0]"
    and g: "gathered_lambda [exA_st0, exA_st1] [\<lparr>weights = [1, 2], particles = []\<rparr>, \<lparr>weights = [4, 4], particles = []\<rparr>] 0 =
              map (\<lambda>q. sum_list (weights ([\<lparr>weights = [1, 2], particles = []\<rparr>, \<lparr>weights = [4, 4], particles = []\<rparr>] ! nat q))) src
              @ [sum_list (weights ([\<lparr>weights = [1, 2], particles = []\<rparr>, \<lparr>weights = [4, 4], particles = []\<rparr>] ! 0))]"
    by auto
  then have "src = [1]" by (simp add: s)
  with g have "gathered_lambda [exA_st0, exA_st1] [\<lparr>weights = [1, 2], particles = []\<rparr>, \<lparr>weights = [4, 4], particles = []\<rparr>] 0 = [8, 3]"
    by simp
  then show ?thesis using s construct_exA[of False True] by simp
qed

text \<open>
  The claim as stated (all 26 neighbours, no self-edge) fails: on a \<open>3 \<times> 1 \<times> 1\<close> process
  grid rank 0 has the neighbours 2 and 1, its sources are rank 1 and itself, and its
  destinations are rank 2 and itself.
\<close>

theorem neighborhood_graph_has_self_edge_counterexample:
  "neighbor_ranks (init_neighbors exB 0 fresh_state) = [2, 1]
   \<and> comm_sources (init_neighbors exB 0 fresh_state) = [1, 0]
   \<and> comm_dests (init_neighbors exB 0 fresh_state) = [2, 0]"
  by (simp add: exB_def example_config_def init_eval)

subsection \<open>C10: position_to_neighidx of a position of the calling rank\<close>

text \<open>
  C10. If \<^verbatim>\<open>position_to_rank(p)\<close> is the calling rank and \<^verbatim>\<open>neighbor_idx\<close> holds no entry
  for the calling rank other than one with the value 0, then \<^verbatim>\<open>position_to_neighidx(p)\<close>
  does not fail: it returns 0 and leaves the key of the calling rank in the map with the
  value 0. The premise on \<^verbatim>\<open>neighbor_idx\<close> holds after construction, where moreover the
  \<open>i\<close>-th neighbour rank has the index \<open>i\<close> (so the first neighbour has the index 0 too),
  and \<^verbatim>\<open>reinit\<close> (the only part of \<^verbatim>\<open>repartition\<close> that touches the map) and
  \<^verbatim>\<open>position_to_neighidx\<close> keep it.
\<close>

theorem position_to_neighidx_of_own_position:
  "(position_to_rank cfg me s p = Inr me \<and> lookup0 (neighbor_idx s) me = 0 \<longrightarrow>
      position_to_neighidx cfg me s p = Inr (0, s\<lparr>neighbor_idx := (neighbor_idx s)(me \<mapsto> 0)\<rparr>))
   \<and> (construct cfg = Inr ss \<and> r < length ss \<longrightarrow>
        lookup0 (neighbor_idx (ss ! r)) (int r) = 0
      \<and> (\<forall>i<length (neighbor_ranks (ss ! r)).
            lookup0 (neighbor_idx (ss ! r)) (neighbor_ranks (ss ! r) ! i) = i))
   \<and> (reinit cfg me s = Inr s' \<longrightarrow> lookup0 (neighbor_idx s') me = lookup0 (neighbor_idx s) me)
   \<and> (position_to_neighidx cfg me s q = Inr (i, s') \<longrightarrow>
        lookup0 (neighbor_idx s') me = lookup0 (neighbor_idx s) me)"
proof (intro conjI impI)
  assume "position_to_rank cfg me s p = Inr me \<and> lookup0 (neighbor_idx s) me = 0"
  then show "position_to_neighidx cfg me s p = Inr (0, s\<lparr>neighbor_idx := (neighbor_idx s)(me \<mapsto> 0)\<rparr>)"
    by (simp add: position_to_neighidx_def touch_def)
next
  assume a: "construct cfg = Inr ss \<and> r < length ss"
  then have c: "construct cfg = Inr ss" and r: "r < length ss" by simp_all
  note n = construct_neighbors[OF c r]
  note i = init_neighbors_result[of cfg "int r" "init_gridpoint cfg (int r) fresh_state"]
  show "lookup0 (neighbor_idx (ss ! r)) (int r) = 0"
    unfolding n(4) using i(4) by (simp add: lookup0_def)
  show "\<forall>i<length (neighbor_ranks (ss ! r)).
            lookup0 (neighbor_idx (ss ! r)) (neighbor_ranks (ss ! r) ! i) = i"
    unfolding n(4) n(1) using i(3) by (simp add: lookup0_def)
next
  assume "reinit cfg me s = Inr s'"
  then show "lookup0 (neighbor_idx s') me = lookup0 (neighbor_idx s) me" by (rule reinit_lookup0)
next
  assume "position_to_neighidx cfg me s q = Inr (i, s')"
  then show "lookup0 (neighbor_idx s') me = lookup0 (neighbor_idx s) me"
    by (auto simp: position_to_neighidx_def lookup0_touch split: sum.splits)
qed

theorem position_to_neighidx_of_own_position_witness:
  "construct (exA False True) = Inr [exA_st0, exA_st1]
   \<and> position_to_rank (exA False True) 0 exA_st0 (3 / 2, 1, 1) = Inr 0
   \<and> neighbor_idx exA_st0 0 = None
   \<and> position_to_neighidx (exA False True) 0 exA_st0 (3 / 2, 1, 1)
        = Inr (0, exA_st0\<lparr>neighbor_idx := [1 \<mapsto> 0, 0 \<mapsto> 0]\<rparr>)
   \<and> position_to_rank (exA False True) 0 exA_st0 (5 / 2, 1, 1) = Inr 1
   \<and> position_to_neighidx (exA False True) 0 exA_st0 (5 / 2, 1, 1) = Inr (0, exA_st0)"
proof -
  have r: "position_to_rank (exA False True) 0 exA_st0 (3 / 2, 1, 1) = Inr 0"
    by (simp add: exA_simps exA_st0_def exA_pre0_def resolve_eval)
  have r1: "position_to_rank (exA False True) 0 exA_st0 (5 / 2, 1, 1) = Inr 1"
    by (simp add: exA_simps exA_st0_def exA_pre0_def resolve_eval)
  have n: "neighbor_idx exA_st0 = [1 \<mapsto> 0]" by (simp add: exA_st0_def exA_pre0_def)
  have l: "lookup0 (neighbor_idx exA_st0) 0 = 0" by (simp add: n lookup0_def)
  have n1: "position_to_neighidx (exA False True) 0 exA_st0 (5 / 2, 1, 1) = Inr (0, exA_st0)"
    by (simp add: position_to_neighidx_def r1 n lookup0_def touch_present)
  from position_to_neighidx_of_own_position[of "exA False True" 0 exA_st0 "(3 / 2, 1, 1)"] r l
  have "position_to_neighidx (exA False True) 0 exA_st0 (3 / 2, 1, 1)
        = Inr (0, exA_st0\<lparr>neighbor_idx := (neighbor_idx exA_st0)(0 \<mapsto> 0)\<rparr>)" by blast
  then show ?thesis using r r1 n1 construct_exA[of False True] by (simp add: n)
qed

subsection \<open>C1: repartition rejects exactly the candidates with a conflict\<close>

text \<open>
  C1 (amended). For every call of \<^verbatim>\<open>repartition\<close> on objects whose \<^verbatim>\<open>gridpoints\<close> table
  holds the \<^verbatim>\<open>gridpoint\<close> of every rank (as after the constructor and after every call).
  Let the count be the sum over all ranks of the number of pairs \<open>i < j\<close> among the 8
  corners of the rank's new bounding box at a distance below \<open>2 * min_cell_size\<close>.
  Whenever the call returns, it returns false if and only if the count is positive, and
  whenever it returns false, the object of every rank is as before the call. With a
  positive count the call returns false, except in a build with \<^verbatim>\<open>GRID_DEBUG\<close> where the
  SIGINT that \<^verbatim>\<open>ENSURE(0)\<close> sends terminates the processes: there the call does not return.
  In a build with \<^verbatim>\<open>NDEBUG\<close>, and in a build with \<^verbatim>\<open>GRID_DEBUG\<close> where SIGINT is handled,
  ignored or blocked, the call returns false exactly when the count is positive.
\<close>

theorem repartition_rejects_iff_conflicts:
  assumes "table_consistent ss"
  shows "(\<not> (grid_debug cfg \<and> sigint_terminates cfg) \<longrightarrow>
           ((\<exists>ss'. repartition cfg ss ins = Inr (False, ss')) \<longleftrightarrow>
            0 < (\<Sum>r<length ss. card {(i, j). i < j \<and> j < 8 \<and>
                   dist2 (bounding_box cfg (candidate_gridpoints cfg ss ins) (int r) ! i)
                         (bounding_box cfg (candidate_gridpoints cfg ss ins) (int r) ! j)
                     < 2 * min_cell_size cfg})))
       \<and> (repartition cfg ss ins = Inr (b, ss') \<longrightarrow>
            (\<not> b \<longleftrightarrow>
              0 < (\<Sum>r<length ss. card {(i, j). i < j \<and> j < 8 \<and>
                   dist2 (bounding_box cfg (candidate_gridpoints cfg ss ins) (int r) ! i)
                         (bounding_box cfg (candidate_gridpoints cfg ss ins) (int r) ! j)
                     < 2 * min_cell_size cfg}))
            \<and> (\<not> b \<longrightarrow> ss' = ss))
       \<and> (grid_debug cfg \<and> sigint_terminates cfg \<and>
            0 < (\<Sum>r<length ss. card {(i, j). i < j \<and> j < 8 \<and>
                   dist2 (bounding_box cfg (candidate_gridpoints cfg ss ins) (int r) ! i)
                         (bounding_box cfg (candidate_gridpoints cfg ss ins) (int r) ! j)
                     < 2 * min_cell_size cfg})
          \<longrightarrow> repartition cfg ss ins = Inl EnsureFailed)"
proof -
  have t: "(\<Sum>r<length ss. card {(i, j). i < j \<and> j < 8 \<and>
                   dist2 (bounding_box cfg (candidate_gridpoints cfg ss ins) (int r) ! i)
                         (bounding_box cfg (candidate_gridpoints cfg ss ins) (int r) ! j)
                     < 2 * min_cell_size cfg})
           = total_conflicts cfg (candidate_gridpoints cfg ss ins)"
    by (simp add: total_conflicts_sum length_candidate_gridpoints)
  show ?thesis
    unfolding t repartition_rejected[OF assms] ensure_fatal_def
    by (auto split: sum.splits)
qed

text \<open>
  The example of two ranks, whose corners have a conflict, in a build with \<^verbatim>\<open>NDEBUG\<close>, in a
  build with \<^verbatim>\<open>GRID_DEBUG\<close> where SIGINT is handled, and in one where it terminates the
  processes; and the accepted call of the second example.
\<close>

theorem repartition_rejects_iff_conflicts_witness:
  "table_consistent exA_states \<and> \<not> grid_debug (exA False True)
   \<and> repartition (exA False True) exA_states exA_uniform = Inr (False, exA_states)
   \<and> 0 < (\<Sum>r<length exA_states. card {(i, j). i < j \<and> j < 8 \<and>
          dist2 (bounding_box (exA False True) (candidate_gridpoints (exA False True) exA_states exA_uniform) (int r) ! i)
                (bounding_box (exA False True) (candidate_gridpoints (exA False True) exA_states exA_uniform) (int r) ! j)
            < 2 * min_cell_size (exA False True)})
   \<and> grid_debug (exA True False) \<and> \<not> sigint_terminates (exA True False)
   \<and> repartition (exA True False) exA_states exA_uniform = Inr (False, exA_states)
   \<and> 0 < (\<Sum>r<length exA_states. card {(i, j). i < j \<and> j < 8 \<and>
          dist2 (bounding_box (exA True False) (candidate_gridpoints (exA True False) exA_states exA_uniform) (int r) ! i)
                (bounding_box (exA True False) (candidate_gridpoints (exA True False) exA_states exA_uniform) (int r) ! j)
            < 2 * min_cell_size (exA True False)})
   \<and> table_consistent exC_states
   \<and> repartition (exC False True) exC_states exC_load = Inr (True, exC_moved)
   \<and> (\<Sum>r<length exC_states. card {(i, j). i < j \<and> j < 8 \<and>
          dist2 (bounding_box (exC False True) (candidate_gridpoints (exC False True) exC_states exC_load) (int r) ! i)
                (bounding_box (exC False True) (candidate_gridpoints (exC False True) exC_states exC_load) (int r) ! j)
            < 2 * min_cell_size (exC False True)}) = 0
   \<and> grid_debug (exA True True) \<and> sigint_terminates (exA True True)
   \<and> 0 < (\<Sum>r<length exA_states. card {(i, j). i < j \<and> j < 8 \<and>
          dist2 (bounding_box (exA True True) (candidate_gridpoints (exA True True) exA_states exA_uniform) (int r) ! i)
                (bounding_box (exA True True) (candidate_gridpoints (exA True True) exA_states exA_uniform) (int r) ! j)
            < 2 * min_cell_size (exA True True)})
   \<and> repartition (exA True True) exA_states exA_uniform = Inl EnsureFailed"
proof -
  have c: "\<And>dbg sig. 0 < (\<Sum>r<length exA_states. card {(i, j). i < j \<and> j < 8 \<and>
          dist2 (bounding_box (exA dbg sig) (candidate_gridpoints (exA dbg sig) exA_states exA_uniform) (int r) ! i)
                (bounding_box (exA dbg sig) (candidate_gridpoints (exA dbg sig) exA_states exA_uniform) (int r) ! j)
            < 2 * min_cell_size (exA dbg sig)})"
  proof -
    fix dbg sig
    have "0 < total_conflicts (exA dbg sig) (candidate_gridpoints (exA dbg sig) exA_states exA_uniform)"
      using exA_conflict[of dbg sig]
      by (simp add: candidate_uniform[OF exA_uniform_load] exA_gridpoints)
    then show "0 < (\<Sum>r<length exA_states. card {(i, j). i < j \<and> j < 8 \<and>
          dist2 (bounding_box (exA dbg sig) (candidate_gridpoints (exA dbg sig) exA_states exA_uniform) (int r) ! i)
                (bounding_box (exA dbg sig) (candidate_gridpoints (exA dbg sig) exA_states exA_uniform) (int r) ! j)
            < 2 * min_cell_size (exA dbg sig)})"
      by (simp add: total_conflicts_sum length_candidate_gridpoints)
  qed
  show ?thesis
    using repartition_rejects_iff_conflicts[OF exA_consistent,
            where cfg = "exA False True" and ins = exA_uniform and b = False and ss' = exA_states]
          repartition_rejects_iff_conflicts[OF exA_consistent,
            where cfg = "exA True False" and ins = exA_uniform and b = False and ss' = exA_states]
          repartition_rejects_iff_conflicts[OF exC_consistent,
            where cfg = "exC False True" and ins = exC_load and b = True and ss' = exC_moved]
          repartition_rejects_iff_conflicts[OF exA_consistent,
            where cfg = "exA True True" and ins = exA_uniform]
          c[of False True] c[of True False] c[of True True]
          repartition_exA_uniform[of False True] repartition_exA_uniform[of True False]
          repartition_exC_load[of False True] exA_consistent exC_consistent
    by (simp add: exA_simps exC_simps)
qed

text \<open>
  The claim as stated fails in a build with \<^verbatim>\<open>GRID_DEBUG\<close> where SIGINT has its default
  disposition: on the objects that the constructor returns on the example of two ranks
  the count is positive, and the call does not return false: \<^verbatim>\<open>kill(0, SIGINT)\<close> in
  \<^verbatim>\<open>ENSURE(0)\<close> ends the job before the corners are restored.
\<close>

theorem repartition_rejects_iff_conflicts_counterexample:
  "grid_debug (exA True True) \<and> sigint_terminates (exA True True)
   \<and> construct (exA True True) = Inr exA_states
   \<and> 0 < total_conflicts (exA True True) (candidate_gridpoints (exA True True) exA_states exA_uniform)
   \<and> repartition (exA True True) exA_states exA_uniform = Inl EnsureFailed"
  using exA_conflict[of True True] repartition_exA_uniform[of True True] construct_exA[of True True]
  by (simp add: exA_simps exA_states_def[symmetric] candidate_uniform[OF exA_uniform_load] exA_gridpoints)

subsection \<open>C3: corners on the upper boundary are pinned\<close>

text \<open>
  C3. For every call of \<^verbatim>\<open>repartition\<close> that returns, every rank \<open>r\<close> and every axis \<open>d\<close>
  on which the Cartesian coordinate of \<open>r\<close> is \<open>dims[d] - 1\<close>: the candidate corner of
  \<open>r\<close> equals its old corner on axis \<open>d\<close>, and so does its \<^verbatim>\<open>gridpoint\<close> after the call,
  whether the call returns true or false.
\<close>

theorem repartition_pins_upper_boundary:
  assumes "table_consistent ss" and "repartition cfg ss ins = Inr (b, ss')"
    and "r < length ss" and "d < 3"
    and "nth3 (cart_coords (dims cfg) (int r)) d = nth3 (dims cfg) d - 1"
  shows "nth3 (candidate_corner cfg ss ins r) d = nth3 (gridpoint (ss ! r)) d
       \<and> nth3 (gridpoint (ss' ! r)) d = nth3 (gridpoint (ss ! r)) d"
proof -
  have c: "nth3 (candidate_corner cfg ss ins r) d = nth3 (gridpoint (ss ! r)) d"
    unfolding candidate_corner_def by (rule new_corner_pinned[OF assms(4,5)])
  have "nth3 (gridpoint (ss' ! r)) d = nth3 (gridpoint (ss ! r)) d"
  proof (cases b)
    case True
    then have "repartition cfg ss ins = Inr (True, ss')" using assms(2) by simp
    from repartition_accepted_geometry(1)[OF this assms(3)] c show ?thesis by simp
  next
    case False
    then have "ss' = ss" using assms(1,2)
      by (auto simp: repartition_rejected split: if_splits sum.splits)
    then show ?thesis by simp
  qed
  with c show ?thesis by simp
qed

theorem repartition_pins_upper_boundary_witness:
  "table_consistent exC_states
   \<and> repartition (exC False True) exC_states exC_load = Inr (True, exC_moved)
   \<and> nth3 (cart_coords (dims (exC False True)) 1) 0 = nth3 (dims (exC False True)) 0 - 1
   \<and> nth3 (candidate_corner (exC False True) exC_states exC_load 1) 0 = 6
   \<and> nth3 (gridpoint (exC_states ! 1)) 0 = 6 \<and> nth3 (gridpoint (exC_moved ! 1)) 0 = 6
   \<and> nth3 (cart_coords (dims (exC False True)) 0) 1 = nth3 (dims (exC False True)) 1 - 1
   \<and> nth3 (gridpoint (exC_states ! 0)) 1 = 2 \<and> nth3 (gridpoint (exC_moved ! 0)) 1 = 2
   \<and> nth3 (gridpoint (exC_states ! 0)) 0 = 2999999 / 1000000
   \<and> nth3 (gridpoint (exC_moved ! 0)) 0 = 3499999 / 1000000
   \<and> repartition (exA False True) exA_states exA_uniform = Inr (False, exA_states)
   \<and> nth3 (candidate_corner (exA False True) exA_states exA_uniform 1) 0 = 4"
  using repartition_pins_upper_boundary[OF exC_consistent repartition_exC_load[of False True],
          where r = 1 and d = 0]
        repartition_pins_upper_boundary[OF exC_consistent repartition_exC_load[of False True],
          where r = 0 and d = 1]
        repartition_pins_upper_boundary[OF exA_consistent,
          where cfg = "exA False True" and ins = exA_uniform and b = False and ss' = exA_states
            and r = 1 and d = 0]
        repartition_exA_uniform[of False True] repartition_exC_load[of False True] exC_consistent
  by (simp add: exA_simps exC_simps exC_states_simps exA_states_simps cart_coords_def tab3_def)

subsection \<open>C4: repartition under a uniform load\<close>




end
